(* ===== verification/Prelude.thy ===== *)
theory Prelude
  imports Main "HOL-Library.Word" "HOL-Library.Sublist" "HOL-Library.Code_Target_Nat"
begin

text \<open>
  What every component theory shares: bytes, Go's error values, the result type of a function
  that returns \<open>(T, error)\<close>, sequencing over results, and the two collections of simp rules
  the component proofs use.
\<close>

section \<open>Bytes, errors and results\<close>

type_synonym byte = "8 word"

text \<open>
  A Go \<open>string\<close> is an immutable sequence of bytes; so is HOL's \<^typ>\<open>string\<close> (a
  \<^typ>\<open>char\<close> is eight bits). Keys and addresses are \<open>[]byte\<close> values and are kept as
  \<^typ>\<open>byte list\<close>, so that masks and shifts are word operations.
\<close>

definition byte_of_char :: "char \<Rightarrow> byte" where
  "byte_of_char c = of_char c"

definition char_of_byte :: "byte \<Rightarrow> char" where
  "char_of_byte b = char_of (unat b)"

definition bytes_of :: "string \<Rightarrow> byte list" where
  "bytes_of = map byte_of_char"

text \<open>
  Go's \<open>error\<close> values. The three sentinels are the ones the code tests for with
  \<open>errors.Is\<close> or compares with \<open>==\<close>: \<open>os.ErrNotExist\<close>, \<open>wginternal.ErrReadOnly\<close>
  (internal/wginternal/client.go) and \<open>wgtypes.ErrUpdateOnlyNotSupported\<close> (wgtypes/errors.go).
  An error made by \<open>fmt.Errorf\<close> or \<open>errors.New\<close> is \<open>ErrText\<close> with a tag that
  names the message; one that wraps another with \<open>%w\<close> is \<open>ErrWrap\<close>, or \<open>ErrLine\<close>
  when the prefix is the line number of a configuration file.
\<close>

datatype go_error =
    ErrNotExist
  | ErrReadOnly
  | ErrUpdateOnlyNotSupported
  | ErrText string
  | ErrWrap string go_error
  | ErrLine nat go_error

fun errors_Is :: "go_error \<Rightarrow> go_error \<Rightarrow> bool" where
  "errors_Is (ErrWrap s e) t = (ErrWrap s e = t \<or> errors_Is e t)"
| "errors_Is (ErrLine n e) t = (ErrLine n e = t \<or> errors_Is e t)"
| "errors_Is e t = (e = t)"

type_synonym 'a res = "go_error + 'a"

definition bind_res :: "'e + 'a \<Rightarrow> ('a \<Rightarrow> 'e + 'b) \<Rightarrow> 'e + 'b" where
  "bind_res r k = (case r of Inl e \<Rightarrow> Inl e | Inr x \<Rightarrow> k x)"

definition map_err :: "('e \<Rightarrow> 'f) \<Rightarrow> 'e + 'a \<Rightarrow> 'f + 'a" where
  "map_err f r = (case r of Inl e \<Rightarrow> Inl (f e) | Inr x \<Rightarrow> Inr x)"

text \<open>A loop that appends one result per element and returns at the first error.\<close>

fun map_res :: "('a \<Rightarrow> 'e + 'b) \<Rightarrow> 'a list \<Rightarrow> 'e + 'b list" where
  "map_res f [] = Inr []"
| "map_res f (x # xs) =
     (case f x of
        Inl e \<Rightarrow> Inl e
      | Inr y \<Rightarrow> (case map_res f xs of Inl e \<Rightarrow> Inl e | Inr ys \<Rightarrow> Inr (y # ys)))"

text \<open>A loop that changes a value and returns at the first error.\<close>

fun fold_res :: "('a \<Rightarrow> 'b \<Rightarrow> 'e + 'b) \<Rightarrow> 'a list \<Rightarrow> 'b \<Rightarrow> 'e + 'b" where
  "fold_res f [] x = Inr x"
| "fold_res f (a # as) x = bind_res (f a x) (fold_res f as)"

definition is_ok :: "'e + 'a \<Rightarrow> bool" where
  "is_ok r = (case r of Inl _ \<Rightarrow> False | Inr _ \<Rightarrow> True)"

text \<open>A condition on the value of a pointer that may be nil.\<close>

fun opt_all :: "('a \<Rightarrow> bool) \<Rightarrow> 'a option \<Rightarrow> bool" where
  "opt_all P None = True"
| "opt_all P (Some x) = P x"

text \<open>Two's complement wrap-around of Go's \<open>int64\<close> (and of \<open>int\<close> on 64-bit platforms).\<close>

definition wrap64 :: "int \<Rightarrow> int" where
  "wrap64 i = (i + 2 ^ 63) mod 2 ^ 64 - 2 ^ 63"

text \<open>Go's conversions of an \<open>int\<close> to a narrower unsigned integer drop the high bits.\<close>

definition to_uint :: "nat \<Rightarrow> int \<Rightarrow> nat" where
  "to_uint w i = nat (i mod 2 ^ w)"

named_theorems go_string \<open>evaluation of the string routines on known shapes\<close>
named_theorems go_num \<open>numbers: bounds, wrap-around, printing and parsing\<close>

section \<open>Results\<close>

lemma bind_res_simps [simp]:
  "bind_res (Inl e) k = Inl e"
  "bind_res (Inr x) k = k x"
  by (simp_all add: bind_res_def)

lemma bind_res_Inr_iff: "bind_res r k = Inr y \<longleftrightarrow> (\<exists>x. r = Inr x \<and> k x = Inr y)"
  by (cases r) auto

lemma bind_res_Inl_iff: "bind_res r k = Inl e \<longleftrightarrow> r = Inl e \<or> (\<exists>x. r = Inr x \<and> k x = Inl e)"
  by (cases r) auto

lemma map_err_simps [simp]:
  "map_err f (Inl e) = Inl (f e)"
  "map_err f (Inr x) = Inr x"
  by (simp_all add: map_err_def)

lemma map_err_Inr_iff [simp]: "map_err f r = Inr x \<longleftrightarrow> r = Inr x"
  by (cases r) auto

lemma fold_res_append: "fold_res f (xs @ ys) x = bind_res (fold_res f xs x) (fold_res f ys)"
  by (induction xs arbitrary: x) (auto simp: bind_res_def split: sum.split)

lemma is_ok_simps [simp]: "is_ok (Inl e) = False" "is_ok (Inr x) = True"
  by (simp_all add: is_ok_def)

lemma map_res_length: "map_res f xs = Inr ys \<Longrightarrow> length ys = length xs"
  by (induction xs arbitrary: ys) (auto split: sum.splits)

lemma map_res_all_ok:
  assumes "\<And>x. x \<in> set xs \<Longrightarrow> f x = Inr (g x)"
  shows "map_res f xs = Inr (map g xs)"
  using assms by (induction xs) auto

lemma map_res_map [simp]: "map_res f (map g xs) = map_res (f \<circ> g) xs"
  by (induction xs) (auto split: sum.splits)

lemma wrap64_id [simp]: "- (2 ^ 63) \<le> i \<Longrightarrow> i < 2 ^ 63 \<Longrightarrow> wrap64 i = i"
  by (simp add: wrap64_def mod_pos_pos_trivial)

lemma wrap64_bounds: "- (2 ^ 63) \<le> wrap64 i \<and> wrap64 i < 2 ^ 63"
  using pos_mod_sign [of "2 ^ 64" "i + 2 ^ 63"] pos_mod_bound [of "2 ^ 64" "i + 2 ^ 63"]
  by (simp add: wrap64_def)

section \<open>Bytes and characters\<close>

lemma of_char_less_256: "of_char c < (256::nat)"
proof -
  have "of_char c mod (256::nat) = of_char c"
    by (metis char_of_char of_char_of)
  then show ?thesis
    by (metis mod_less_divisor zero_less_numeral)
qed

lemma unat_byte_less_256: "unat (b::byte) < 256"
  using unsigned_less [of b, where ?'a = nat] by simp

lemma unat_byte_of_char [simp]: "unat (byte_of_char c) = of_char c"
proof -
  have "unat (byte_of_char c) = unat (of_nat (of_char c) :: byte)"
    by (simp only: byte_of_char_def of_nat_of_char)
  also have "\<dots> = of_char c"
    using of_char_less_256 [of c] by (simp add: unsigned_of_nat take_bit_nat_eq_self)
  finally show ?thesis .
qed

lemma char_of_byte_of_char [simp]: "char_of_byte (byte_of_char c) = c"
  by (simp add: char_of_byte_def)

lemma byte_of_char_of_byte [simp]: "byte_of_char (char_of_byte b) = b"
proof -
  have "unat (byte_of_char (char_of_byte b)) = unat b"
    using unat_byte_less_256 [of b] by (simp only: unat_byte_of_char) (simp add: char_of_byte_def)
  then show ?thesis by (simp only: unsigned_word_eqI)
qed

lemma char_of_byte_eq_iff [simp]: "char_of_byte a = char_of_byte b \<longleftrightarrow> a = b"
  by (metis byte_of_char_of_byte)

section \<open>Lists\<close>

lemma takeWhile_append_stop:
  "\<lbrakk>\<And>x. x \<in> set xs \<Longrightarrow> P x; \<not> P y\<rbrakk> \<Longrightarrow> takeWhile P (xs @ y # ys) = xs"
  by (induction xs) auto

lemma dropWhile_append_stop:
  "\<lbrakk>\<And>x. x \<in> set xs \<Longrightarrow> P x; \<not> P y\<rbrakk> \<Longrightarrow> dropWhile P (xs @ y # ys) = y # ys"
  by (induction xs) auto

end
