(* ===== verification/GoStrings.thy ===== *)
theory GoStrings
  imports Prelude
begin

text \<open>
  The parts of Go's standard library that the code runs on text: \<open>unicode/utf8\<close>,
  \<open>strings\<close>, \<open>strconv\<close>, \<open>encoding/hex\<close>, \<open>encoding/base64\<close> and
  \<open>bufio.Scanner\<close> with \<open>ScanLines\<close>, each as far as the sources under src/ use it.
  Strings are byte sequences, as in Go.
\<close>

section \<open>UTF-8\<close>

abbreviation code :: "char \<Rightarrow> nat" where
  "code c \<equiv> of_char c"

definition between :: "nat \<Rightarrow> nat \<Rightarrow> char \<Rightarrow> bool" where
  "between lo hi c \<longleftrightarrow> lo \<le> code c \<and> code c \<le> hi"

text \<open>
  \<open>utf8.DecodeRuneInString\<close>: the number of bytes of the well-formed sequence at the head
  of the string, 0 where the head byte starts none (Go then yields \<open>RuneError\<close>, width 1).
\<close>

fun rune_len :: "string \<Rightarrow> nat" where
  "rune_len [] = 0"
| "rune_len (a # s) =
     (if code a < 0x80 then 1
      else if between 0xC2 0xDF a then
        (case s of b # _ \<Rightarrow> if between 0x80 0xBF b then 2 else 0 | _ \<Rightarrow> 0)
      else if between 0xE0 0xEF a then
        (case s of b # c # _ \<Rightarrow>
           if between (if code a = 0xE0 then 0xA0 else 0x80)
                (if code a = 0xED then 0x9F else 0xBF) b \<and> between 0x80 0xBF c
           then 3 else 0
         | _ \<Rightarrow> 0)
      else if between 0xF0 0xF4 a then
        (case s of b # c # d # _ \<Rightarrow>
           if between (if code a = 0xF0 then 0x90 else 0x80)
                (if code a = 0xF4 then 0x8F else 0xBF) b \<and> between 0x80 0xBF c \<and> between 0x80 0xBF d
           then 4 else 0
         | _ \<Rightarrow> 0)
      else 0)"

text \<open>\<open>for _, r := range s\<close>: a well-formed rune by its bytes, or a byte that starts none.\<close>

datatype rune = Rune string | BadByte char

fun runes :: "string \<Rightarrow> rune list" where
  "runes [] = []"
| "runes (c # s) =
     (case rune_len (c # s) of
        0 \<Rightarrow> BadByte c # runes s
      | Suc n \<Rightarrow> Rune (c # take n s) # runes (drop n s))"

definition replacement :: string where
  "replacement = [CHR 0xEF, CHR 0xBF, CHR 0xBD]"

fun rune_bytes :: "rune \<Rightarrow> string" where
  "rune_bytes (Rune s) = s"
| "rune_bytes (BadByte c) = replacement"

fun good_rune :: "rune \<Rightarrow> bool" where
  "good_rune (Rune s) = True"
| "good_rune (BadByte c) = False"

text \<open>\<open>utf8.ValidString\<close>\<close>

definition valid_string :: "string \<Rightarrow> bool" where
  "valid_string s = list_all good_rune (runes s)"

text \<open>\<open>utf8.EncodeRune\<close> of a code point that is neither a surrogate nor above 0x10FFFF.\<close>

definition encode_rune :: "nat \<Rightarrow> string" where
  "encode_rune n =
     (if n < 0x80 then [char_of n]
      else if n < 0x800 then [char_of (0xC0 + n div 0x40), char_of (0x80 + n mod 0x40)]
      else if n < 0x10000 then
        [char_of (0xE0 + n div 0x1000), char_of (0x80 + n div 0x40 mod 0x40),
         char_of (0x80 + n mod 0x40)]
      else
        [char_of (0xF0 + n div 0x40000), char_of (0x80 + n div 0x1000 mod 0x40),
         char_of (0x80 + n div 0x40 mod 0x40), char_of (0x80 + n mod 0x40)])"

section \<open>The strings package\<close>

text \<open>\<open>strings.Map\<close>: the mapping works on the rune's bytes; \<open>[]\<close> drops it (Go's -1).\<close>

definition strings_Map :: "(string \<Rightarrow> string) \<Rightarrow> string \<Rightarrow> string" where
  "strings_Map f s = concat (map (f \<circ> rune_bytes) (runes s))"

definition ascii_lower :: "char \<Rightarrow> char" where
  "ascii_lower c = (if between 65 90 c then char_of (code c + 32) else c)"

text \<open>
  \<open>strings.ToLower\<close>. Beside \<open>A\<close>-\<open>Z\<close>, two runes have an ASCII lower case:
  U+0130 (\<open>i\<close>) and U+212A (\<open>k\<close>). Every other rune is left alone here; its real lower
  case is not ASCII either, and the code compares the result with ASCII constants only.
\<close>

definition lower_rune :: "string \<Rightarrow> string" where
  "lower_rune r =
     (case r of
        [c] \<Rightarrow> [ascii_lower c]
      | _ \<Rightarrow> if r = [CHR 0xC4, CHR 0xB0] then ''i''
             else if r = [CHR 0xE2, CHR 0x84, CHR 0xAA] then ''k'' else r)"

definition to_lower :: "string \<Rightarrow> string" where
  "to_lower s = strings_Map lower_rune s"

text \<open>
  \<open>strings.EqualFold(s, t)\<close> for an ASCII \<open>t\<close> without the letters \<open>k\<close> and
  \<open>s\<close>, the only ones with a simple fold outside ASCII.
\<close>

definition equal_fold :: "string \<Rightarrow> string \<Rightarrow> bool" where
  "equal_fold s t \<longleftrightarrow> map ascii_lower s = map ascii_lower t"

text \<open>The encodings of the runes for which \<open>unicode.IsSpace\<close> holds.\<close>

definition unicode_spaces :: "string list" where
  "unicode_spaces =
     [[CHR 0x09], [CHR 0x0A], [CHR 0x0B], [CHR 0x0C], [CHR 0x0D], [CHR 0x20],
      [CHR 0xC2, CHR 0x85], [CHR 0xC2, CHR 0xA0], [CHR 0xE1, CHR 0x9A, CHR 0x80],
      [CHR 0xE2, CHR 0x80, CHR 0x80], [CHR 0xE2, CHR 0x80, CHR 0x81],
      [CHR 0xE2, CHR 0x80, CHR 0x82], [CHR 0xE2, CHR 0x80, CHR 0x83],
      [CHR 0xE2, CHR 0x80, CHR 0x84], [CHR 0xE2, CHR 0x80, CHR 0x85],
      [CHR 0xE2, CHR 0x80, CHR 0x86], [CHR 0xE2, CHR 0x80, CHR 0x87],
      [CHR 0xE2, CHR 0x80, CHR 0x88], [CHR 0xE2, CHR 0x80, CHR 0x89],
      [CHR 0xE2, CHR 0x80, CHR 0x8A], [CHR 0xE2, CHR 0x80, CHR 0xA8],
      [CHR 0xE2, CHR 0x80, CHR 0xA9], [CHR 0xE2, CHR 0x80, CHR 0xAF],
      [CHR 0xE2, CHR 0x81, CHR 0x9F], [CHR 0xE3, CHR 0x80, CHR 0x80]]"

function strip_any :: "string list \<Rightarrow> string \<Rightarrow> string" where
  "strip_any ps s =
     (case find (\<lambda>p. p \<noteq> [] \<and> prefix p s) ps of
        None \<Rightarrow> s
      | Some p \<Rightarrow> strip_any ps (drop (length p) s))"
  by pat_completeness auto
termination
  by (relation "measure (\<lambda>(ps, s). length s)")
     (auto simp: find_Some_iff prefix_def)

declare strip_any.simps [simp del]

definition trim_left :: "string \<Rightarrow> string" where
  "trim_left s = strip_any unicode_spaces s"

definition trim_right :: "string \<Rightarrow> string" where
  "trim_right s = rev (strip_any (map rev unicode_spaces) (rev s))"

text \<open>\<open>strings.TrimSpace\<close>\<close>

definition trim_space :: "string \<Rightarrow> string" where
  "trim_space s = trim_right (trim_left s)"

text \<open>\<open>strings.Cut\<close> around the first occurrence of a one-byte separator.\<close>

definition cut_at :: "char \<Rightarrow> string \<Rightarrow> (string \<times> string) option" where
  "cut_at c s = (if c \<in> set s
     then Some (takeWhile (\<lambda>x. x \<noteq> c) s, tl (dropWhile (\<lambda>x. x \<noteq> c) s)) else None)"

text \<open>The two sides of the last occurrence, found with \<open>strings.LastIndexByte\<close>.\<close>

definition cut_last :: "char \<Rightarrow> string \<Rightarrow> (string \<times> string) option" where
  "cut_last c s = (case cut_at c (rev s) of None \<Rightarrow> None | Some (a, b) \<Rightarrow> Some (rev b, rev a))"

text \<open>\<open>strings.Split\<close> by a one-byte separator and \<open>strings.Join\<close>.\<close>

fun split_on :: "char \<Rightarrow> string \<Rightarrow> string list" where
  "split_on c [] = [[]]"
| "split_on c (x # xs) =
     (if x = c then [] # split_on c xs
      else (case split_on c xs of y # ys \<Rightarrow> (x # y) # ys | [] \<Rightarrow> [[x]]))"

fun join :: "string \<Rightarrow> string list \<Rightarrow> string" where
  "join sep [] = []"
| "join sep [x] = x"
| "join sep (x # y # ys) = x @ sep @ join sep (y # ys)"

section \<open>bufio.Scanner with ScanLines\<close>

text \<open>
  An \<open>io.Reader\<close>: the bytes it delivers, and the error other than \<open>io.EOF\<close> it ends
  with, if it does.
\<close>

record reader =
  rd_data :: string
  rd_err :: "go_error option"

definition raw_lines :: "string \<Rightarrow> string list" where
  "raw_lines s = (let ps = split_on (CHR 0x0A) s in if last ps = [] then butlast ps else ps)"

definition drop_cr :: "string \<Rightarrow> string" where
  "drop_cr l = (if l \<noteq> [] \<and> last l = CHR 0x0D then butlast l else l)"

text \<open>
  The tokens and \<open>s.Err()\<close>. A line that does not fit the buffer of \<open>mx\<close> bytes ends
  the scan with \<open>bufio.ErrTooLong\<close>; a read error is reported after the data before it.
\<close>

definition scan_lines :: "nat \<Rightarrow> reader \<Rightarrow> string list \<times> go_error option" where
  "scan_lines mx r =
     (let raw = raw_lines (rd_data r);
          fit = takeWhile (\<lambda>l. length l < mx) raw
      in (map drop_cr fit,
          if length fit < length raw then Some (ErrText ''bufio.Scanner: token too long'')
          else rd_err r))"

section \<open>Numbers as text\<close>

definition digit_char :: "nat \<Rightarrow> char" where
  "digit_char d = (if d < 10 then char_of (48 + d) else char_of (87 + d))"

definition digit_val :: "char \<Rightarrow> nat option" where
  "digit_val c =
     (if between 48 57 c then Some (code c - 48)
      else if between 97 122 c then Some (code c - 87)
      else if between 65 90 c then Some (code c - 55)
      else None)"

text \<open>\<open>%d\<close> and \<open>%x\<close> of a natural number, and \<open>strconv.Itoa\<close>.\<close>

fun nat_str :: "nat \<Rightarrow> nat \<Rightarrow> string" where
  "nat_str b n = (if b < 2 \<or> n < b then [digit_char n]
                  else nat_str b (n div b) @ [digit_char (n mod b)])"

declare nat_str.simps [simp del]

definition int_str :: "nat \<Rightarrow> int \<Rightarrow> string" where
  "int_str b i = (if i < 0 then ''-'' @ nat_str b (nat (- i)) else nat_str b (nat i))"

definition itoa :: "int \<Rightarrow> string" where
  "itoa i = int_str 10 i"

fun digits_val :: "nat \<Rightarrow> nat \<Rightarrow> string \<Rightarrow> nat option" where
  "digits_val b acc [] = Some acc"
| "digits_val b acc (c # s) =
     (case digit_val c of
        None \<Rightarrow> None
      | Some d \<Rightarrow> if d < b then digits_val b (acc * b + d) s else None)"

text \<open>
  \<open>strconv.ParseUint(s, base, bitSize)\<close> for an explicit base. The two errors
  (\<open>ErrSyntax\<close>, \<open>ErrRange\<close>) differ in their text only.
\<close>

definition parse_uint :: "nat \<Rightarrow> nat \<Rightarrow> string \<Rightarrow> nat res" where
  "parse_uint base bits s =
     (if s = [] then Inl (ErrText ''strconv.ParseUint'')
      else case digits_val base 0 s of
        None \<Rightarrow> Inl (ErrText ''strconv.ParseUint'')
      | Some v \<Rightarrow> if v < 2 ^ bits then Inr v else Inl (ErrText ''strconv.ParseUint''))"

text \<open>
  \<open>strconv.ParseInt(s, 10, 64)\<close>, which is also \<open>strconv.Atoi\<close> where \<open>int\<close> has 64 bits.
\<close>

definition parse_int64 :: "string \<Rightarrow> int res" where
  "parse_int64 s =
     (let neg = prefix ''-'' s;
          t = (if prefix ''+'' s \<or> prefix ''-'' s then tl s else s)
      in if t = [] then Inl (ErrText ''strconv.ParseInt'')
         else case digits_val 10 0 t of
           None \<Rightarrow> Inl (ErrText ''strconv.ParseInt'')
         | Some v \<Rightarrow>
             if neg then (if v \<le> 2 ^ 63 then Inr (- int v) else Inl (ErrText ''strconv.ParseInt''))
             else (if v < 2 ^ 63 then Inr (int v) else Inl (ErrText ''strconv.ParseInt'')))"

text \<open>\<open>strconv.ParseBool\<close>\<close>

definition parse_bool :: "string \<Rightarrow> bool res" where
  "parse_bool s =
     (if s \<in> set [''1'', ''t'', ''T'', ''TRUE'', ''true'', ''True''] then Inr True
      else if s \<in> set [''0'', ''f'', ''F'', ''FALSE'', ''false'', ''False''] then Inr False
      else Inl (ErrText ''strconv.ParseBool''))"

section \<open>Hexadecimal and base64\<close>

text \<open>\<open>hex.EncodeToString\<close> and \<open>hex.DecodeString\<close>\<close>

definition hex_byte :: "byte \<Rightarrow> string" where
  "hex_byte b = [digit_char (unat b div 16), digit_char (unat b mod 16)]"

definition hex_encode :: "byte list \<Rightarrow> string" where
  "hex_encode bs = concat (map hex_byte bs)"

definition hex_digit :: "char \<Rightarrow> nat option" where
  "hex_digit c = (case digit_val c of None \<Rightarrow> None | Some d \<Rightarrow> if d < 16 then Some d else None)"

fun hex_decode :: "string \<Rightarrow> byte list res" where
  "hex_decode [] = Inr []"
| "hex_decode [c] = Inl (ErrText ''encoding/hex'')"
| "hex_decode (c # d # s) =
     (case (hex_digit c, hex_digit d) of
        (Some x, Some y) \<Rightarrow>
          (case hex_decode s of Inl e \<Rightarrow> Inl e | Inr bs \<Rightarrow> Inr (of_nat (x * 16 + y) # bs))
      | _ \<Rightarrow> Inl (ErrText ''encoding/hex''))"

definition b64_alphabet :: string where
  "b64_alphabet = ''ABCDEFGHIJKLMNOPQRSTUVWXYZabcdefghijklmnopqrstuvwxyz0123456789+/''"

definition b64_char :: "nat \<Rightarrow> char" where
  "b64_char n = b64_alphabet ! n"

definition b64_val :: "char \<Rightarrow> nat option" where
  "b64_val c =
     (if between 65 90 c then Some (code c - 65)
      else if between 97 122 c then Some (code c - 71)
      else if between 48 57 c then Some (code c + 4)
      else if c = CHR ''+'' then Some 62
      else if c = CHR ''/'' then Some 63
      else None)"

text \<open>\<open>base64.StdEncoding.EncodeToString\<close>\<close>

fun b64_encode :: "byte list \<Rightarrow> string" where
  "b64_encode [] = []"
| "b64_encode [a] =
     (let n = unat a * 16 in [b64_char (n div 64), b64_char (n mod 64), CHR ''='', CHR ''=''])"
| "b64_encode [a, b] =
     (let n = (unat a * 256 + unat b) * 4
      in [b64_char (n div 4096), b64_char (n div 64 mod 64), b64_char (n mod 64), CHR ''=''])"
| "b64_encode (a # b # c # bs) =
     (let n = unat a * 65536 + unat b * 256 + unat c
      in b64_char (n div 262144) # b64_char (n div 4096 mod 64) # b64_char (n div 64 mod 64)
         # b64_char (n mod 64) # b64_encode bs)"

text \<open>
  \<open>base64.StdEncoding.DecodeString\<close>: carriage returns and newlines are skipped wherever
  they stand, a final quantum may be padded, and the bits a padded quantum leaves over are
  not checked (the encoding is not \<open>Strict\<close>).
\<close>

fun b64_quanta :: "string \<Rightarrow> byte list option" where
  "b64_quanta [] = Some []"
| "b64_quanta (a # b # c # d # s) =
     (case (b64_val a, b64_val b) of
        (Some w, Some x) \<Rightarrow>
          (if c = CHR ''='' then
             (if d = CHR ''='' \<and> s = [] then Some [of_nat ((w * 64 + x) div 16)] else None)
           else case b64_val c of
             None \<Rightarrow> None
           | Some y \<Rightarrow>
               if d = CHR ''='' then
                 (if s = [] then
                    (let n = (w * 4096 + x * 64 + y) div 4
                     in Some [of_nat (n div 256), of_nat (n mod 256)])
                  else None)
               else case (b64_val d, b64_quanta s) of
                 (Some z, Some bs) \<Rightarrow>
                   (let n = w * 262144 + x * 4096 + y * 64 + z
                    in Some (of_nat (n div 65536) # of_nat (n div 256 mod 256)
                             # of_nat (n mod 256) # bs))
               | _ \<Rightarrow> None)
      | _ \<Rightarrow> None)"
| "b64_quanta s = None"

definition b64_decode :: "string \<Rightarrow> byte list res" where
  "b64_decode s =
     (case b64_quanta (filter (\<lambda>c. c \<noteq> CHR 0x0A \<and> c \<noteq> CHR 0x0D) s) of
        None \<Rightarrow> Inl (ErrText ''illegal base64 data'')
      | Some bs \<Rightarrow> Inr bs)"

section \<open>Facts about numbers as text\<close>

lemma digit_val_digit_char: "d < 16 \<Longrightarrow> digit_val (digit_char d) = Some d"
  by (auto simp: digit_val_def digit_char_def between_def)

lemma digits_val_append:
  "digits_val b acc (s @ t) =
     (case digits_val b acc s of None \<Rightarrow> None | Some v \<Rightarrow> digits_val b v t)"
  by (induction b acc s rule: digits_val.induct) (auto split: option.splits)

lemma digits_val_nat_str [go_num]:
  "2 \<le> b \<Longrightarrow> b \<le> 16 \<Longrightarrow> digits_val b 0 (nat_str b n) = Some n"
proof (induction b n rule: nat_str.induct)
  case (1 b n)
  show ?case
  proof (cases "n < b")
    case True
    with "1.prems" show ?thesis
      by (simp add: nat_str.simps [of b n] digit_val_digit_char)
  next
    case False
    with 1 have "digits_val b 0 (nat_str b (n div b)) = Some (n div b)" by simp
    moreover have "n mod b < b" using "1.prems" by simp
    moreover from this have "n mod b < 16" using "1.prems" by linarith
    ultimately show ?thesis
      using False "1.prems"
      by (simp add: nat_str.simps [of b n] digits_val_append digit_val_digit_char)
  qed
qed

lemma nat_str_not_Nil [simp]: "nat_str b n \<noteq> []"
  by (subst nat_str.simps) simp

lemma parse_uint_nat_str [go_num]:
  "2 \<le> b \<Longrightarrow> b \<le> 16 \<Longrightarrow> n < 2 ^ bits \<Longrightarrow> parse_uint b bits (nat_str b n) = Inr n"
  by (simp add: parse_uint_def digits_val_nat_str)

definition digit_set :: "char set" where
  "digit_set = set ''0123456789abcdef''"

lemma digit_char_in: "d < 16 \<Longrightarrow> digit_char d \<in> digit_set"
proof -
  assume "d < 16"
  then have "d \<in> set [0..<16]" by simp
  then show ?thesis
    by (simp add: upt_rec digit_char_def digit_set_def) (elim disjE; simp; code_simp)
qed

lemma set_nat_str: "2 \<le> b \<Longrightarrow> b \<le> 16 \<Longrightarrow> set (nat_str b n) \<subseteq> digit_set"
proof (induction b n rule: nat_str.induct)
  case (1 b n)
  have "n mod b < 16" using "1.prems" mod_less_divisor [of b n] by linarith
  then show ?case
    using 1 by (cases "n < b") (auto simp: nat_str.simps [of b n] digit_char_in)
qed

lemma hd_nat_str_dec: "hd (nat_str 10 n) \<in> set ''0123456789''"
proof (induction n rule: less_induct)
  case (less n)
  show ?case
  proof (cases "n < 10")
    case True
    then have "n \<in> set [0..<10]" by simp
    with True show ?thesis
      by (simp add: nat_str.simps [of 10 n] upt_rec digit_char_def) (elim disjE; simp; code_simp)
  next
    case False
    then show ?thesis using less [of "n div 10"]
      by (simp add: nat_str.simps [of 10 n] hd_append)
  qed
qed

section \<open>Facts about hexadecimal and base64\<close>

lemma hex_digit_digit_char: "d < 16 \<Longrightarrow> hex_digit (digit_char d) = Some d"
  by (simp add: hex_digit_def digit_val_digit_char)

lemma hex_decode_byte: "hex_decode (hex_byte b @ s) =
   (case hex_decode s of Inl e \<Rightarrow> Inl e | Inr bs \<Rightarrow> Inr (b # bs))"
proof -
  have "unat b div 16 < 16" using unat_byte_less_256 [of b] by (simp add: less_mult_imp_div_less)
  moreover have "unat b div 16 * 16 + unat b mod 16 = unat b" by presburger
  ultimately show ?thesis
    by (cases "hex_decode s") (simp_all add: hex_byte_def hex_digit_digit_char)
qed

lemma hex_decode_encode [simp]: "hex_decode (hex_encode bs) = Inr bs"
  by (induction bs) (simp_all add: hex_encode_def hex_decode_byte)

lemma b64_val_b64_char: "n < 64 \<Longrightarrow> b64_val (b64_char n) = Some n"
proof -
  assume "n < 64"
  then have "n \<in> set [0..<64]" by simp
  moreover have "list_all (\<lambda>n. b64_val (b64_char n) = Some n) [0..<64]" by code_simp
  ultimately show ?thesis by (simp add: list_all_iff)
qed

lemma b64_char_in: "n < 64 \<Longrightarrow> b64_char n \<in> set b64_alphabet"
  unfolding b64_char_def by (rule nth_mem) (simp add: b64_alphabet_def)

lemma b64_alphabet_no_pad: "CHR ''='' \<notin> set b64_alphabet"
  by (simp add: b64_alphabet_def)

lemma b64_char_not_pad: "n < 64 \<Longrightarrow> b64_char n \<noteq> CHR ''=''"
  using b64_char_in b64_alphabet_no_pad by metis

lemma set_b64_encode: "set (b64_encode bs) \<subseteq> insert (CHR ''='') (set b64_alphabet)"
proof (induction bs rule: b64_encode.induct)
  case (2 a)
  then show ?case using unat_byte_less_256 [of a] by (auto simp: Let_def intro!: b64_char_in)
next
  case (3 a b)
  then show ?case using unat_byte_less_256 [of a] unat_byte_less_256 [of b]
    by (auto simp: Let_def intro!: b64_char_in)
next
  case (4 a b c bs)
  then show ?case using unat_byte_less_256 [of a] unat_byte_less_256 [of b] unat_byte_less_256 [of c]
    by (auto simp: Let_def intro!: b64_char_in)
qed simp

lemma div_step: "n div (k * m) * m + n div k mod m = n div (k :: nat)"
  by (simp add: div_mult2_eq div_mult_mod_eq)

lemma b64_quanta_1: "b64_quanta (b64_encode [a]) = Some [a]"
proof -
  define n where "n = unat a * 16"
  have "n div 64 < 64" "n mod 64 < 64" and a: "n div 16 = unat a"
    using unat_byte_less_256 [of a] by (auto simp: n_def)
  moreover have "n div 64 * 64 + n mod 64 = n" by presburger
  ultimately show ?thesis
    by (simp add: n_def [symmetric] Let_def b64_val_b64_char a del: div_mult_self1_is_m)
qed

lemma b64_quanta_2: "b64_quanta (b64_encode [a, b]) = Some [a, b]"
proof -
  define n where "n = (unat a * 256 + unat b) * 4"
  have lt: "n div 4096 < 64" "n div 64 mod 64 < 64" "n mod 64 < 64"
    using unat_byte_less_256 [of a] unat_byte_less_256 [of b] by (auto simp: n_def)
  have eq: "n div 4096 * 4096 + n div 64 mod 64 * 64 + n mod 64 = n"
    using div_step [of n 64 64, simplified] div_mult_mod_eq [of n 64] by linarith
  have "n div 4 div 256 = unat a" "n div 4 mod 256 = unat b"
    using unat_byte_less_256 [of b] by (simp_all add: n_def)
  with lt eq show ?thesis
    by (simp only: b64_encode.simps Let_def n_def [symmetric])
       (simp add: b64_val_b64_char b64_char_not_pad Let_def)
qed

lemma b64_quanta_3:
  "b64_quanta bs' = Some bs \<Longrightarrow> b64_quanta (take 4 (b64_encode [a, b, c]) @ bs') = Some (a # b # c # bs)"
proof -
  assume IH: "b64_quanta bs' = Some bs"
  define n where "n = unat a * 65536 + unat b * 256 + unat c"
  have lt: "n div 262144 < 64" "n div 4096 mod 64 < 64" "n div 64 mod 64 < 64" "n mod 64 < 64"
    using unat_byte_less_256 [of a] unat_byte_less_256 [of b] unat_byte_less_256 [of c]
    by (auto simp: n_def)
  have eq: "n div 262144 * 262144 + n div 4096 mod 64 * 4096 + n div 64 mod 64 * 64 + n mod 64 = n"
    using div_step [of n 4096 64, simplified] div_step [of n 64 64, simplified]
      div_mult_mod_eq [of n 64] by linarith
  have n': "n = (unat a * 256 + unat b) * 256 + unat c" by (simp add: n_def)
  have "n div 256 = unat a * 256 + unat b"
    unfolding n' using unat_byte_less_256 [of c] by simp
  moreover have "n mod 256 = unat c"
    unfolding n' using unat_byte_less_256 [of c] by (simp only: mod_mult_self3 mod_less)
  moreover from calculation have "n div 65536 = unat a" "n div 256 mod 256 = unat b"
    using unat_byte_less_256 [of b] div_mult2_eq [of n 256 256] by simp_all
  ultimately show ?thesis using lt eq IH
    by (simp only: b64_encode.simps Let_def n_def [symmetric])
       (simp add: b64_val_b64_char b64_char_not_pad Let_def)
qed

lemma b64_quanta_encode: "b64_quanta (b64_encode bs) = Some bs"
proof (induction bs rule: b64_encode.induct)
  case (2 a) show ?case by (rule b64_quanta_1)
next
  case (3 a b) show ?case by (rule b64_quanta_2)
next
  case (4 a b c bs)
  then show ?case using b64_quanta_3 [of "b64_encode bs" bs a b c] by (simp add: Let_def)
qed simp

lemma b64_decode_encode [simp]: "b64_decode (b64_encode bs) = Inr bs"
proof -
  have "c \<noteq> CHR 0x0A \<and> c \<noteq> CHR 0x0D" if "c \<in> set (b64_encode bs)" for c
    using that set_b64_encode [of bs] by (auto simp: b64_alphabet_def)
  then have "filter (\<lambda>c. c \<noteq> CHR 0x0A \<and> c \<noteq> CHR 0x0D) (b64_encode bs) = b64_encode bs"
    by (simp add: filter_id_conv)
  then show ?thesis by (simp add: b64_decode_def b64_quanta_encode)
qed

section \<open>Facts about text\<close>

definition ascii :: "string \<Rightarrow> bool" where
  "ascii s \<longleftrightarrow> (\<forall>c \<in> set s. code c < 128)"

definition graph :: "char \<Rightarrow> bool" where
  "graph c \<longleftrightarrow> between 0x21 0x7E c"

lemma ascii_simps [simp]:
  "ascii []"
  "ascii (c # s) \<longleftrightarrow> code c < 128 \<and> ascii s"
  "ascii (s @ t) \<longleftrightarrow> ascii s \<and> ascii t"
  by (auto simp: ascii_def)

lemma runes_ascii: "ascii s \<Longrightarrow> runes s = map (\<lambda>c. Rune [c]) s"
  by (induction s) auto

lemma strings_Map_ascii: "ascii s \<Longrightarrow> strings_Map f s = concat (map (\<lambda>c. f [c]) s)"
  by (simp add: strings_Map_def runes_ascii comp_def)

lemma to_lower_ascii: "ascii s \<Longrightarrow> to_lower s = map ascii_lower s"
proof -
  have "concat (map (\<lambda>c. lower_rune [c]) s) = map ascii_lower s"
    by (induction s) (auto simp: lower_rune_def)
  then show "ascii s \<Longrightarrow> to_lower s = map ascii_lower s"
    by (simp add: to_lower_def strings_Map_ascii)
qed

lemma strip_any_id: "(\<And>p. p \<in> set ps \<Longrightarrow> p = [] \<or> \<not> prefix p s) \<Longrightarrow> strip_any ps s = s"
  by (subst strip_any.simps) (auto split: option.split simp: find_Some_iff dest: nth_mem)

lemma strip_any_graph:
  assumes "\<forall>p \<in> set ps. p \<noteq> [] \<and> \<not> graph (hd p)" and "s = [] \<or> graph (hd s)"
  shows "strip_any ps s = s"
proof (rule strip_any_id)
  fix p assume "p \<in> set ps"
  with assms show "p = [] \<or> \<not> prefix p s"
    by (cases p; cases s) auto
qed

lemma trim_space_graph:
  assumes "s = [] \<or> graph (hd s) \<and> graph (last s)"
  shows "trim_space s = s"
proof -
  have "\<forall>p \<in> set unicode_spaces. p \<noteq> [] \<and> \<not> graph (hd p)"
    "\<forall>p \<in> set (map rev unicode_spaces). p \<noteq> [] \<and> \<not> graph (hd p)"
    by (simp_all add: unicode_spaces_def graph_def between_def)
  with assms show ?thesis
    by (auto simp: trim_space_def trim_left_def trim_right_def strip_any_graph hd_rev)
qed

lemma trim_left_space: "trim_left (CHR 0x20 # s) = trim_left s"
  unfolding trim_left_def
  by (subst strip_any.simps) (simp add: unicode_spaces_def)

lemma trim_space_lead: "trim_space (CHR 0x20 # s) = trim_space s"
  by (simp add: trim_space_def trim_left_space)

lemma trim_space_Nil [simp]: "trim_space [] = []"
  by (rule trim_space_graph) simp

lemma split_on_ne [simp]: "split_on c s \<noteq> []"
  by (induction s) (auto split: list.splits)

lemma split_on_none: "c \<notin> set s \<Longrightarrow> split_on c s = [s]"
  by (induction s) auto

lemma split_on_append: "c \<notin> set a \<Longrightarrow> split_on c (a @ c # b) = a # split_on c b"
  by (induction a) auto

lemma split_on_join:
  "xs \<noteq> [] \<Longrightarrow> (\<And>x. x \<in> set xs \<Longrightarrow> c \<notin> set x) \<Longrightarrow> c \<notin> set sep \<Longrightarrow>
   split_on c (join (c # sep) xs) = hd xs # map (\<lambda>x. sep @ x) (tl xs)"
proof (induction "c # sep" xs rule: join.induct)
  case (2 x)
  then show ?case by (simp add: split_on_none)
next
  case (3 x y ys)
  have "split_on c (join (c # sep) (x # y # ys)) = x # split_on c (sep @ join (c # sep) (y # ys))"
    using "3.prems" by (simp add: split_on_append)
  moreover have "split_on c (sep @ t) = (sep @ hd (split_on c t)) # tl (split_on c t)" for t
    using \<open>c \<notin> set sep\<close> by (induction sep) (auto split: list.splits)
  ultimately show ?case using 3 by simp
qed simp

lemma cut_at_append [simp]: "c \<notin> set a \<Longrightarrow> cut_at c (a @ c # b) = Some (a, b)"
proof -
  assume c: "c \<notin> set a"
  then have "takeWhile (\<lambda>x. x \<noteq> c) (a @ c # b) = a" "dropWhile (\<lambda>x. x \<noteq> c) (a @ c # b) = c # b"
    by (auto intro!: takeWhile_append_stop dropWhile_append_stop)
  then show ?thesis by (simp add: cut_at_def)
qed

lemma cut_at_None [simp]: "c \<notin> set s \<Longrightarrow> cut_at c s = None"
  by (simp add: cut_at_def)

lemma cut_at_Some_eq: "cut_at c s = Some (a, b) \<Longrightarrow> s = a @ c # b \<and> c \<notin> set a"
proof -
  assume cut_at: "cut_at c s = Some (a, b)"
  then have "c \<in> set s" by (simp add: cut_at_def split: if_splits)
  then obtain x y where "s = x @ c # y" "c \<notin> set x" by (metis split_list_first)
  with cut_at show ?thesis by simp
qed

lemma cut_last_append [simp]: "c \<notin> set b \<Longrightarrow> cut_last c (a @ c # b) = Some (a, b)"
  by (simp add: cut_last_def)

definition unlines :: "string list \<Rightarrow> string" where
  "unlines ls = concat (map (\<lambda>l. l @ [CHR 0x0A]) ls)"

lemma unlines_simps [simp]:
  "unlines [] = []"
  "unlines (l # ls) = l @ CHR 0x0A # unlines ls"
  "unlines (ls @ ms) = unlines ls @ unlines ms"
  by (simp_all add: unlines_def)

lemma split_unlines:
  "(\<And>l. l \<in> set ls \<Longrightarrow> CHR 0x0A \<notin> set l) \<Longrightarrow> split_on (CHR 0x0A) (unlines ls) = ls @ [[]]"
  by (induction ls) (auto simp: split_on_append)

lemma raw_lines_unlines:
  "(\<And>l. l \<in> set ls \<Longrightarrow> CHR 0x0A \<notin> set l) \<Longrightarrow> raw_lines (unlines ls) = ls"
  by (simp add: raw_lines_def split_unlines)

lemma drop_cr_id: "CHR 0x0D \<notin> set l \<Longrightarrow> drop_cr l = l"
  by (auto simp: drop_cr_def dest: last_in_set)

lemma scan_lines_unlines:
  assumes "\<And>l. l \<in> set ls \<Longrightarrow> CHR 0x0A \<notin> set l \<and> CHR 0x0D \<notin> set l \<and> length l < mx"
  shows "scan_lines mx \<lparr>rd_data = unlines ls, rd_err = e\<rparr> = (ls, e)"
proof -
  have tw: "takeWhile (\<lambda>l. length l < mx) ls = ls" using assms by (auto simp: takeWhile_eq_all_conv)
  have dc: "map drop_cr ls = ls" using assms by (simp add: drop_cr_id map_idI)
  have rl: "raw_lines (unlines ls) = ls" using assms by (auto intro: raw_lines_unlines)
  show ?thesis by (simp add: scan_lines_def Let_def rl tw dc)
qed

end
