(* ===== verification/GoNet.thy ===== *)
theory GoNet
  imports GoStrings
begin

unbundle bit_operations_syntax

text \<open>
  Go's \<open>net\<close> package as far as the sources use it: addresses, masks and prefixes, their
  text forms, \<open>host:port\<close> strings and UDP addresses. A nil slice is the empty list. Host
  name and service lookups ask the operating system; they are the fields of \<open>resolver\<close>,
  an argument of the routines that make them.
\<close>

section \<open>Addresses and masks\<close>

type_synonym ip = "byte list"
type_synonym ip_mask = "byte list"

record ip_net =
  net_ip :: ip
  net_mask :: ip_mask

record udp_addr =
  ua_ip :: ip
  ua_port :: int
  ua_zone :: string

definition v4_in_v6_prefix :: "byte list" where
  "v4_in_v6_prefix = replicate 10 0 @ [255, 255]"

definition to4 :: "ip \<Rightarrow> ip option" where
  "to4 i =
     (if length i = 4 then Some i
      else if length i = 16 \<and> take 12 i = v4_in_v6_prefix then Some (drop 12 i)
      else None)"

definition to16 :: "ip \<Rightarrow> ip option" where
  "to16 i =
     (if length i = 4 then Some (v4_in_v6_prefix @ i)
      else if length i = 16 then Some i
      else None)"

fun mask_bytes :: "nat \<Rightarrow> nat \<Rightarrow> byte list" where
  "mask_bytes 0 n = []"
| "mask_bytes (Suc l) n =
     (if 8 \<le> n then 255 # mask_bytes l (n - 8) else NOT (drop_bit n 255) # mask_bytes l 0)"

text \<open>\<open>net.CIDRMask\<close>; the empty list is the nil mask of a bad argument.\<close>

definition cidr_mask :: "int \<Rightarrow> int \<Rightarrow> ip_mask" where
  "cidr_mask ones bits =
     (if bits \<noteq> 32 \<and> bits \<noteq> 128 then []
      else if ones < 0 \<or> bits < ones then []
      else mask_bytes (nat bits div 8) (nat ones))"

fun lead_ones :: "nat \<Rightarrow> byte \<Rightarrow> nat \<times> byte" where
  "lead_ones 0 v = (0, v)"
| "lead_ones (Suc k) v =
     (if v AND 128 = 0 then (0, v)
      else case lead_ones k (push_bit 1 v) of (n, w) \<Rightarrow> (Suc n, w))"

fun simple_mask_length :: "ip_mask \<Rightarrow> nat option" where
  "simple_mask_length [] = Some 0"
| "simple_mask_length (v # m) =
     (if v = 255 then map_option (\<lambda>n. 8 + n) (simple_mask_length m)
      else case lead_ones 8 v of
        (n, w) \<Rightarrow> if w \<noteq> 0 \<or> list_ex (\<lambda>b. b \<noteq> 0) m then None else Some n)"

text \<open>\<open>IPMask.Size\<close>\<close>

definition mask_size :: "ip_mask \<Rightarrow> int \<times> int" where
  "mask_size m =
     (case simple_mask_length m of
        None \<Rightarrow> (0, 0)
      | Some n \<Rightarrow> (int n, int (8 * length m)))"

text \<open>\<open>IP.Mask\<close>\<close>

definition ip_masked :: "ip \<Rightarrow> ip_mask \<Rightarrow> ip" where
  "ip_masked i m =
     (let m' = (if length m = 16 \<and> length i = 4 \<and> list_all (\<lambda>b. b = 255) (take 12 m)
                then drop 12 m else m);
          i' = (if length m' = 4 \<and> length i = 16 \<and> take 12 i = v4_in_v6_prefix
                then drop 12 i else i)
      in if length i' \<noteq> length m' then [] else map2 (AND) i' m')"

section \<open>Addresses as text\<close>

definition v4_str :: "byte list \<Rightarrow> string" where
  "v4_str bs = join ''.'' (map (\<lambda>b. nat_str 10 (unat b)) bs)"

fun v6_groups :: "byte list \<Rightarrow> nat list" where
  "v6_groups (a # b # bs) = (unat a * 256 + unat b) # v6_groups bs"
| "v6_groups _ = []"

definition zero_run :: "nat list \<Rightarrow> nat \<Rightarrow> nat" where
  "zero_run gs i = length (takeWhile (\<lambda>g. g = 0) (drop i gs))"

text \<open>The first longest run of at least two zero groups: its start and its length.\<close>

definition best_zero_run :: "nat list \<Rightarrow> (nat \<times> nat) option" where
  "best_zero_run gs =
     fold (\<lambda>i best.
        (let l = zero_run gs i
         in if 2 \<le> l \<and> (case best of None \<Rightarrow> True | Some (_, l') \<Rightarrow> l' < l)
            then Some (i, l) else best)) [0..<8] None"

definition v6_str :: "byte list \<Rightarrow> string" where
  "v6_str bs =
     (let gs = v6_groups bs; h = (\<lambda>xs. join '':'' (map (nat_str 16) xs))
      in case best_zero_run gs of
           None \<Rightarrow> h gs
         | Some (i, l) \<Rightarrow> h (take i gs) @ ''::'' @ h (drop (i + l) gs))"

text \<open>\<open>IP.String\<close>\<close>

definition ip_str :: "ip \<Rightarrow> string" where
  "ip_str i =
     (if i = [] then ''<nil>''
      else case to4 i of
        Some i4 \<Rightarrow> v4_str i4
      | None \<Rightarrow> if length i = 16 then v6_str i else ''?'' @ hex_encode i)"

text \<open>\<open>IPNet.String\<close>; a mask that is no prefix is printed in hexadecimal.\<close>

definition network_number_and_mask :: "ip_net \<Rightarrow> (ip \<times> ip_mask) option" where
  "network_number_and_mask n =
     (let m = net_mask n
      in case to4 (net_ip n) of
           Some i \<Rightarrow>
             if length m = 4 then Some (i, m)
             else if length m = 16 then Some (i, drop 12 m) else None
         | None \<Rightarrow>
             if length (net_ip n) = 16 \<and> length m = 16 then Some (net_ip n, m) else None)"

definition ip_net_str :: "ip_net \<Rightarrow> string" where
  "ip_net_str n =
     (case network_number_and_mask n of
        None \<Rightarrow> ''<nil>''
      | Some (i, m) \<Rightarrow>
          (case simple_mask_length m of
             None \<Rightarrow> ip_str i @ ''/'' @ hex_encode m
           | Some l \<Rightarrow> ip_str i @ ''/'' @ nat_str 10 l))"

definition octet :: "string \<Rightarrow> nat option" where
  "octet s =
     (if s = [] \<or> (1 < length s \<and> hd s = CHR ''0'') then None
      else case digits_val 10 0 s of
        None \<Rightarrow> None
      | Some v \<Rightarrow> if v \<le> 255 then Some v else None)"

definition parse_v4 :: "string \<Rightarrow> byte list option" where
  "parse_v4 s =
     (case split_on (CHR ''.'') s of
        [a, b, c, d] \<Rightarrow>
          (case (octet a, octet b, octet c, octet d) of
             (Some w, Some x, Some y, Some z) \<Rightarrow> Some [of_nat w, of_nat x, of_nat y, of_nat z]
           | _ \<Rightarrow> None)
      | _ \<Rightarrow> None)"

definition is_hex :: "char \<Rightarrow> bool" where
  "is_hex c \<longleftrightarrow> hex_digit c \<noteq> None"

definition v6_finish :: "byte list \<Rightarrow> nat option \<Rightarrow> string \<Rightarrow> byte list option" where
  "v6_finish bs ell s =
     (if s \<noteq> [] then None
      else if length bs < 16 then
        (case ell of
           None \<Rightarrow> None
         | Some e \<Rightarrow> Some (take e bs @ replicate (16 - length bs) 0 @ drop e bs))
      else if ell \<noteq> None then None
      else Some bs)"

definition group_bytes :: "string \<Rightarrow> byte list" where
  "group_bytes ds =
     (let v = (case digits_val 16 0 ds of None \<Rightarrow> 0 | Some v \<Rightarrow> v)
      in [of_nat (v div 256), of_nat (v mod 256)])"

text \<open>
  The loop of \<open>netip.parseIPv6\<close>: the bytes so far, the position of the ellipsis among
  them, and the rest of the text.
\<close>

function v6_loop :: "byte list \<Rightarrow> nat option \<Rightarrow> string \<Rightarrow> byte list option" where
  "v6_loop bs ell s =
     (if 16 \<le> length bs then v6_finish bs ell s
      else
        (let ds = takeWhile is_hex s; rest = dropWhile is_hex s; bs' = bs @ group_bytes ds
         in if 4 < length ds \<or> ds = [] then None
            else (case rest of
              [] \<Rightarrow> v6_finish bs' ell []
            | c # s2 \<Rightarrow>
                if c = CHR ''.'' then
                  (if ell = None \<and> length bs \<noteq> 12 then None
                   else if 16 < length bs + 4 then None
                   else case parse_v4 s of
                     None \<Rightarrow> None
                   | Some f \<Rightarrow> v6_finish (bs @ f) ell [])
                else if c \<noteq> CHR '':'' then None
                else (case s2 of
                  [] \<Rightarrow> None
                | d # s3 \<Rightarrow>
                    if d \<noteq> CHR '':'' then v6_loop bs' ell s2
                    else if ell \<noteq> None then None
                    else if s3 = [] then v6_finish bs' (Some (length bs')) []
                    else v6_loop bs' (Some (length bs')) s3))))"
  by pat_completeness auto
termination
proof (relation "measure (\<lambda>(bs, ell, s). length s)", goal_cases)
  case 1
  show ?case by simp
next
  case (2 bs ell s ds rest bs' c s2 d s3)
  then have "length (dropWhile is_hex s) = Suc (Suc (length s3))" by (metis length_Cons)
  with 2 length_dropWhile_le [of is_hex s] show ?case by simp
next
  case (3 bs ell s ds rest bs' c s2 d s3)
  then have "length (dropWhile is_hex s) = Suc (Suc (length s3))" by (metis length_Cons)
  with 3 length_dropWhile_le [of is_hex s] show ?case by simp
qed

declare v6_loop.simps [simp del]

text \<open>\<open>netip.ParseAddr\<close>: four bytes, or sixteen and a zone.\<close>

datatype addr = Addr4 "byte list" | Addr6 "byte list" string

definition parse_v6 :: "string \<Rightarrow> addr option" where
  "parse_v6 inp =
     (let (s, zone) = (case cut_at (CHR ''%'') inp of None \<Rightarrow> (inp, []) | Some (a, b) \<Rightarrow> (a, b))
      in if CHR ''%'' \<in> set inp \<and> zone = [] then None
         else if prefix ''::'' s then
           (if s = ''::'' then Some (Addr6 (replicate 16 0) zone)
            else map_option (\<lambda>bs. Addr6 bs zone) (v6_loop [] (Some 0) (drop 2 s)))
         else map_option (\<lambda>bs. Addr6 bs zone) (v6_loop [] None s))"

definition parse_addr :: "string \<Rightarrow> addr option" where
  "parse_addr s =
     (case find (\<lambda>c. c \<in> set ''.:%'') s of
        None \<Rightarrow> None
      | Some c \<Rightarrow>
          if c = CHR ''.'' then map_option Addr4 (parse_v4 s)
          else if c = CHR '':'' then parse_v6 s
          else None)"

fun addr_as16 :: "addr \<Rightarrow> ip" where
  "addr_as16 (Addr4 bs) = v4_in_v6_prefix @ bs"
| "addr_as16 (Addr6 bs z) = bs"

fun addr_zone :: "addr \<Rightarrow> string" where
  "addr_zone (Addr4 bs) = []"
| "addr_zone (Addr6 bs z) = z"

fun addr_bits :: "addr \<Rightarrow> int" where
  "addr_bits (Addr4 bs) = 32"
| "addr_bits (Addr6 bs z) = 128"

text \<open>\<open>net.ParseIP\<close> (the nil result is None) and \<open>net.ParseCIDR\<close>\<close>

definition parse_ip :: "string \<Rightarrow> ip option" where
  "parse_ip s =
     (case parse_addr s of
        None \<Rightarrow> None
      | Some a \<Rightarrow> if addr_zone a \<noteq> [] then None else Some (addr_as16 a))"

definition dtoi :: "string \<Rightarrow> nat option" where
  "dtoi s =
     (if s = [] then None
      else case digits_val 10 0 s of
        None \<Rightarrow> None
      | Some v \<Rightarrow> if v < 0xFFFFFF then Some v else None)"

definition parse_cidr :: "string \<Rightarrow> (ip \<times> ip_net) res" where
  "parse_cidr s =
     (case cut_at (CHR ''/'') s of
        None \<Rightarrow> Inl (ErrText ''invalid CIDR address'')
      | Some (a, msk) \<Rightarrow>
          (case parse_addr a of
             None \<Rightarrow> Inl (ErrText ''invalid CIDR address'')
           | Some ad \<Rightarrow>
               if addr_zone ad \<noteq> [] then Inl (ErrText ''invalid CIDR address'')
               else (case dtoi msk of
                 None \<Rightarrow> Inl (ErrText ''invalid CIDR address'')
               | Some n \<Rightarrow>
                   if addr_bits ad < int n then Inl (ErrText ''invalid CIDR address'')
                   else (let m = cidr_mask (int n) (addr_bits ad); i = addr_as16 ad
                         in Inr (i, \<lparr>net_ip = ip_masked i m, net_mask = m\<rparr>)))))"

section \<open>Host and port\<close>

definition join_host_port :: "string \<Rightarrow> string \<Rightarrow> string" where
  "join_host_port host port =
     (if CHR '':'' \<in> set host then ''['' @ host @ '']:'' @ port else host @ '':'' @ port)"

text \<open>\<open>net.SplitHostPort\<close>\<close>

definition split_host_port :: "string \<Rightarrow> (string \<times> string) res" where
  "split_host_port hp =
     (case cut_last (CHR '':'') hp of
        None \<Rightarrow> Inl (ErrText ''missing port in address'')
      | Some (pre, port) \<Rightarrow>
          if prefix ''['' hp then
            (case cut_at (CHR '']'') hp of
               None \<Rightarrow> Inl (ErrText ''missing ] in address'')
             | Some (h, after) \<Rightarrow>
                 if after = [] then Inl (ErrText ''missing port in address'')
                 else if length h + 1 \<noteq> length pre then
                   (if hd after = CHR '':'' then Inl (ErrText ''too many colons in address'')
                    else Inl (ErrText ''missing port in address''))
                 else if CHR ''['' \<in> set (tl hp) then Inl (ErrText ''unexpected [ in address'')
                 else if CHR '']'' \<in> set after then Inl (ErrText ''unexpected ] in address'')
                 else Inr (tl h, port))
          else if CHR '':'' \<in> set pre then Inl (ErrText ''too many colons in address'')
          else if CHR ''['' \<in> set hp then Inl (ErrText ''unexpected [ in address'')
          else if CHR '']'' \<in> set hp then Inl (ErrText ''unexpected ] in address'')
          else Inr (pre, port))"

text \<open>\<open>UDPAddr.String\<close>\<close>

definition udp_addr_str :: "udp_addr \<Rightarrow> string" where
  "udp_addr_str a =
     (let i = (if ua_ip a = [] then [] else ip_str (ua_ip a))
      in if ua_zone a \<noteq> [] then join_host_port (i @ ''%'' @ ua_zone a) (itoa (ua_port a))
         else join_host_port i (itoa (ua_port a)))"

text \<open>
  What the operating system answers: the port of a service name, and the addresses (with
  their zones) of a host name.
\<close>

record resolver =
  lookup_service :: "string \<Rightarrow> int res"
  lookup_host :: "string \<Rightarrow> (ip \<times> string) list res"

text \<open>
  The digit loop of \<open>net.parsePort\<close>, on \<open>uint32\<close> with its wrap-around; None when the
  text is no number and a service lookup is needed.
\<close>

fun port_digits :: "nat \<Rightarrow> string \<Rightarrow> nat option" where
  "port_digits n [] = Some n"
| "port_digits n (c # s) =
     (if \<not> between 48 57 c then None
      else if 2 ^ 30 \<le> n then Some (2 ^ 32 - 1)
      else
        (let m = n * 10 mod 2 ^ 32; k = (m + (code c - 48)) mod 2 ^ 32
         in if k < m then Some (2 ^ 32 - 1) else port_digits k s))"

definition parse_port :: "string \<Rightarrow> int option" where
  "parse_port s =
     (if s = [] then Some 0
      else
        (let neg = prefix ''-'' s; t = (if neg \<or> prefix ''+'' s then tl s else s)
         in case port_digits 0 t of
              None \<Rightarrow> None
            | Some n \<Rightarrow>
                if \<not> neg then Some (if 2 ^ 30 \<le> n then 2 ^ 30 - 1 else int n)
                else Some (if 2 ^ 30 < n then - (2 ^ 30) else - int n)))"

definition lookup_port :: "resolver \<Rightarrow> string \<Rightarrow> int res" where
  "lookup_port rs s =
     bind_res (case parse_port s of Some p \<Rightarrow> Inr p | None \<Rightarrow> lookup_service rs s)
       (\<lambda>p. if p < 0 \<or> 65535 < p then Inl (ErrText ''invalid port'') else Inr p)"

text \<open>\<open>net.ResolveUDPAddr(udp, s)\<close>\<close>

definition resolve_udp_addr :: "resolver \<Rightarrow> string \<Rightarrow> udp_addr res" where
  "resolve_udp_addr rs s =
     bind_res (if s = [] then Inr ([], 0)
               else bind_res (split_host_port s)
                 (\<lambda>(h, p). bind_res (lookup_port rs p) (\<lambda>n. Inr (h, n))))
       (\<lambda>(host, port).
          if host = [] then Inr \<lparr>ua_ip = [], ua_port = port, ua_zone = []\<rparr>
          else case parse_addr host of
            Some a \<Rightarrow> Inr \<lparr>ua_ip = addr_as16 a, ua_port = port, ua_zone = addr_zone a\<rparr>
          | None \<Rightarrow>
              bind_res (lookup_host rs host)
                (\<lambda>ips.
                   case ips of
                     [] \<Rightarrow> Inl (ErrText ''no suitable address found'')
                   | first # _ \<Rightarrow>
                       (let want6 = CHR ''['' \<in> set s;
                            a = (case find (\<lambda>(i, z). (to4 i = None) = want6) ips of
                                   None \<Rightarrow> first | Some a \<Rightarrow> a)
                        in Inr \<lparr>ua_ip = fst a, ua_port = port, ua_zone = snd a\<rparr>)))"

section \<open>Dotted addresses round-trip\<close>

lemma nat_str_dec_set: "set (nat_str 10 n) \<subseteq> set ''0123456789''"
proof (induction n rule: less_induct)
  case (less n)
  have "digit_char d \<in> set ''0123456789''" if "d < 10" for d
  proof -
    have "list_all (\<lambda>d. digit_char d \<in> set ''0123456789'') [0..<10]" by code_simp
    with that show ?thesis by (simp add: list_all_iff)
  qed
  then show ?case using less [of "n div 10"]
    by (cases "n < 10") (auto simp: nat_str.simps [of 10 n])
qed

lemma nat_str_no_char: "c \<notin> set ''0123456789'' \<Longrightarrow> c \<notin> set (nat_str 10 n)"
  using nat_str_dec_set by blast

lemma hd_nat_str_zero: "hd (nat_str 10 n) = CHR ''0'' \<Longrightarrow> n = 0"
proof (induction n rule: less_induct)
  case (less n)
  show ?case
  proof (cases "n < 10")
    case True
    have "list_all (\<lambda>d. digit_char d = CHR ''0'' \<longrightarrow> d = 0) [0..<10]" by code_simp
    with True less.prems show ?thesis
      by (simp add: nat_str.simps [of 10 n] list_all_iff)
  next
    case False
    then have "hd (nat_str 10 (n div 10)) = CHR ''0''" using less.prems
      by (simp add: nat_str.simps [of 10 n] hd_append)
    with False less.IH [of "n div 10"] have "n div 10 = 0" by simp
    with False show ?thesis by simp
  qed
qed

lemma octet_nat_str: "n \<le> 255 \<Longrightarrow> octet (nat_str 10 n) = Some n"
proof -
  assume n: "n \<le> 255"
  have "\<not> (1 < length (nat_str 10 n) \<and> hd (nat_str 10 n) = CHR ''0'')"
  proof
    assume *: "1 < length (nat_str 10 n) \<and> hd (nat_str 10 n) = CHR ''0''"
    then have "n = 0" by (simp add: hd_nat_str_zero)
    with * show False by (simp add: nat_str.simps)
  qed
  with n show ?thesis by (simp add: octet_def digits_val_nat_str)
qed

lemma length4_cases: "length bs = 4 \<Longrightarrow> \<exists>a b c d. bs = [a, b, c, d]"
  by (auto simp: numeral_eq_Suc length_Suc_conv)

lemma unat_byte_le_255: "unat (b :: byte) \<le> 255"
  using unat_byte_less_256 [of b] by linarith

lemma parse_v4_str: "length bs = 4 \<Longrightarrow> parse_v4 (v4_str bs) = Some bs"
proof -
  assume "length bs = 4"
  then obtain a b c d where bs: "bs = [a, b, c, d]" using length4_cases by blast
  have "CHR ''.'' \<notin> set (nat_str 10 n)" for n by (rule nat_str_no_char) simp
  then have "split_on (CHR ''.'') (v4_str bs) =
      [nat_str 10 (unat a), nat_str 10 (unat b), nat_str 10 (unat c), nat_str 10 (unat d)]"
    by (simp add: bs v4_str_def split_on_append split_on_none)
  then show ?thesis by (simp add: parse_v4_def octet_nat_str unat_byte_le_255 bs)
qed

lemma v4_str_set: "set (v4_str bs) \<subseteq> set ''.0123456789''"
proof -
  have "set (join ''.'' xs) \<subseteq> insert (CHR ''.'') (\<Union> (set (map set xs)))" for xs
    by (induction "''.''" xs rule: join.induct) auto
  from this [of "map (\<lambda>b. nat_str 10 (unat b)) bs"]
  show ?thesis using nat_str_dec_set by (fastforce simp: v4_str_def)
qed

lemma find_first: "\<lbrakk>\<And>x. x \<in> set xs \<Longrightarrow> \<not> P x; P y\<rbrakk> \<Longrightarrow> find P (xs @ y # ys) = Some y"
  by (induction xs) auto

lemma parse_addr_v4: "length bs = 4 \<Longrightarrow> parse_addr (v4_str bs) = Some (Addr4 bs)"
proof -
  assume len: "length bs = 4"
  then obtain a b c d where bs: "bs = [a, b, c, d]" using length4_cases by blast
  have "x \<notin> set ''.:%''" if "x \<in> set (nat_str 10 n)" for x n
    using that nat_str_dec_set [of n] by auto
  then have "find (\<lambda>c. c \<in> set ''.:%'') (v4_str bs) = Some (CHR ''.'')"
    unfolding bs v4_str_def by (simp add: find_first)
  then show ?thesis by (simp add: parse_addr_def parse_v4_str [OF len])
qed


section \<open>Masks\<close>

lemma length_mask_bytes [simp]: "length (mask_bytes l n) = l"
  by (induction l n rule: mask_bytes.induct) auto

lemma mask_bytes_0: "mask_bytes l 0 = replicate l 0"
  by (induction l) auto

lemma lead_ones_mask_byte:
  "n < 8 \<Longrightarrow> lead_ones 8 (NOT (drop_bit n 255)) = (n, 0) \<and> NOT (drop_bit n 255) \<noteq> (255 :: byte)"
proof -
  assume "n < 8"
  moreover have "list_all (\<lambda>n. lead_ones 8 (NOT (drop_bit n 255)) = (n, 0)
      \<and> NOT (drop_bit n 255) \<noteq> (255 :: byte)) [0..<8]" by code_simp
  ultimately show ?thesis by (simp only: list_all_iff) simp
qed

lemma simple_mask_length_zeros: "simple_mask_length (replicate l 0) = Some 0"
proof -
  have "lead_ones 8 0 = (0, 0)" by code_simp
  then show ?thesis by (cases l) (auto simp: list_ex_iff)
qed

lemma simple_mask_length_mask_bytes [simp]:
  "n \<le> 8 * l \<Longrightarrow> simple_mask_length (mask_bytes l n) = Some n"
proof (induction l n rule: mask_bytes.induct)
  case (2 l n)
  show ?case
  proof (cases "8 \<le> n")
    case True
    with 2 show ?thesis by simp
  next
    case False
    then show ?thesis
      using lead_ones_mask_byte [of n]
      by (simp add: mask_bytes_0 list_ex_iff)
  qed
qed simp

lemma cidr_mask_nat:
  "bits = 32 \<or> bits = 128 \<Longrightarrow> int n \<le> bits \<Longrightarrow> cidr_mask (int n) bits = mask_bytes (nat bits div 8) n"
  by (auto simp: cidr_mask_def)

lemma dtoi_nat_str: "n < 0xFFFFFF \<Longrightarrow> dtoi (nat_str 10 n) = Some n"
  by (simp add: dtoi_def digits_val_nat_str)

text \<open>
  A network in canonical form: the address in its shortest form (four bytes, or sixteen that
  are no mapped IPv4 address) and a prefix mask of the same width.
\<close>

definition net_len :: "ip_net \<Rightarrow> nat" where
  "net_len n = (case simple_mask_length (net_mask n) of None \<Rightarrow> 0 | Some l \<Rightarrow> l)"

definition canonical_net :: "ip_net \<Rightarrow> bool" where
  "canonical_net n \<longleftrightarrow>
     (length (net_ip n) = 4 \<or> length (net_ip n) = 16 \<and> to4 (net_ip n) = None)
     \<and> net_len n \<le> 8 * length (net_ip n)
     \<and> net_mask n = mask_bytes (length (net_ip n)) (net_len n)"

lemma ip_net_str_canonical:
  "canonical_net n \<Longrightarrow> ip_net_str n = ip_str (net_ip n) @ ''/'' @ nat_str 10 (net_len n)"
proof -
  assume n: "canonical_net n"
  let ?m = "mask_bytes (length (net_ip n)) (net_len n)"
  have "net_mask n = ?m" "simple_mask_length ?m = Some (net_len n)"
    using n by (auto simp: canonical_net_def)
  moreover have "network_number_and_mask n = Some (net_ip n, ?m)"
    using n by (auto simp: canonical_net_def network_number_and_mask_def to4_def Let_def
        split: option.splits)
  ultimately show ?thesis by (simp add: ip_net_str_def)
qed

lemma to16_length: "length i = 4 \<or> length i = 16 \<Longrightarrow> \<exists>j. to16 i = Some j \<and> length j = 16"
  by (auto simp: to16_def v4_in_v6_prefix_def)

section \<open>IPv6 addresses round-trip\<close>

definition hex_groups :: "nat list \<Rightarrow> string" where
  "hex_groups gs = join '':'' (map (nat_str 16) gs)"

definition group_enc :: "nat list \<Rightarrow> byte list" where
  "group_enc gs = concat (map (\<lambda>g. [of_nat (g div 256), of_nat (g mod 256)]) gs)"

lemma hex_groups_simps [simp]:
  "hex_groups [] = []"
  "hex_groups [g] = nat_str 16 g"
  "gs \<noteq> [] \<Longrightarrow> hex_groups (g # gs) = nat_str 16 g @ CHR '':'' # hex_groups gs"
  by (simp_all add: hex_groups_def) (cases gs; simp)

lemma group_enc_simps [simp]:
  "group_enc [] = []"
  "group_enc (g # gs) = of_nat (g div 256) # of_nat (g mod 256) # group_enc gs"
  "group_enc (gs @ hs) = group_enc gs @ group_enc hs"
  by (simp_all add: group_enc_def)

lemma length_group_enc [simp]: "length (group_enc gs) = 2 * length gs"
  by (induction gs) auto

lemma length_nat_str: "2 \<le> b \<Longrightarrow> n < b ^ Suc k \<Longrightarrow> length (nat_str b n) \<le> Suc k"
proof (induction k arbitrary: n)
  case 0
  then show ?case by (simp add: nat_str.simps [of b n])
next
  case (Suc k)
  have "n div b < b ^ Suc k"
    using Suc.prems by (simp add: less_mult_imp_div_less mult.commute)
  then show ?case using Suc by (simp add: nat_str.simps [of b n])
qed

lemma is_hex_digit_set: "c \<in> digit_set \<Longrightarrow> is_hex c"
proof -
  have "list_all is_hex ''0123456789abcdef''" by code_simp
  then show "c \<in> digit_set \<Longrightarrow> is_hex c" by (simp only: list_all_iff digit_set_def)
qed

lemma is_hex_nat_str: "c \<in> set (nat_str 16 g) \<Longrightarrow> is_hex c"
  using set_nat_str [of 16 g] is_hex_digit_set by auto

lemma not_is_hex_colon [simp]: "\<not> is_hex (CHR '':'')"
  by code_simp

lemma group_bytes_nat_str [simp]:
  "group_bytes (nat_str 16 g) = [of_nat (g div 256), of_nat (g mod 256)]"
  by (simp add: group_bytes_def digits_val_nat_str)

lemma hex_scan [simp]:
  "takeWhile is_hex (nat_str 16 g @ CHR '':'' # t) = nat_str 16 g"
  "dropWhile is_hex (nat_str 16 g @ CHR '':'' # t) = CHR '':'' # t"
  "takeWhile is_hex (nat_str 16 g) = nat_str 16 g"
  "dropWhile is_hex (nat_str 16 g) = []"
  using is_hex_nat_str [of _ g]
  by (auto intro!: takeWhile_append_stop dropWhile_append_stop simp: takeWhile_eq_all_conv)

lemma hex_groups_hd: "gs \<noteq> [] \<Longrightarrow> \<exists>c s. hex_groups gs @ t = c # s \<and> is_hex c"
proof -
  assume "gs \<noteq> []"
  then obtain g gs' where gs: "gs = g # gs'" by (cases gs) auto
  obtain c s where cs: "nat_str 16 g = c # s" using nat_str_not_Nil by (cases "nat_str 16 g") auto
  then have "is_hex c" using is_hex_nat_str [of c g] by simp
  with cs show ?thesis by (cases "gs' = []") (auto simp: gs)
qed

lemma v6_loop_group:
  assumes "g < 65536" and "length bs < 16"
  shows "v6_loop bs ell (nat_str 16 g) = v6_finish (bs @ group_enc [g]) ell []"
    and "is_hex c \<Longrightarrow> v6_loop bs ell (nat_str 16 g @ CHR '':'' # c # s)
           = v6_loop (bs @ group_enc [g]) ell (c # s)"
proof -
  have len: "\<not> 4 < length (nat_str 16 g)"
    using length_nat_str [of 16 g 3] assms(1) by simp
  show "v6_loop bs ell (nat_str 16 g) = v6_finish (bs @ group_enc [g]) ell []"
    using assms len by (subst v6_loop.simps) (simp add: Let_def)
  show "is_hex c \<Longrightarrow> v6_loop bs ell (nat_str 16 g @ CHR '':'' # c # s)
           = v6_loop (bs @ group_enc [g]) ell (c # s)"
    using assms len by (subst v6_loop.simps) (auto simp: Let_def)
qed

lemma v6_loop_double_colon:
  assumes "g < 65536" and "length bs < 16"
  shows "v6_loop bs None (nat_str 16 g @ CHR '':'' # CHR '':'' # t) =
    (let bs' = bs @ group_enc [g]
     in if t = [] then v6_finish bs' (Some (length bs')) [] else v6_loop bs' (Some (length bs')) t)"
proof -
  have len: "\<not> 4 < length (nat_str 16 g)"
    using length_nat_str [of 16 g 3] assms(1) by simp
  show ?thesis
    using assms len by (subst v6_loop.simps) (simp add: Let_def)
qed

lemma v6_loop_groups:
  "\<lbrakk>gs \<noteq> []; \<forall>g \<in> set gs. g < 65536; length bs + 2 * length gs \<le> 16\<rbrakk> \<Longrightarrow>
   v6_loop bs ell (hex_groups gs) = v6_finish (bs @ group_enc gs) ell []"
proof (induction gs arbitrary: bs)
  case (Cons g gs)
  show ?case
  proof (cases "gs = []")
    case True
    with Cons.prems show ?thesis by (simp add: v6_loop_group)
  next
    case False
    then obtain c s where "hex_groups gs = c # s" "is_hex c"
      using hex_groups_hd [of gs "[]"] by auto
    with False Cons show ?thesis by (simp add: v6_loop_group)
  qed
qed simp

lemma v6_loop_ellipsis:
  "\<lbrakk>gs \<noteq> []; \<forall>g \<in> set gs. g < 65536; length bs + 2 * length gs \<le> 16\<rbrakk> \<Longrightarrow>
   v6_loop bs None (hex_groups gs @ CHR '':'' # CHR '':'' # t) =
     (let bs' = bs @ group_enc gs
      in if t = [] then v6_finish bs' (Some (length bs')) [] else v6_loop bs' (Some (length bs')) t)"
proof (induction gs arbitrary: bs)
  case (Cons g gs)
  show ?case
  proof (cases "gs = []")
    case True
    with Cons.prems show ?thesis by (simp add: v6_loop_double_colon)
  next
    case False
    then obtain c s where "hex_groups gs @ CHR '':'' # CHR '':'' # t = c # s" "is_hex c"
      using hex_groups_hd by blast
    with False Cons show ?thesis by (simp add: v6_loop_group)
  qed
qed simp

lemma zero_run_zeros: "take (zero_run gs i) (drop i gs) = replicate (zero_run gs i) 0"
proof -
  have "take (zero_run gs i) (drop i gs) = takeWhile (\<lambda>g. g = 0) (drop i gs)"
    by (simp add: zero_run_def takeWhile_eq_take [symmetric])
  also have "\<dots> = replicate (zero_run gs i) 0"
    unfolding zero_run_def by (rule replicate_length_same [symmetric]) (auto dest: set_takeWhileD)
  finally show ?thesis .
qed

definition run_ok :: "nat list \<Rightarrow> (nat \<times> nat) option \<Rightarrow> bool" where
  "run_ok gs best \<longleftrightarrow> (case best of None \<Rightarrow> True
     | Some (i, l) \<Rightarrow> 2 \<le> l \<and> take l (drop i gs) = replicate l 0)"

lemma best_zero_run_ok: "run_ok gs (best_zero_run gs)"
proof -
  have "run_ok gs (fold (\<lambda>i best. (let l = zero_run gs i
         in if 2 \<le> l \<and> (case best of None \<Rightarrow> True | Some (_, l') \<Rightarrow> l' < l)
            then Some (i, l) else best)) is best)" if "run_ok gs best" for "is" best
    using that
    by (induction "is" arbitrary: best) (auto simp: Let_def run_ok_def zero_run_zeros)
  then show ?thesis unfolding best_zero_run_def by (simp add: run_ok_def)
qed

lemma best_zero_run_split:
  assumes "best_zero_run gs = Some (i, l)"
  shows "2 \<le> l" and "gs = take i gs @ replicate l 0 @ drop (i + l) gs" and "i + l \<le> length gs"
proof -
  have run: "2 \<le> l" "take l (drop i gs) = replicate l 0"
    using best_zero_run_ok [of gs] assms by (auto simp: run_ok_def)
  then show "2 \<le> l" by simp
  from run(2) have "length (take l (drop i gs)) = l" by simp
  with run(1) show "i + l \<le> length gs" by (auto simp: min_def split: if_splits)
  have "take l (drop i gs) @ drop (i + l) gs = drop i gs"
    by (metis add.commute append_take_drop_id drop_drop)
  with run(2) show "gs = take i gs @ replicate l 0 @ drop (i + l) gs"
    by (metis append_take_drop_id)
qed

lemma group_enc_v6_groups: "even (length bs) \<Longrightarrow> group_enc (v6_groups bs) = bs"
  by (induction bs rule: v6_groups.induct) (auto simp: unat_byte_less_256)

lemma v6_groups_bound: "g \<in> set (v6_groups bs) \<Longrightarrow> g < 65536"
proof (induction bs rule: v6_groups.induct)
  case (1 a b bs)
  then show ?case using unat_byte_less_256 [of a] unat_byte_less_256 [of b] by auto
qed auto

lemma length_v6_groups: "length (v6_groups bs) = length bs div 2"
  by (induction bs rule: v6_groups.induct) auto

lemma group_enc_zeros: "group_enc (replicate l 0) = replicate (2 * l) 0"
  by (induction l) auto

lemma hex_groups_set: "set (hex_groups gs) \<subseteq> insert (CHR '':'') digit_set"
proof (induction gs)
  case (Cons g gs)
  then show ?case using set_nat_str [of 16 g] by (cases "gs = []") auto
qed simp

lemma v6_str_eq:
  "v6_str bs = (case best_zero_run (v6_groups bs) of
       None \<Rightarrow> hex_groups (v6_groups bs)
     | Some (i, l) \<Rightarrow> hex_groups (take i (v6_groups bs)) @ CHR '':'' # CHR '':'' #
                      hex_groups (drop (i + l) (v6_groups bs)))"
  by (auto simp: v6_str_def Let_def hex_groups_def split: option.splits)

lemma v6_str_set: "set (v6_str bs) \<subseteq> insert (CHR '':'') digit_set"
  using hex_groups_set by (fastforce simp: v6_str_eq split: option.splits)

lemma hex_groups_not_colon: "gs \<noteq> [] \<Longrightarrow> \<not> prefix ''::'' (hex_groups gs @ t)"
  using hex_groups_hd [of gs t] by auto

lemma v6_finish_expand:
  assumes "length a + length b < 16"
  shows "v6_finish (a @ b) (Some (length a)) [] =
    Some (a @ replicate (16 - (length a + length b)) 0 @ b)"
  using assms by (simp add: v6_finish_def)

lemma parse_v6_str: "length bs = 16 \<Longrightarrow> parse_v6 (v6_str bs) = Some (Addr6 bs [])"
proof -
  assume len: "length bs = 16"
  let ?gs = "v6_groups bs"
  have gs: "length ?gs = 8" "\<forall>g \<in> set ?gs. g < 65536" "group_enc ?gs = bs"
    using len by (auto simp: length_v6_groups v6_groups_bound group_enc_v6_groups)
  have pct: "CHR ''%'' \<notin> set (v6_str bs)"
    using v6_str_set [of bs] by (auto simp: digit_set_def)
  show ?thesis
  proof (cases "best_zero_run ?gs")
    case None
    then have "v6_str bs = hex_groups ?gs" by (simp add: v6_str_eq)
    moreover have "?gs \<noteq> []" using gs(1) by auto
    ultimately show ?thesis
      using pct gs hex_groups_not_colon [of ?gs "[]"] v6_loop_groups [of ?gs "[]" None]
      by (simp add: parse_v6_def v6_finish_def len)
  next
    case (Some il)
    then obtain i l where il: "best_zero_run ?gs = Some (i, l)" by (cases il) auto
    note split = best_zero_run_split [OF il]
    define p s where "p = take i ?gs" and "s = drop (i + l) ?gs"
    have str: "v6_str bs = hex_groups p @ CHR '':'' # CHR '':'' # hex_groups s"
      using il by (simp add: v6_str_eq p_def s_def)
    have lens: "length p + l + length s = 8" using split(3) gs(1) by (auto simp: p_def s_def)
    have bs: "bs = group_enc p @ replicate (2 * l) 0 @ group_enc s"
      using gs(3) split(2) by (metis group_enc_simps(3) group_enc_zeros p_def s_def)
    have bound: "\<forall>g \<in> set p. g < 65536" "\<forall>g \<in> set s. g < 65536"
      using gs(2) by (auto simp: p_def s_def dest: in_set_takeD in_set_dropD)
    have fin: "v6_finish (group_enc p @ group_enc s) (Some (length (group_enc p))) [] = Some bs"
    proof -
      have "16 - (length (group_enc p) + length (group_enc s)) = 2 * l" using lens by simp
      then show ?thesis using lens split(1) by (subst v6_finish_expand) (simp_all add: bs)
    qed
    show ?thesis
    proof (cases "p = []")
      case True
      show ?thesis
      proof (cases "s = []")
        case True
        then have "bs = replicate 16 0" using \<open>p = []\<close> lens by (simp add: bs)
        then show ?thesis unfolding str using \<open>p = []\<close> True by (simp add: parse_v6_def)
      next
        case False
        then have "v6_loop [] (Some 0) (hex_groups s) = Some bs"
          using fin bound lens \<open>p = []\<close> v6_loop_groups [of s "[]" "Some 0"] by simp
        moreover have "hex_groups s \<noteq> []" using hex_groups_hd [OF False, of "[]"] by auto
        ultimately show ?thesis using pct \<open>p = []\<close> unfolding str by (simp add: parse_v6_def)
      qed
    next
      case False
      then show ?thesis
        using fin pct bound lens hex_groups_not_colon [OF False] v6_loop_ellipsis [of p "[]"]
          v6_loop_groups [of s "group_enc p" "Some (length (group_enc p))"]
          hex_groups_hd [of s "[]"]
        by (cases "s = []") (auto simp: parse_v6_def str Let_def)
    qed
  qed
qed

lemma v6_str_colon: "length bs = 16 \<Longrightarrow> CHR '':'' \<in> set (v6_str bs)"
proof -
  assume "length bs = 16"
  then have "length (v6_groups bs) = 8" by (simp add: length_v6_groups)
  then obtain g h gs where "v6_groups bs = g # h # gs" by (auto simp: numeral_eq_Suc length_Suc_conv)
  then have "CHR '':'' \<in> set (hex_groups (v6_groups bs))" by simp
  then show ?thesis by (auto simp: v6_str_eq split: option.splits)
qed

lemma parse_addr_v6: "length bs = 16 \<Longrightarrow> parse_addr (v6_str bs) = Some (Addr6 bs [])"
proof -
  assume len: "length bs = 16"
  have "find (\<lambda>c. c \<in> set ''.:%'') (v6_str bs) = Some (CHR '':'')"
  proof (cases "find (\<lambda>c. c \<in> set ''.:%'') (v6_str bs)")
    case None
    then show ?thesis using v6_str_colon [OF len] by (auto simp: find_None_iff)
  next
    case (Some c)
    then have "c \<in> set (v6_str bs)" "c \<in> set ''.:%''" by (auto simp: find_Some_iff intro: nth_mem)
    with Some show ?thesis using v6_str_set [of bs] by (auto simp: digit_set_def)
  qed
  then show ?thesis by (simp add: parse_addr_def parse_v6_str [OF len])
qed

lemma parse_addr_ip_str:
  "length i = 4 \<Longrightarrow> parse_addr (ip_str i) = Some (Addr4 i)"
  "length i = 16 \<Longrightarrow> to4 i = None \<Longrightarrow> parse_addr (ip_str i) = Some (Addr6 i [])"
  "length i = 16 \<Longrightarrow> to4 i = Some j \<Longrightarrow> parse_addr (ip_str i) = Some (Addr4 j)"
proof -
  assume "length i = 4"
  then have "ip_str i = v4_str i" by (auto simp: ip_str_def to4_def)
  with \<open>length i = 4\<close> show "parse_addr (ip_str i) = Some (Addr4 i)"
    by (simp add: parse_addr_v4)
next
  assume len: "length i = 16" and "to4 i = None"
  then have "ip_str i = v6_str i" by (auto simp: ip_str_def)
  with len show "parse_addr (ip_str i) = Some (Addr6 i [])" by (simp add: parse_addr_v6)
next
  assume len: "length i = 16" and j: "to4 i = Some j"
  then have "ip_str i = v4_str j" "length j = 4" by (auto simp: ip_str_def to4_def split: if_splits)
  then show "parse_addr (ip_str i) = Some (Addr4 j)" by (simp add: parse_addr_v4)
qed

lemma parse_ip_ip_str:
  assumes "length i = 4 \<or> length i = 16"
  shows "parse_ip (ip_str i) = to16 i"
proof (cases "to4 i")
  case None
  with assms have "length i = 16" by (auto simp: to4_def)
  with None show ?thesis by (simp add: parse_ip_def parse_addr_ip_str to16_def)
next
  case (Some j)
  show ?thesis
  proof (cases "length i = 4")
    case True
    then show ?thesis by (simp add: parse_ip_def parse_addr_ip_str to16_def)
  next
    case False
    with assms Some have "length i = 16" "i = v4_in_v6_prefix @ j"
      by (auto simp: to4_def split: if_splits) (metis append_take_drop_id)
    with Some show ?thesis by (simp add: parse_ip_def parse_addr_ip_str to16_def)
  qed
qed

lemma ip_str_set:
  "length i = 4 \<or> length i = 16 \<Longrightarrow> set (ip_str i) \<subseteq> set ''.:0123456789abcdef''"
proof -
  assume "length i = 4 \<or> length i = 16"
  then have "set (ip_str i) \<subseteq> (case to4 i of None \<Rightarrow> set (v6_str i) | Some j \<Rightarrow> set (v4_str j))"
    by (auto simp: ip_str_def to4_def)
  also have "\<dots> \<subseteq> set ''.:0123456789abcdef''"
  proof (cases "to4 i")
    case None
    have "insert (CHR '':'') digit_set \<subseteq> set ''.:0123456789abcdef''" by (simp add: digit_set_def)
    with None v6_str_set [of i] show ?thesis using order.trans by (simp only: option.case)
  next
    case (Some j)
    have "set ''.0123456789'' \<subseteq> set ''.:0123456789abcdef''" by simp
    with Some v4_str_set [of j] show ?thesis using order.trans by (simp only: option.case)
  qed
  finally show ?thesis .
qed

lemma ip_str_hd:
  "length i = 4 \<or> length i = 16 \<Longrightarrow> ip_str i \<noteq> []"
  using parse_addr_ip_str [of i] by (cases "to4 i") (auto simp: parse_addr_def)

definition net16 :: "ip_net \<Rightarrow> ip_net" where
  "net16 n = n\<lparr>net_ip := (case to16 (net_ip n) of None \<Rightarrow> net_ip n | Some i \<Rightarrow> i)\<rparr>"

text \<open>
  A canonical network, printed and parsed back: the address comes back in sixteen bytes,
  the mask as it was.
\<close>

lemma parse_cidr_ip_net_str:
  assumes n: "canonical_net n"
  shows "parse_cidr (ip_net_str n) = Inr (net_ip (net16 n),
    \<lparr>net_ip = ip_masked (net_ip (net16 n)) (net_mask n), net_mask = net_mask n\<rparr>)"
proof -
  let ?i = "net_ip n" and ?l = "net_len n"
  have len: "length ?i = 4 \<or> length ?i = 16" and mask: "net_mask n = mask_bytes (length ?i) ?l"
    and le: "?l \<le> 8 * length ?i" and six: "length ?i = 16 \<Longrightarrow> to4 ?i = None"
    using n by (auto simp: canonical_net_def)
  have "CHR ''/'' \<notin> set (ip_str ?i)" using ip_str_set [OF len] by auto
  then have cut: "cut_at (CHR ''/'') (ip_net_str n) = Some (ip_str ?i, nat_str 10 ?l)"
    by (simp add: ip_net_str_canonical [OF n])
  have dtoi: "dtoi (nat_str 10 ?l) = Some ?l" using le len by (intro dtoi_nat_str) auto
  obtain a where a: "parse_addr (ip_str ?i) = Some a" "addr_zone a = []"
      "addr_bits a = 8 * int (length ?i)" "addr_as16 a = net_ip (net16 n)"
  proof (cases "length ?i = 4")
    case True
    then show ?thesis
      by (intro that [of "Addr4 ?i"]) (auto simp: parse_addr_ip_str net16_def to16_def)
  next
    case False
    with len six show ?thesis
      by (intro that [of "Addr6 ?i []"]) (auto simp: parse_addr_ip_str net16_def to16_def)
  qed
  have "cidr_mask (int ?l) (addr_bits a) = net_mask n"
    using len le a(3) by (subst cidr_mask_nat) (auto simp: mask)
  moreover have "\<not> addr_bits a < int ?l" using a(3) le by simp
  ultimately show ?thesis using a by (simp add: parse_cidr_def cut dtoi Let_def)
qed

section \<open>Parsed addresses have sixteen bytes\<close>

lemma parse_v4_length: "parse_v4 s = Some bs \<Longrightarrow> length bs = 4"
  by (auto simp: parse_v4_def split: list.splits option.splits)

lemma length_group_bytes [simp]: "length (group_bytes ds) = 2"
  by (simp add: group_bytes_def Let_def)

lemma v6_finish_length: "v6_finish bs ell s = Some r \<Longrightarrow> length bs \<le> 16 \<Longrightarrow> length r = 16"
  by (auto simp: v6_finish_def split: if_splits option.splits)

lemma v6_finish_v4_length:
  "\<lbrakk>v6_finish (bs @ x) ell [] = Some r; parse_v4 s = Some x; length bs \<le> 12\<rbrakk> \<Longrightarrow> length r = 16"
  using v6_finish_length [of "bs @ x" ell "[]" r] parse_v4_length [of s x] by simp

lemma v6_loop_length:
  "\<lbrakk>v6_loop bs ell s = Some r; even (length bs); length bs \<le> 16\<rbrakk> \<Longrightarrow> length r = 16"
proof (induction bs ell s rule: v6_loop.induct)
  case (1 bs ell s)
  show ?case
  proof (cases "16 \<le> length bs")
    case True
    with 1 show ?thesis by (auto simp: v6_loop.simps [of bs] intro: v6_finish_length)
  next
    case False
    with "1.prems" have le: "length bs + 2 \<le> 16" by (metis (no_types, lifting) even_Suc
      le_neq_implies_less not_less_eq_eq numeral_eq_Suc even_numeral Suc_leI add_2_eq_Suc' antisym nat_le_linear)
    note IH = "1.IH" [OF False refl refl refl]
    from False "1.prems"(1) show ?thesis
      using IH le "1.prems"(2)
      by (subst (asm) v6_loop.simps)
         (auto simp: Let_def dest: v6_finish_length intro: v6_finish_v4_length split: if_splits list.splits option.splits)
  qed
qed

lemma parse_addr_length:
  "parse_addr s = Some a \<Longrightarrow> length (addr_as16 a) = 16 \<and>
     (addr_bits a = 32 \<or> addr_bits a = 128)"
  by (auto simp: parse_addr_def parse_v6_def v4_in_v6_prefix_def dest: parse_v4_length v6_loop_length
      split: option.splits if_splits prod.splits)

lemma parse_ip_length: "parse_ip s = Some i \<Longrightarrow> length i = 16"
  using parse_addr_length by (auto simp: parse_ip_def split: option.splits if_splits)

definition prefix_mask :: "ip_mask \<Rightarrow> bool" where
  "prefix_mask m \<longleftrightarrow> (\<exists>b k. m = mask_bytes b k \<and> k \<le> 8 * b \<and> (b = 4 \<or> b = 16))"

lemma prefix_maskI: "\<lbrakk>m = mask_bytes b k; k \<le> 8 * b; b = 4 \<or> b = 16\<rbrakk> \<Longrightarrow> prefix_mask m"
  unfolding prefix_mask_def by blast

lemma prefix_mask_full [simp]: "prefix_mask (cidr_mask 32 32)" "prefix_mask (cidr_mask 128 128)"
  by (rule prefix_maskI [of _ 4 32] prefix_maskI [of _ 16 128]; simp add: cidr_mask_def)+

lemma parse_cidr_length:
  assumes "parse_cidr s = Inr (i, n)"
  shows "length i = 16 \<and> prefix_mask (net_mask n)"
proof -
  obtain ad k where a: "parse_addr (fst (the (cut_at (CHR ''/'') s))) = Some ad" "i = addr_as16 ad"
      "int k \<le> addr_bits ad" "net_mask n = cidr_mask (int k) (addr_bits ad)"
    using assms by (auto simp: parse_cidr_def Let_def not_less split: option.splits if_splits prod.splits)
  have b: "addr_bits ad = 32 \<or> addr_bits ad = 128" "length i = 16"
    using parse_addr_length [OF a(1)] a(2) by simp_all
  moreover have "net_mask n = mask_bytes (nat (addr_bits ad) div 8) k"
    using a cidr_mask_nat b by simp
  ultimately show ?thesis using a(3)
    by (intro conjI prefix_maskI [of _ "nat (addr_bits ad) div 8" k]) auto
qed

section \<open>Host and port texts round-trip\<close>

lemma nat_str_sign: "\<not> prefix ''+'' (nat_str 10 n) \<and> \<not> prefix ''-'' (nat_str 10 n)"
  using hd_nat_str_dec [of n] by (cases "nat_str 10 n") auto

lemma digits_val_mono: "0 < b \<Longrightarrow> digits_val b acc s = Some v \<Longrightarrow> acc \<le> v"
proof (induction b acc s rule: digits_val.induct)
  case (2 b acc c s)
  then obtain d where "acc * b + d \<le> v" by (auto split: option.splits if_splits)
  moreover have "acc \<le> acc * b" using 2(2) by simp
  ultimately show ?case by linarith
qed simp

lemma port_digits_val:
  "\<lbrakk>digits_val 10 acc s = Some v; v < 2 ^ 30; \<forall>c \<in> set s. between 48 57 c\<rbrakk> \<Longrightarrow> port_digits acc s = Some v"
proof (induction "10 :: nat" acc s rule: digits_val.induct)
  case (2 acc c s)
  have d: "digit_val c = Some (code c - 48)" "code c - 48 < 10"
    using "2.prems" by (auto simp: digit_val_def between_def)
  with "2.prems" have step: "digits_val 10 (acc * 10 + (code c - 48)) s = Some v" by simp
  then have "acc * 10 + (code c - 48) \<le> v" by (rule digits_val_mono [rotated]) simp
  then have "\<not> 2 ^ 30 \<le> acc" "acc * 10 mod 2 ^ 32 = acc * 10"
      "(acc * 10 + (code c - 48)) mod 2 ^ 32 = acc * 10 + (code c - 48)"
    using "2.prems"(2) by simp_all
  then show ?case using "2.hyps" [OF d] step "2.prems" by (simp add: Let_def)
qed simp

lemma parse_port_nat_str: "n < 2 ^ 30 \<Longrightarrow> parse_port (nat_str 10 n) = Some (int n)"
proof -
  assume n: "n < 2 ^ 30"
  have "list_all (between 48 57) ''0123456789''" by code_simp
  then have "\<forall>c \<in> set (nat_str 10 n). between 48 57 c"
    using nat_str_dec_set [of n] unfolding list_all_iff by blast
  then have "port_digits 0 (nat_str 10 n) = Some n"
    using n by (intro port_digits_val) (simp_all add: digits_val_nat_str)
  then show ?thesis using nat_str_sign [of n] n by (simp add: parse_port_def)
qed

lemma lookup_port_itoa:
  "0 \<le> p \<Longrightarrow> p \<le> 65535 \<Longrightarrow> lookup_port rs (itoa p) = Inr p"
  by (simp add: lookup_port_def itoa_def int_str_def parse_port_nat_str)

lemma itoa_no_char: "c \<notin> set ''-0123456789'' \<Longrightarrow> c \<notin> set (itoa p)"
  by (auto simp: itoa_def int_str_def nat_str_no_char)

lemma split_host_port_join:
  assumes "CHR ''['' \<notin> set h" "CHR '']'' \<notin> set h"
    and "CHR '':'' \<notin> set p" "CHR ''['' \<notin> set p" "CHR '']'' \<notin> set p"
  shows "split_host_port (join_host_port h p) = Inr (h, p)"
proof (cases "CHR '':'' \<in> set h")
  case True
  have "cut_last (CHR '':'') (''['' @ h @ '']:'' @ p) = Some (''['' @ h @ '']'', p)"
    using cut_last_append [OF assms(3), of "''['' @ h @ '']''"] by simp
  moreover have "cut_at (CHR '']'') (''['' @ h @ '']:'' @ p) = Some (''['' @ h, '':'' @ p)"
    using cut_at_append [of "CHR '']''" "''['' @ h" "'':'' @ p"] assms by simp
  ultimately show ?thesis using True assms by (simp add: split_host_port_def join_host_port_def)
next
  case False
  have "cut_last (CHR '':'') (h @ '':'' @ p) = Some (h, p)"
    using cut_last_append [OF assms(3), of h] by simp
  moreover have "\<not> prefix ''['' (h @ '':'' @ p)" using assms(1) by (cases h) auto
  ultimately show ?thesis using False assms by (simp add: split_host_port_def join_host_port_def)
qed

lemma parse_int64_itoa:
  assumes "- (2 ^ 63) \<le> i" and "i < 2 ^ 63"
  shows "parse_int64 (itoa i) = Inr i"
proof (cases "i < 0")
  case True
  have "digits_val 10 0 (nat_str 10 (nat (- i))) = Some (nat (- i))" by (simp add: digits_val_nat_str)
  moreover have "nat (- i) \<le> 2 ^ 63" using assms by (simp add: nat_le_iff)
  ultimately show ?thesis using True by (simp add: parse_int64_def itoa_def int_str_def Let_def)
next
  case False
  have "digits_val 10 0 (nat_str 10 (nat i)) = Some (nat i)" by (simp add: digits_val_nat_str)
  moreover have "nat i < 2 ^ 63" using assms False by (simp add: nat_less_iff)
  ultimately show ?thesis using False nat_str_sign [of "nat i"]
    by (simp add: parse_int64_def itoa_def int_str_def Let_def)
qed

lemma ip_masked_net16:
  assumes n: "canonical_net n" and m: "ip_masked (net_ip n) (net_mask n) = net_ip n"
  shows "ip_masked (net_ip (net16 n)) (net_mask n) = net_ip n"
proof -
  have len: "length (net_ip n) = 4 \<or> length (net_ip n) = 16"
    and mask: "length (net_mask n) = length (net_ip n)"
    using n by (auto simp: canonical_net_def)
  show ?thesis
  proof (cases "length (net_ip n) = 4")
    case True
    then have "net_ip (net16 n) = v4_in_v6_prefix @ net_ip n" by (simp add: net16_def to16_def)
    moreover have "length v4_in_v6_prefix = 12" by (simp add: v4_in_v6_prefix_def)
    ultimately show ?thesis using m True mask by (simp add: ip_masked_def Let_def)
  next
    case False
    then show ?thesis using len m by (simp add: net16_def to16_def)
  qed
qed

lemma resolve_udp_addr_str:
  assumes "length (ua_ip a) = 4 \<or> length (ua_ip a) = 16" and "0 \<le> ua_port a" and "ua_port a \<le> 65535"
    and "ua_zone a = []"
  shows "resolve_udp_addr rs (udp_addr_str a) = Inr (a\<lparr>ua_ip := the (to16 (ua_ip a))\<rparr>)"
proof -
  have ne: "ua_ip a \<noteq> []" using assms(1) by auto
  have str: "udp_addr_str a = join_host_port (ip_str (ua_ip a)) (itoa (ua_port a))"
    using ne assms(4) by (simp add: udp_addr_str_def)
  have br: "CHR ''['' \<notin> set ''.:0123456789abcdef''" "CHR '']'' \<notin> set ''.:0123456789abcdef''" by simp_all
  have "split_host_port (udp_addr_str a) = Inr (ip_str (ua_ip a), itoa (ua_port a))"
    unfolding str
    by (rule split_host_port_join) (use ip_str_set [OF assms(1)] br itoa_no_char in blast | rule itoa_no_char, simp)+
  moreover have "udp_addr_str a \<noteq> []" by (simp add: str join_host_port_def)
  moreover have "lookup_port rs (itoa (ua_port a)) = Inr (ua_port a)"
    using assms by (intro lookup_port_itoa) auto
  moreover obtain ad where "parse_addr (ip_str (ua_ip a)) = Some ad"
      "addr_as16 ad = the (to16 (ua_ip a))" "addr_zone ad = []"
    using parse_ip_ip_str [OF assms(1)] to16_length [OF assms(1)]
    by (auto simp: parse_ip_def split: option.splits if_splits)
  ultimately show ?thesis
    using ip_str_hd [OF assms(1)] assms(4) by (cases a) (simp add: resolve_udp_addr_def)
qed

end
