(* ===== verification/WgTypes.thy ===== *)
theory WgTypes
  imports GoNet
begin

unbundle bit_operations_syntax

text \<open>
  wgtypes/types.go: the data every backend and every front end exchanges. A \<open>Key\<close> is
  \<open>[32]byte\<close>, here a byte list whose length is an invariant (\<open>wf_key\<close>). A pointer
  field that may be nil is an option; \<open>time.Duration\<close> is its nanoseconds.
\<close>

section \<open>Time\<close>

text \<open>
  \<open>time.Time\<close>: seconds since year 1 (an \<open>int64\<close>) and nanoseconds below one second; the
  zero value is \<open>(0, 0)\<close>. The location plays no part in what the sources do with it.
\<close>

type_synonym go_time = "int \<times> int"

definition zero_time :: go_time where
  "zero_time = (0, 0)"

definition unix_to_internal :: int where
  "unix_to_internal = 62135596800"

definition time_Unix :: "int \<Rightarrow> int \<Rightarrow> go_time" where
  "time_Unix sec nsec =
     (wrap64 (wrap64 (sec + nsec div 1000000000) + unix_to_internal), nsec mod 1000000000)"

definition time_unix_seconds :: "go_time \<Rightarrow> int" where
  "time_unix_seconds t = wrap64 (fst t - unix_to_internal)"

definition second :: int where
  "second = 1000000000"

text \<open>Go's integer division truncates towards zero.\<close>

definition tdiv :: "int \<Rightarrow> int \<Rightarrow> int" where
  "tdiv a b = sgn a * sgn b * (\<bar>a\<bar> div \<bar>b\<bar>)"

text \<open>
  \<open>int(d.Seconds())\<close>. The float64 sum of whole seconds and fraction truncates to the whole
  seconds as long as these are below \<open>2 ^ 22\<close>; WireGuard's intervals are below \<open>2 ^ 16\<close>.
\<close>

definition int_seconds :: "int \<Rightarrow> int" where
  "int_seconds d = tdiv d second"

lemma int_seconds_bounds:
  "0 \<le> k \<Longrightarrow> k < 2 ^ 63 \<Longrightarrow> 0 \<le> int_seconds k \<and> int_seconds k \<le> k \<and> int_seconds k * second \<le> k"
proof -
  assume k: "0 \<le> k" "k < 2 ^ 63"
  have "int_seconds k = k div second"
    using k by (cases "k = 0") (simp_all add: int_seconds_def tdiv_def second_def sgn_if)
  moreover have "k div second * second \<le> k" "0 \<le> k div second" "k div second \<le> k"
    using k by (auto simp: second_def pos_imp_zdiv_nonneg_iff)
  ultimately show ?thesis by simp
qed

section \<open>Keys\<close>

type_synonym key = "byte list"

definition key_len :: nat where
  "key_len = 32"

definition zero_key :: key where
  "zero_key = replicate key_len 0"

definition wf_key :: "key \<Rightarrow> bool" where
  "wf_key k \<longleftrightarrow> length k = key_len"

definition new_key :: "byte list \<Rightarrow> key res" where
  "new_key b = (if length b \<noteq> key_len then Inl (ErrText ''wgtypes: incorrect key size'') else Inr b)"

text \<open>\<open>rand\<close> is the outcome of \<open>rand.Read\<close> into a buffer of \<open>KeyLen\<close> bytes.\<close>

definition generate_key :: "byte list res \<Rightarrow> key res" where
  "generate_key rand =
     (case rand of
        Inl e \<Rightarrow> Inl (ErrText ''wgtypes: failed to read random bytes'')
      | Inr b \<Rightarrow> new_key b)"

definition generate_private_key :: "byte list res \<Rightarrow> key res" where
  "generate_private_key rand =
     (case generate_key rand of
        Inl e \<Rightarrow> Inl e
      | Inr k0 \<Rightarrow>
          (let k1 = k0[0 := (k0 ! 0) AND 248];
               k2 = k1[31 := (k1 ! 31) AND 127];
               k3 = k2[31 := (k2 ! 31) OR 64]
           in Inr k3))"

definition parse_key :: "string \<Rightarrow> key res" where
  "parse_key s =
     (case b64_decode s of
        Inl e \<Rightarrow> Inl (ErrText ''wgtypes: failed to parse base64-encoded key'')
      | Inr b \<Rightarrow> new_key b)"

definition key_str :: "key \<Rightarrow> string" where
  "key_str k = b64_encode k"

text \<open>
  \<open>curve25519.ScalarBaseMult\<close> is third-party code: the parameter \<open>base_mult\<close> of every
  definition that computes a public key.
\<close>

definition key_public :: "(byte list \<Rightarrow> byte list) \<Rightarrow> key \<Rightarrow> key" where
  "key_public base_mult k = base_mult k"

section \<open>Devices and peers\<close>

datatype device_type =
  Unknown | LinuxKernel | OpenBSDKernel | FreeBSDKernel | WindowsKernel | Userspace

fun device_type_str :: "device_type \<Rightarrow> string" where
  "device_type_str LinuxKernel = ''Linux kernel''"
| "device_type_str OpenBSDKernel = ''OpenBSD kernel''"
| "device_type_str FreeBSDKernel = ''FreeBSD kernel''"
| "device_type_str WindowsKernel = ''Windows kernel''"
| "device_type_str Userspace = ''userspace''"
| "device_type_str Unknown = ''unknown''"

record peer =
  p_name :: "string option"
  p_public_key :: key
  p_preshared_key :: key
  p_has_preshared_key :: bool
  p_endpoint :: "udp_addr option"
  p_has_endpoint :: bool
  p_keepalive :: int
  p_has_keepalive :: bool
  p_last_handshake :: go_time
  p_receive_bytes :: int
  p_transmit_bytes :: int
  p_allowed_ips :: "ip_net list"
  p_protocol_version :: int

record device =
  d_name :: string
  d_type :: device_type
  d_private_key :: key
  d_has_private_key :: bool
  d_public_key :: key
  d_has_public_key :: bool
  d_listen_port :: int
  d_has_listen_port :: bool
  d_firewall_mark :: int
  d_has_firewall_mark :: bool
  d_peers :: "peer list"

text \<open>The zero values of the two structs.\<close>

definition zero_peer :: peer where
  "zero_peer = \<lparr>p_name = None, p_public_key = zero_key, p_preshared_key = zero_key,
     p_has_preshared_key = False, p_endpoint = None, p_has_endpoint = False, p_keepalive = 0,
     p_has_keepalive = False, p_last_handshake = zero_time, p_receive_bytes = 0,
     p_transmit_bytes = 0, p_allowed_ips = [], p_protocol_version = 0\<rparr>"

definition zero_device :: device where
  "zero_device = \<lparr>d_name = [], d_type = Unknown, d_private_key = zero_key,
     d_has_private_key = False, d_public_key = zero_key, d_has_public_key = False,
     d_listen_port = 0, d_has_listen_port = False, d_firewall_mark = 0,
     d_has_firewall_mark = False, d_peers = []\<rparr>"

section \<open>Configurations\<close>

datatype allowed_ip_op = AllowedIPSet | AllowedIPAdd | AllowedIPRemove

record allowed_ip_config =
  aip_net :: ip_net
  aip_op :: allowed_ip_op

record peer_config =
  pc_name :: "string option"
  pc_public_key :: key
  pc_remove :: bool
  pc_update_only :: bool
  pc_preshared_key :: "key option"
  pc_endpoint :: "udp_addr option"
  pc_keepalive :: "int option"
  pc_replace_allowed_ips :: bool
  pc_allowed_ips :: "ip_net list"
  pc_allowed_ip_ops :: "allowed_ip_config list"

record config =
  c_private_key :: "key option"
  c_listen_port :: "int option"
  c_firewall_mark :: "int option"
  c_replace_peers :: bool
  c_peers :: "peer_config list"

definition zero_peer_config :: peer_config where
  "zero_peer_config = \<lparr>pc_name = None, pc_public_key = zero_key, pc_remove = False,
     pc_update_only = False, pc_preshared_key = None, pc_endpoint = None, pc_keepalive = None,
     pc_replace_allowed_ips = False, pc_allowed_ips = [], pc_allowed_ip_ops = []\<rparr>"

definition zero_config :: config where
  "zero_config = \<lparr>c_private_key = None, c_listen_port = None, c_firewall_mark = None,
     c_replace_peers = False, c_peers = []\<rparr>"

text \<open>
  The interface of internal/wginternal/client.go, with the environment the backend talks to
  as a state of type \<open>'s\<close>: each call may change it.
\<close>

record 's client =
  cl_close :: "'s \<Rightarrow> unit res \<times> 's"
  cl_devices :: "'s \<Rightarrow> device list res \<times> 's"
  cl_device :: "string \<Rightarrow> 's \<Rightarrow> device res \<times> 's"
  cl_configure :: "string \<Rightarrow> config \<Rightarrow> 's \<Rightarrow> unit res \<times> 's"

section \<open>Facts about keys\<close>

lemma parse_key_str [simp]: "wf_key k \<Longrightarrow> parse_key (key_str k) = Inr k"
  by (simp add: parse_key_def key_str_def new_key_def wf_key_def)

lemma parse_key_wf: "parse_key s = Inr k \<Longrightarrow> wf_key k"
  by (auto simp: parse_key_def new_key_def wf_key_def split: sum.splits if_splits)

lemma new_key_wf: "new_key b = Inr k \<Longrightarrow> wf_key k \<and> k = b"
  by (auto simp: new_key_def wf_key_def split: if_splits)

lemma key_str_inj: "wf_key k \<Longrightarrow> wf_key k' \<Longrightarrow> key_str k = key_str k' \<Longrightarrow> k = k'"
  by (metis parse_key_str sum.inject(2))

lemma wf_zero_key [simp]: "wf_key zero_key"
  by (simp add: wf_key_def zero_key_def)

lemma key_str_set: "set (key_str k) \<subseteq> insert (CHR ''='') (set b64_alphabet)"
  unfolding key_str_def by (rule set_b64_encode)

lemma key_str_graph: "c \<in> set (key_str k) \<Longrightarrow> graph c \<and> c \<noteq> CHR ''#''"
proof -
  assume "c \<in> set (key_str k)"
  moreover have "list_all (\<lambda>c. graph c \<and> c \<noteq> CHR ''#'') (CHR ''='' # b64_alphabet)" by code_simp
  ultimately show ?thesis using key_str_set [of k] by (auto simp: list_all_iff)
qed

lemma key_str_not_Nil: "wf_key k \<Longrightarrow> key_str k \<noteq> []"
  by (cases k rule: b64_encode.cases) (auto simp: wf_key_def key_len_def key_str_def Let_def)

section \<open>Private keys\<close>

text \<open>A key as the little-endian number that curve25519 takes it for.\<close>

fun key_nat :: "key \<Rightarrow> nat" where
  "key_nat [] = 0"
| "key_nat (b # bs) = unat b + 256 * key_nat bs"

lemma key_nat_bound: "key_nat k < 256 ^ length k"
proof (induction k)
  case (Cons b k)
  have "unat b < 256" by (rule unat_byte_less_256)
  moreover have "256 * key_nat k + 256 \<le> 256 * 256 ^ length k" using Cons by simp
  ultimately show ?case by simp
qed simp

lemma key_nat_append: "key_nat (a @ b) = key_nat a + 256 ^ length a * key_nat b"
  by (induction a) (simp_all add: algebra_simps)

lemma clamp_low: "unat ((b :: byte) AND 248) mod 8 = 0"
proof -
  have "take_bit 3 (b AND 248) = 0" by (simp add: take_bit_and)
  then have "take_bit 3 (unat (b AND 248)) = 0" by (metis unsigned_0 unsigned_take_bit_eq)
  then show ?thesis by (simp add: take_bit_eq_mod)
qed

lemma clamp_high: "64 \<le> unat (((b :: byte) AND 127) OR 64) \<and> unat ((b AND 127) OR 64) < 128"
proof
  have "64 \<le> (b AND 127) OR 64" using le_word_or2 [of 64 "b AND 127"] by (simp only: or.commute)
  then show "64 \<le> unat ((b AND 127) OR 64)" by (simp add: word_le_nat_alt)
  have low: "b AND 127 = take_bit 7 b" by (simp add: take_bit_eq_mask mask_eq_exp_minus_1)
  have "take_bit 7 ((b AND 127) OR 64) = (b AND 127) OR 64" unfolding low by (simp add: take_bit_or)
  then have "take_bit 7 (unat ((b AND 127) OR 64)) = unat ((b AND 127) OR 64)"
    by (metis unsigned_take_bit_eq)
  then show "unat ((b AND 127) OR 64) < 128"
    using take_bit_nat_less_exp [of 7 "unat ((b AND 127) OR 64)"] by simp
qed

lemma generate_private_key_shape:
  assumes "generate_private_key rand = Inr k"
  obtains b0 mid b31 where "k = ((b0 AND 248) # mid) @ [(b31 AND 127) OR 64]" and "length mid = 30"
proof -
  obtain k0 where k0: "generate_key rand = Inr k0" and k: "k = (let k1 = k0[0 := (k0 ! 0) AND 248];
      k2 = k1[31 := (k1 ! 31) AND 127]; k3 = k2[31 := (k2 ! 31) OR 64] in k3)"
    using assms by (auto simp: generate_private_key_def Let_def split: sum.splits)
  have "length k0 = 32"
    using k0 by (auto simp: generate_key_def new_key_def key_len_def split: sum.splits if_splits)
  then obtain b0 r where b0: "k0 = b0 # r" "length r = 31" by (cases k0) auto
  then obtain mid b31 where "r = mid @ [b31]" "length mid = 30" by (cases r rule: rev_cases) auto
  with b0 have "k = ((b0 AND 248) # mid) @ [(b31 AND 127) OR 64]"
    using k by (simp add: Let_def nth_append list_update_append numeral_eq_Suc)
  then show ?thesis using that \<open>length mid = 30\<close> by blast
qed

section \<open>Properties\<close>

text \<open>
  \<open>GeneratePrivateKey\<close> clamps: every key it returns has 32 bytes and is, as a
  little-endian number, a multiple of eight in \<open>[2^254, 2^255)\<close>.
\<close>

theorem private_key_clamped:
  assumes "generate_private_key rand = Inr k"
  shows "wf_key k \<and> key_nat k mod 8 = 0 \<and> 2 ^ 254 \<le> key_nat k \<and> key_nat k < 2 ^ 255"
proof -
  obtain b0 mid b31 where k: "k = ((b0 AND 248) # mid) @ [(b31 AND 127) OR 64]" and len: "length mid = 30"
    using generate_private_key_shape [OF assms] .
  let ?lo = "key_nat ((b0 AND 248) # mid)" and ?hi = "unat ((b31 AND 127) OR 64)"
  have n: "key_nat k = ?lo + 256 ^ 31 * ?hi" by (simp only: k key_nat_append) (simp add: len)
  have lo: "?lo < 256 ^ 31" using key_nat_bound [of "(b0 AND 248) # mid"] len by simp
  have hi: "64 \<le> ?hi" "?hi < 128" using clamp_high [of b31] by auto
  have "?lo mod 8 = 0" using clamp_low [of b0] by (simp add: mod_add_eq [symmetric])
  then have "key_nat k mod 8 = 0" unfolding n by (simp add: mod_add_eq [symmetric])
  moreover have "2 ^ 254 \<le> (256 :: nat) ^ 31 * ?hi" using mult_le_mono2 [OF hi(1), of "256 ^ 31"] by simp
  moreover have "(256 :: nat) ^ 31 * ?hi + 256 ^ 31 \<le> 2 ^ 255"
    using mult_le_mono2 [of "?hi + 1" 128 "256 ^ 31"] hi by simp
  moreover have "wf_key k" using len by (simp add: k wf_key_def key_len_def)
  ultimately show ?thesis using lo unfolding n by linarith
qed

theorem private_key_clamped_witness: "2 ^ 254 \<le> key_nat (replicate 31 0 @ [64])"
proof -
  have "generate_private_key (Inr (replicate 32 0)) = Inr (replicate 31 0 @ [64])" by code_simp
  from private_key_clamped [OF this] show ?thesis by blast
qed

text \<open>
  The text of a key and the key determine each other: \<open>ParseKey\<close> inverts \<open>String\<close>
  on keys, and everything it accepts is a key of 32 bytes.
\<close>

theorem key_text_round_trip:
  "(wf_key k \<longleftrightarrow> parse_key (key_str k) = Inr k) \<and> (\<forall>s. case parse_key s of Inl _ \<Rightarrow> True | Inr k' \<Rightarrow> wf_key k')"
  using parse_key_wf by (auto split: sum.split)

end
