(* ===== verification/GoJson.thy ===== *)
theory GoJson
  imports GoNet
begin

text \<open>
  \<open>encoding/json\<close> on a string value: \<open>json.Marshal(s)\<close> and
  \<open>json.Unmarshal(b, &s)\<close> into a string that is empty before the call.
\<close>

section \<open>Marshal\<close>

definition hex4 :: "nat \<Rightarrow> string" where
  "hex4 n = [digit_char (n div 4096 mod 16), digit_char (n div 256 mod 16),
             digit_char (n div 16 mod 16), digit_char (n mod 16)]"

text \<open>HTML escaping is on: \<open><\<close>, \<open>>\<close> and \<open>&\<close> are escaped, as are U+2028 and U+2029.\<close>

definition json_esc_char :: "char \<Rightarrow> string" where
  "json_esc_char c =
     (if c = CHR 0x22 \<or> c = CHR 0x5C then [CHR 0x5C, c]
      else if c = CHR 0x08 then [CHR 0x5C, CHR ''b'']
      else if c = CHR 0x0C then [CHR 0x5C, CHR ''f'']
      else if c = CHR 0x0A then [CHR 0x5C, CHR ''n'']
      else if c = CHR 0x0D then [CHR 0x5C, CHR ''r'']
      else if c = CHR 0x09 then [CHR 0x5C, CHR ''t'']
      else if code c < 0x20 \<or> c = CHR ''<'' \<or> c = CHR ''>'' \<or> c = CHR ''&''
        then CHR 0x5C # CHR ''u'' # hex4 (code c)
      else [c])"

fun json_esc :: "rune \<Rightarrow> string" where
  "json_esc (BadByte c) = CHR 0x5C # ''ufffd''"
| "json_esc (Rune [c]) = json_esc_char c"
| "json_esc (Rune s) =
     (if s = [CHR 0xE2, CHR 0x80, CHR 0xA8] then CHR 0x5C # ''u2028''
      else if s = [CHR 0xE2, CHR 0x80, CHR 0xA9] then CHR 0x5C # ''u2029''
      else s)"

definition json_quote :: "string \<Rightarrow> string" where
  "json_quote s = CHR 0x22 # concat (map json_esc (runes s)) @ [CHR 0x22]"

section \<open>Unmarshal\<close>

fun get_u4 :: "string \<Rightarrow> (nat \<times> string) option" where
  "get_u4 (a # b # c # d # s) =
     (case (hex_digit a, hex_digit b, hex_digit c, hex_digit d) of
        (Some w, Some x, Some y, Some z) \<Rightarrow> Some (w * 4096 + x * 256 + y * 16 + z, s)
      | _ \<Rightarrow> None)"
| "get_u4 _ = None"

definition simple_escape :: "char \<Rightarrow> char option" where
  "simple_escape e =
     (if e = CHR 0x22 \<or> e = CHR 0x5C \<or> e = CHR ''/'' then Some e
      else if e = CHR ''b'' then Some (CHR 0x08)
      else if e = CHR ''f'' then Some (CHR 0x0C)
      else if e = CHR ''n'' then Some (CHR 0x0A)
      else if e = CHR ''r'' then Some (CHR 0x0D)
      else if e = CHR ''t'' then Some (CHR 0x09)
      else None)"

text \<open>
  What one escape after \<open>\u\<close> stands for and where the text goes on: a pair of surrogate
  escapes is one rune, a lone surrogate is U+FFFD.
\<close>

definition u_escape :: "string \<Rightarrow> (string \<times> string) option" where
  "u_escape s =
     (case get_u4 s of
        None \<Rightarrow> None
      | Some (r, s2) \<Rightarrow>
          if 0xD800 \<le> r \<and> r < 0xE000 then
            (case s2 of
               a # b # s3 \<Rightarrow>
                 (if a = CHR 0x5C \<and> b = CHR ''u'' then
                    (case get_u4 s3 of
                       None \<Rightarrow> Some (replacement, s2)
                     | Some (r1, s4) \<Rightarrow>
                         if r < 0xDC00 \<and> 0xDC00 \<le> r1 \<and> r1 < 0xE000
                         then Some (encode_rune ((r - 0xD800) * 0x400 + (r1 - 0xDC00) + 0x10000), s4)
                         else Some (replacement, s2))
                  else Some (replacement, s2))
             | _ \<Rightarrow> Some (replacement, s2))
          else Some (encode_rune r, s2))"

lemma get_u4_length: "get_u4 s = Some (r, t) \<Longrightarrow> length t + 4 = length s"
  by (induction s rule: get_u4.induct) (auto split: option.splits)

lemma u_escape_length: "u_escape s = Some (r, t) \<Longrightarrow> length t < length s"
  by (auto simp: u_escape_def dest!: get_u4_length split: option.splits if_splits list.splits)

text \<open>
  The characters after the opening quote: the decoded text and what follows the closing
  quote. None is a syntax error.
\<close>

function json_body :: "string \<Rightarrow> (string \<times> string) option" where
  "json_body [] = None"
| "json_body (c # s) =
     (if c = CHR 0x22 then Some ([], s)
      else if c = CHR 0x5C then
        (case s of
           [] \<Rightarrow> None
         | e # s1 \<Rightarrow>
             (case (if e = CHR ''u'' then u_escape s1
                    else map_option (\<lambda>x. ([x], s1)) (simple_escape e)) of
                None \<Rightarrow> None
              | Some (r, s2) \<Rightarrow> map_option (\<lambda>(t, u). (r @ t, u)) (json_body s2)))
      else if code c < 0x20 then None
      else (case rune_len (c # s) of
          0 \<Rightarrow> map_option (\<lambda>(t, u). (replacement @ t, u)) (json_body s)
        | Suc n \<Rightarrow> map_option (\<lambda>(t, u). (c # take n s @ t, u)) (json_body (drop n s))))"
  by pat_completeness auto
termination
  by (relation "measure length") (auto split: if_splits dest: u_escape_length)

declare json_body.simps(2) [simp del]

definition json_space :: "char \<Rightarrow> bool" where
  "json_space c \<longleftrightarrow> c \<in> {CHR 0x20, CHR 0x09, CHR 0x0A, CHR 0x0D}"

text \<open>
  A \<open>null\<close> leaves the string as it was; every other value that is no string is an error.
\<close>

definition json_unmarshal_string :: "string \<Rightarrow> string res" where
  "json_unmarshal_string b =
     (let t = dropWhile json_space b
      in if prefix ''null'' t \<and> list_all json_space (drop 4 t) then Inr []
         else case t of
           [] \<Rightarrow> Inl (ErrText ''json'')
         | q # s \<Rightarrow>
             if q \<noteq> CHR 0x22 then Inl (ErrText ''json'')
             else (case json_body s of
               None \<Rightarrow> Inl (ErrText ''json'')
             | Some (r, u) \<Rightarrow>
                 if list_all json_space u then Inr r else Inl (ErrText ''json'')))"

section \<open>Round trip\<close>

lemma rune_len_take: "rune_len s = Suc n \<Longrightarrow> rune_len (take (Suc n) s @ t) = Suc n \<and> Suc n \<le> length s"
proof (cases s)
  case (Cons a s')
  assume len: "rune_len s = Suc n"
  then show ?thesis
    by (auto simp: Cons split: if_splits list.splits)
qed simp

lemma runes_valid_step:
  assumes "valid_string (c # s)"
  obtains n where "rune_len (c # s) = Suc n" and "n \<le> length s" and "valid_string (drop n s)"
  using assms rune_len_take [of "c # s"]
  by (cases "rune_len (c # s)") (auto simp: valid_string_def)

lemma get_u4_append: "get_u4 h = Some (r, []) \<Longrightarrow> get_u4 (h @ t) = Some (r, t)"
  by (induction h rule: get_u4.induct) (auto split: option.splits)

lemma u_escape_append:
  assumes "u_escape h = Some (e, [])" and "length h = 4" and "e \<noteq> replacement"
  shows "u_escape (h @ t) = Some (e, t)"
proof -
  from assms(1) obtain r u where g: "get_u4 h = Some (r, u)"
    by (auto simp: u_escape_def split: option.splits)
  with assms(2) have "u = []" using get_u4_length [OF g] by simp
  with g assms(1,3) have "\<not> (0xD800 \<le> r \<and> r < 0xE000)" "encode_rune r = e"
    by (auto simp: u_escape_def split: if_splits)
  with g \<open>u = []\<close> show ?thesis by (auto simp: u_escape_def get_u4_append)
qed

lemma ascii_all:
  assumes "list_all P (map char_of [0..<128::nat])" and "code c < 128"
  shows "P c"
proof -
  have "code c \<in> set [0..<128]" using assms(2) by simp
  then have "char_of (code c) \<in> set (map char_of [0..<128::nat])" by (metis image_eqI set_map)
  then have "c \<in> set (map char_of [0..<128::nat])" by simp
  with assms(1) show ?thesis by (simp only: list_all_iff)
qed

definition esc_ok :: "char \<Rightarrow> bool" where
  "esc_ok c \<longleftrightarrow>
     (json_esc_char c = [c] \<and> c \<noteq> CHR 0x22 \<and> c \<noteq> CHR 0x5C \<and> \<not> code c < 0x20)
     \<or> (length (json_esc_char c) = 2 \<and> hd (json_esc_char c) = CHR 0x5C
        \<and> json_esc_char c ! 1 \<noteq> CHR ''u'' \<and> simple_escape (json_esc_char c ! 1) = Some c)
     \<or> (length (json_esc_char c) = 6 \<and> take 2 (json_esc_char c) = CHR 0x5C # ''u''
        \<and> u_escape (drop 2 (json_esc_char c)) = Some ([c], []))"

lemma esc_ok: "code c < 0x80 \<Longrightarrow> esc_ok c"
  by (rule ascii_all [of esc_ok]) (code_simp, simp)

lemma json_body_esc_char:
  assumes "code c < 0x80"
  shows "json_body (json_esc_char c @ t) = map_option (\<lambda>(a, u). (c # a, u)) (json_body t)"
  using esc_ok [OF assms] unfolding esc_ok_def
proof (elim disjE)
  assume "json_esc_char c = [c] \<and> c \<noteq> CHR 0x22 \<and> c \<noteq> CHR 0x5C \<and> \<not> code c < 0x20"
  then show ?thesis using assms by (simp add: json_body.simps(2))
next
  assume *: "length (json_esc_char c) = 2 \<and> hd (json_esc_char c) = CHR 0x5C
        \<and> json_esc_char c ! 1 \<noteq> CHR ''u'' \<and> simple_escape (json_esc_char c ! 1) = Some c"
  then obtain a e where "json_esc_char c = [a, e]" by (auto simp: length_Suc_conv numeral_eq_Suc)
  with * show ?thesis by (simp add: json_body.simps(2))
next
  assume *: "length (json_esc_char c) = 6 \<and> take 2 (json_esc_char c) = CHR 0x5C # ''u''
        \<and> u_escape (drop 2 (json_esc_char c)) = Some ([c], [])"
  define h where "h = drop 2 (json_esc_char c)"
  have "json_esc_char c = (CHR 0x5C # ''u'') @ h"
    using * by (metis append_take_drop_id h_def)
  moreover have "u_escape (h @ t) = Some ([c], t)"
    using * by (intro u_escape_append) (auto simp: h_def replacement_def)
  ultimately show ?thesis by (simp add: json_body.simps(2))
qed

lemma rune_len_pos_cases:
  assumes "rune_len (c # s) = Suc n"
  shows "code c < 0x80 \<and> n = 0 \<or> 0xC2 \<le> code c \<and> 1 \<le> n \<and> n \<le> 3"
  using assms by (auto simp: between_def split: if_splits list.splits)

lemma u2028:
  "u_escape ''2028'' = Some ([CHR 0xE2, CHR 0x80, CHR 0xA8], [])"
  "u_escape ''2029'' = Some ([CHR 0xE2, CHR 0x80, CHR 0xA9], [])"
  by code_simp+

lemma json_body_multibyte:
  assumes len: "rune_len (c # s) = Suc n" and multi: "0 < n"
  shows "json_body (json_esc (Rune (c # take n s)) @ t) =
    map_option (\<lambda>(a, u). (c # take n s @ a, u)) (json_body t)"
proof -
  have n: "n \<le> length s" "0xC2 \<le> code c"
    using rune_len_take [OF len] rune_len_pos_cases [OF len] multi by auto
  have plain: "json_body ((c # take n s) @ t) =
    map_option (\<lambda>(a, u). (c # take n s @ a, u)) (json_body t)"
    using rune_len_take [OF len, of t] n by (auto simp: json_body.simps(2))
  obtain d ds where tk: "take n s = d # ds" using multi n(1) by (cases "take n s") auto
  have sep: "json_body (CHR 0x5C # ''u2028'' @ t) =
      map_option (\<lambda>(a, u). ([CHR 0xE2, CHR 0x80, CHR 0xA8] @ a, u)) (json_body t)"
    "json_body (CHR 0x5C # ''u2029'' @ t) =
      map_option (\<lambda>(a, u). ([CHR 0xE2, CHR 0x80, CHR 0xA9] @ a, u)) (json_body t)"
    using u_escape_append [of "''2028''" "[CHR 0xE2, CHR 0x80, CHR 0xA8]" t]
      u_escape_append [of "''2029''" "[CHR 0xE2, CHR 0x80, CHR 0xA9]" t] u2028
    by (simp_all add: json_body.simps(2) replacement_def)
  show ?thesis
    using plain sep by (auto simp: tk)
qed

lemma json_body_quote:
  "valid_string s \<Longrightarrow> json_body (concat (map json_esc (runes s)) @ CHR 0x22 # t) = Some (s, t)"
proof (induction s rule: length_induct)
  case (1 s)
  show ?case
  proof (cases s)
    case Nil
    then show ?thesis by (simp add: json_body.simps(2))
  next
    case (Cons c s')
    with "1.prems" obtain n where n: "rune_len (c # s') = Suc n" "n \<le> length s'" "valid_string (drop n s')"
      using runes_valid_step by metis
    have IH: "json_body (concat (map json_esc (runes (drop n s'))) @ CHR 0x22 # t) = Some (drop n s', t)"
      using "1.IH" n Cons by simp
    show ?thesis
    proof (cases "n = 0")
      case True
      then have "code c < 0x80" using rune_len_pos_cases [OF n(1)] by auto
      then show ?thesis using IH True json_body_esc_char by (simp add: Cons)
    next
      case False
      then show ?thesis
        using IH json_body_multibyte [OF n(1)] n(1) by (simp add: Cons)
    qed
  qed
qed

lemma json_unmarshal_quote: "valid_string s \<Longrightarrow> json_unmarshal_string (json_quote s) = Inr s"
  by (simp add: json_unmarshal_string_def json_quote_def json_body_quote json_space_def)

lemma json_esc_char_set:
  "code c < 0x80 \<Longrightarrow> CHR 0x0A \<notin> set (json_esc_char c) \<and> CHR 0x0D \<notin> set (json_esc_char c)"
  by (rule ascii_all [of "\<lambda>c. CHR 0x0A \<notin> set (json_esc_char c) \<and> CHR 0x0D \<notin> set (json_esc_char c)"])
     (code_simp, simp)

end
