(* ===== verification/WgConfig.thy ===== *)
theory WgConfig
  imports WgTypes GoJson
begin

text \<open>
  internal/wgconfig: the reader of wg(8) configuration files (parse.go) and the writer of
  \<open>wg showconf\<close> output (encode.go).
\<close>

section \<open>Parsing fields\<close>

text \<open>
  A computation that may not return: None is the run that never ends (an endpoint lookup
  retried for ever), \<open>Some\<close> its result or error.
\<close>

type_synonym 'a outcome = "'a res option"

definition bind_out :: "'a outcome \<Rightarrow> ('a \<Rightarrow> 'b outcome) \<Rightarrow> 'b outcome" where
  "bind_out r k =
     (case r of None \<Rightarrow> None | Some (Inl e) \<Rightarrow> Some (Inl e) | Some (Inr x) \<Rightarrow> k x)"

definition peer_name_comment :: "string \<Rightarrow> string option" where
  "peer_name_comment raw =
     (let line = trim_space raw; pre = ''# wgctrl-peer-name''
      in if \<not> prefix pre line then None
         else (let rest = trim_space (drop (length pre) line)
               in if \<not> prefix ''='' rest then None else Some (trim_space (tl rest))))"

definition validate_peer_name :: "string \<Rightarrow> unit res" where
  "validate_peer_name name =
     (if \<not> valid_string name then Inl (ErrText ''invalid UTF-8'')
      else if 255 < length name then Inl (ErrText ''name is longer than 255 bytes'')
      else if list_ex (\<lambda>c. c \<in> set [CHR 0x00, CHR 0x0D, CHR 0x0A]) name
        then Inl (ErrText ''name contains a forbidden control character'')
      else Inr ())"

definition clean_line :: "string \<Rightarrow> string" where
  "clean_line inp =
     (let s = (case cut_at (CHR ''#'') inp of None \<Rightarrow> inp | Some (a, b) \<Rightarrow> a)
      in strings_Map (\<lambda>r. if r \<in> set [[CHR 0x20], [CHR 0x09], [CHR 0x0A], [CHR 0x0B],
                                     [CHR 0x0C], [CHR 0x0D]] then [] else r) s)"

definition conf_parse_key :: "string \<Rightarrow> key res" where
  "conf_parse_key value =
     (case parse_key value of
        Inl e \<Rightarrow> Inl e
      | Inr k \<Rightarrow> if key_str k \<noteq> value then Inl (ErrText ''non-canonical key'') else Inr k)"

definition field_err :: "nat \<Rightarrow> string \<Rightarrow> go_error \<Rightarrow> go_error" where
  "field_err line field e = ErrLine line (ErrWrap field e)"

definition conf_parse_uint :: "string \<Rightarrow> nat \<Rightarrow> nat res" where
  "conf_parse_uint value mx =
     (if value = [] \<or> prefix ''+'' value \<or> prefix ''-'' value then Inl (ErrText ''invalid number'')
      else case parse_uint 10 64 value of
        Inl e \<Rightarrow> Inl (ErrText ''out of range'')
      | Inr v \<Rightarrow> if mx < v then Inl (ErrText ''out of range'') else Inr v)"

definition conf_parse_uint_or_off :: "string \<Rightarrow> nat \<Rightarrow> nat res" where
  "conf_parse_uint_or_off value mx =
     (if equal_fold value ''off'' then Inr 0 else conf_parse_uint value mx)"

definition conf_parse_fwmark :: "string \<Rightarrow> nat res" where
  "conf_parse_fwmark value =
     (if equal_fold value ''off'' then Inr 0
      else if prefix ''0x'' value then
        (if length value = 2 then Inl (ErrText ''invalid hexadecimal mark'')
         else parse_uint 16 32 (drop 2 value))
      else conf_parse_uint value (2 ^ 32 - 1))"

text \<open>One entry of an AllowedIPs list: the configured network and whether it is incremental.\<close>

definition parse_allowed_ip :: "string \<Rightarrow> (allowed_ip_config \<times> bool) res" where
  "parse_allowed_ip part0 =
     (case trim_space part0 of
        [] \<Rightarrow> Inl (ErrText ''empty entry'')
      | c # rest \<Rightarrow>
          (let incr = (c = CHR ''+'' \<or> c = CHR ''-'');
               op = (if c = CHR ''+'' then AllowedIPAdd
                     else if c = CHR ''-'' then AllowedIPRemove else AllowedIPSet);
               part = (if incr then rest else c # rest)
           in case parse_cidr part of
                Inr (i, n) \<Rightarrow> Inr (\<lparr>aip_net = n\<lparr>net_ip := i\<rparr>, aip_op = op\<rparr>, incr)
              | Inl e \<Rightarrow>
                  if CHR ''/'' \<in> set part then Inl e
                  else (case parse_ip part of
                    None \<Rightarrow> Inl e
                  | Some i \<Rightarrow>
                      (let bits = (if to4 i \<noteq> None then 32 else 128)
                       in Inr (\<lparr>aip_net = \<lparr>net_ip = i, net_mask = cidr_mask bits bits\<rparr>,
                                 aip_op = op\<rparr>, incr)))))"

definition parse_allowed_ips :: "string \<Rightarrow> (allowed_ip_config list \<times> bool) res" where
  "parse_allowed_ips value =
     (if value = [] then Inr ([], False)
      else case map_res parse_allowed_ip (split_on (CHR '','') value) of
        Inl e \<Rightarrow> Inl e
      | Inr rs \<Rightarrow> Inr (map fst rs, list_ex snd rs))"

section \<open>Resolving endpoints\<close>

text \<open>
  A failed lookup: a \<open>net.DNSError\<close> with its \<open>IsNotFound\<close>, \<open>IsTemporary\<close> and
  \<open>IsTimeout\<close> flags, or another error.
\<close>

datatype lookup_error = DNSError bool bool bool | OtherLookupError go_error

fun lookup_go_error :: "lookup_error \<Rightarrow> go_error" where
  "lookup_go_error (DNSError nf tmp tmo) = ErrText ''lookup''"
| "lookup_go_error (OtherLookupError e) = e"

text \<open>
  The environment of the resolver: the variable \<open>WG_ENDPOINT_RESOLUTION_RETRIES\<close>, the
  operating system's services, and what the n-th address lookup of a host name gives.
\<close>

record endpoint_env =
  ev_retries :: "string option"
  ev_resolver :: resolver
  ev_lookup_ips :: "nat \<Rightarrow> string \<Rightarrow> lookup_error + ip list"

definition split_endpoint :: "string \<Rightarrow> (string \<times> string) res" where
  "split_endpoint value =
     (if prefix ''['' value then split_host_port value
      else case cut_last (CHR '':'') value of
        None \<Rightarrow> Inl (ErrText ''missing port in address'')
      | Some (h, p) \<Rightarrow> Inr (h, p))"

fun permanent_endpoint_error :: "lookup_error \<Rightarrow> bool" where
  "permanent_endpoint_error (OtherLookupError e) = True"
| "permanent_endpoint_error (DNSError not_found temporary timeout) =
     (not_found \<or> \<not> temporary \<and> \<not> timeout)"

definition min_duration :: "int \<Rightarrow> int \<Rightarrow> int" where
  "min_duration a b = (if a < b then a else b)"

definition endpoint_resolution_retries :: "string option \<Rightarrow> int res" where
  "endpoint_resolution_retries var =
     (case var of
        None \<Rightarrow> Inr 15
      | Some value \<Rightarrow>
          if value = ''infinity'' then Inr (- 1)
          else
            (let number = (if prefix ''+'' value then tl value else value)
             in case parse_uint 10 31 number of
                  Inl e \<Rightarrow> Inl (ErrText ''unable to parse WG_ENDPOINT_RESOLUTION_RETRIES'')
                | Inr v \<Rightarrow> Inr (int v)))"

text \<open>
  The retry loop: the result with the durations it slept, newest last. It need not end when
  \<open>retries\<close> is negative.
\<close>

partial_function (option) resolve_loop ::
  "(nat \<Rightarrow> string \<Rightarrow> lookup_error + ip list) \<Rightarrow> string \<Rightarrow> int \<Rightarrow> nat \<Rightarrow> int \<Rightarrow> int
   \<Rightarrow> (udp_addr res \<times> int list) option" where
  "resolve_loop ips host port k retries backoff =
     (case ips k host of
        Inr [] \<Rightarrow> Some (Inl (ErrText ''no IPv4 or IPv6 address''), [])
      | Inr (i # _) \<Rightarrow> Some (Inr \<lparr>ua_ip = i, ua_port = port, ua_zone = []\<rparr>, [])
      | Inl e \<Rightarrow>
          if permanent_endpoint_error e \<or> retries = 0 then Some (Inl (lookup_go_error e), [])
          else Option.bind
            (resolve_loop ips host port (Suc k) (if 0 < retries then retries - 1 else retries)
               (min_duration (20 * second) (tdiv (backoff * 6) 5)))
            (\<lambda>(r, slept). Some (r, backoff # slept)))"

definition resolve_endpoint :: "endpoint_env \<Rightarrow> string \<Rightarrow> udp_addr outcome" where
  "resolve_endpoint ev value =
     (case endpoint_resolution_retries (ev_retries ev) of
        Inl e \<Rightarrow> Some (Inl e)
      | Inr retries \<Rightarrow>
          if value = [] then Some (Inl (ErrText ''empty endpoint''))
          else case split_endpoint value of
            Inl e \<Rightarrow> Some (Inl e)
          | Inr (host, port_text) \<Rightarrow>
              (case lookup_port (ev_resolver ev) port_text of
                 Inl e \<Rightarrow> Some (Inl e)
               | Inr port \<Rightarrow>
                   (case (case cut_last (CHR ''%'') host of
                            None \<Rightarrow> None
                          | Some (h, z) \<Rightarrow>
                              map_option (\<lambda>i. \<lparr>ua_ip = i, ua_port = port, ua_zone = z\<rparr>) (parse_ip h)) of
                      Some a \<Rightarrow> Some (Inr a)
                    | None \<Rightarrow>
                        (case parse_ip host of
                           Some i \<Rightarrow> Some (Inr \<lparr>ua_ip = i, ua_port = port, ua_zone = []\<rparr>)
                         | None \<Rightarrow>
                             map_option fst
                               (resolve_loop (ev_lookup_ips ev) host port 0 retries second)))))"

section \<open>Parsing a file\<close>

text \<open>
  The local variables of \<open>Parse\<close>. The pointer \<open>peer\<close> is nil or addresses the last
  element of \<open>cfg.Peers\<close>; \<open>ps_peer\<close> says which.
\<close>

record parse_state =
  ps_cfg :: config
  ps_section :: string
  ps_peer :: bool
  ps_has_public_key :: "bool list"
  ps_has_name :: bool

definition update_last :: "('a \<Rightarrow> 'a) \<Rightarrow> 'a list \<Rightarrow> 'a list" where
  "update_last f xs = (if xs = [] then [] else butlast xs @ [f (last xs)])"

definition update_peer :: "(peer_config \<Rightarrow> peer_config) \<Rightarrow> parse_state \<Rightarrow> parse_state" where
  "update_peer f st =
     st\<lparr>ps_cfg := (ps_cfg st)\<lparr>c_peers := update_last f (c_peers (ps_cfg st))\<rparr>\<rparr>"

definition init_state :: "bool \<Rightarrow> parse_state" where
  "init_state append_mode =
     \<lparr>ps_cfg = (if append_mode then zero_config
                else zero_config\<lparr>c_private_key := Some zero_key, c_listen_port := Some 0,
                       c_firewall_mark := Some 0, c_replace_peers := True\<rparr>),
      ps_section = [], ps_peer = False, ps_has_public_key = [], ps_has_name = False\<rparr>"

definition parse_name_line :: "nat \<Rightarrow> string \<Rightarrow> parse_state \<Rightarrow> parse_state res" where
  "parse_name_line n encoded st =
     (if ps_section st \<noteq> ''peer'' \<or> \<not> ps_peer st
        then Inl (ErrLine n (ErrText ''peer name outside a Peer section''))
      else if ps_has_name st then Inl (ErrLine n (ErrText ''duplicate peer name''))
      else case json_unmarshal_string encoded of
        Inl e \<Rightarrow> Inl (ErrLine n (ErrWrap ''invalid peer name'' e))
      | Inr name \<Rightarrow>
          (case validate_peer_name name of
             Inl e \<Rightarrow> Inl (ErrLine n (ErrWrap ''invalid peer name'' e))
           | Inr _ \<Rightarrow>
               Inr ((update_peer (\<lambda>p. p\<lparr>pc_name := Some name\<rparr>) st)\<lparr>ps_has_name := True\<rparr>)))"

definition parse_section :: "nat \<Rightarrow> string \<Rightarrow> parse_state \<Rightarrow> parse_state res" where
  "parse_section n line st =
     (let name = to_lower (butlast (tl line))
      in if name = ''interface'' then
           Inr (st\<lparr>ps_section := ''interface'', ps_peer := False, ps_has_name := False\<rparr>)
         else if name = ''peer'' then
           Inr (st\<lparr>ps_cfg := (ps_cfg st)\<lparr>c_peers := c_peers (ps_cfg st)
                       @ [zero_peer_config\<lparr>pc_replace_allowed_ips := True\<rparr>]\<rparr>,
                   ps_has_public_key := ps_has_public_key st @ [False],
                   ps_peer := True, ps_section := ''peer'', ps_has_name := False\<rparr>)
         else Inl (ErrLine n (ErrText ''unknown section'')))"

definition parse_interface_field ::
  "nat \<Rightarrow> string \<Rightarrow> string \<Rightarrow> parse_state \<Rightarrow> parse_state res" where
  "parse_interface_field n key value st =
     (if key = ''privatekey'' then
        (case conf_parse_key value of
           Inl e \<Rightarrow> Inl (field_err n ''PrivateKey'' e)
         | Inr v \<Rightarrow> Inr (st\<lparr>ps_cfg := (ps_cfg st)\<lparr>c_private_key := Some v\<rparr>\<rparr>))
      else if key = ''listenport'' then
        (case conf_parse_uint value 65535 of
           Inl e \<Rightarrow> Inl (field_err n ''ListenPort'' e)
         | Inr v \<Rightarrow> Inr (st\<lparr>ps_cfg := (ps_cfg st)\<lparr>c_listen_port := Some (int v)\<rparr>\<rparr>))
      else if key = ''fwmark'' then
        (case conf_parse_fwmark value of
           Inl e \<Rightarrow> Inl (field_err n ''FwMark'' e)
         | Inr v \<Rightarrow> Inr (st\<lparr>ps_cfg := (ps_cfg st)\<lparr>c_firewall_mark := Some (int v)\<rparr>\<rparr>))
      else Inl (ErrLine n (ErrText ''unknown interface field'')))"

definition parse_peer_field ::
  "endpoint_env \<Rightarrow> nat \<Rightarrow> string \<Rightarrow> string \<Rightarrow> parse_state \<Rightarrow> parse_state outcome" where
  "parse_peer_field ev n key value st =
     (if key = ''publickey'' then
        (case conf_parse_key value of
           Inl e \<Rightarrow> Some (Inl (field_err n ''PublicKey'' e))
         | Inr v \<Rightarrow>
             Some (Inr ((update_peer (\<lambda>p. p\<lparr>pc_public_key := v\<rparr>) st)
               \<lparr>ps_has_public_key := update_last (\<lambda>_. True) (ps_has_public_key st)\<rparr>)))
      else if key = ''presharedkey'' then
        (case conf_parse_key value of
           Inl e \<Rightarrow> Some (Inl (field_err n ''PresharedKey'' e))
         | Inr v \<Rightarrow> Some (Inr (update_peer (\<lambda>p. p\<lparr>pc_preshared_key := Some v\<rparr>) st)))
      else if key = ''endpoint'' then
        (case resolve_endpoint ev value of
           None \<Rightarrow> None
         | Some (Inl e) \<Rightarrow> Some (Inl (field_err n ''Endpoint'' e))
         | Some (Inr v) \<Rightarrow> Some (Inr (update_peer (\<lambda>p. p\<lparr>pc_endpoint := Some v\<rparr>) st)))
      else if key = ''allowedips'' then
        (case parse_allowed_ips value of
           Inl e \<Rightarrow> Some (Inl (field_err n ''AllowedIPs'' e))
         | Inr (ops, incremental) \<Rightarrow>
             Some (Inr (update_peer (\<lambda>p. p\<lparr>pc_replace_allowed_ips := \<not> incremental,
                 pc_allowed_ip_ops := pc_allowed_ip_ops p @ ops\<rparr>) st)))
      else if key = ''persistentkeepalive'' then
        (case conf_parse_uint_or_off value 65535 of
           Inl e \<Rightarrow> Some (Inl (field_err n ''PersistentKeepalive'' e))
         | Inr v \<Rightarrow> Some (Inr (update_peer (\<lambda>p. p\<lparr>pc_keepalive := Some (int v * second)\<rparr>) st)))
      else Some (Inl (ErrLine n (ErrText ''unknown peer field''))))"

text \<open>One turn of the scanner loop: the line number, the raw line and the variables.\<close>

definition parse_line ::
  "endpoint_env \<Rightarrow> nat \<Rightarrow> string \<Rightarrow> parse_state \<Rightarrow> parse_state outcome" where
  "parse_line ev n raw st =
     (case peer_name_comment raw of
        Some encoded \<Rightarrow> Some (parse_name_line n encoded st)
      | None \<Rightarrow>
          (let line = clean_line raw
           in if line = [] then Some (Inr st)
              else if prefix ''['' line \<and> suffix '']'' line then
                Some (parse_section n line st)
              else case cut_at (CHR ''='') line of
                None \<Rightarrow> Some (Inl (ErrLine n (ErrText ''invalid configuration line'')))
              | Some (key0, value) \<Rightarrow>
                  (let key = to_lower key0
                   in if ps_section st = ''interface'' then
                        Some (parse_interface_field n key value st)
                      else if ps_section st = ''peer'' \<and> ps_peer st then
                        parse_peer_field ev n key value st
                      else Some (Inl (ErrLine n (ErrText ''field outside a section''))))))"

fun parse_lines ::
  "endpoint_env \<Rightarrow> nat \<Rightarrow> string list \<Rightarrow> parse_state \<Rightarrow> parse_state outcome" where
  "parse_lines ev n [] st = Some (Inr st)"
| "parse_lines ev n (l # ls) st =
     bind_out (parse_line ev n l st) (parse_lines ev (Suc n) ls)"

definition parse_finish :: "go_error option \<Rightarrow> parse_state \<Rightarrow> config outcome" where
  "parse_finish err st =
     (case err of
        Some e \<Rightarrow> Some (Inl (ErrWrap ''read configuration'' e))
      | None \<Rightarrow>
          if list_all id (ps_has_public_key st) then Some (Inr (ps_cfg st))
          else Some (Inl (ErrText ''peer missing PublicKey'')))"

definition max_line :: nat where
  "max_line = 1024 * 1024"

definition parse :: "endpoint_env \<Rightarrow> reader \<Rightarrow> bool \<Rightarrow> config outcome" where
  "parse ev r append_mode =
     (case scan_lines max_line r of
        (ls, err) \<Rightarrow>
          bind_out (parse_lines ev 1 ls (init_state append_mode)) (parse_finish err))"

section \<open>Writing a configuration\<close>

text \<open>
  encode.go. The writer is assumed not to fail; what has been written when the function
  returns, with or without an error, is part of the result.
\<close>

type_synonym written = "string \<times> go_error option"

definition nl :: string where
  "nl = [CHR 0x0A]"

definition format_endpoint :: "udp_addr \<Rightarrow> string" where
  "format_endpoint a =
     (let host = ip_str (ua_ip a);
          host' = (if ua_zone a \<noteq> [] then host @ ''%'' @ ua_zone a else host)
      in join_host_port host' (itoa (ua_port a)))"

definition encode_peer_name :: "peer \<Rightarrow> string res" where
  "encode_peer_name p =
     (case p_name p of
        None \<Rightarrow> Inr []
      | Some name \<Rightarrow>
          if name = [] then Inr []
          else (case validate_peer_name name of
            Inl e \<Rightarrow> Inl (ErrWrap ''invalid peer name'' e)
          | Inr _ \<Rightarrow> Inr (''# wgctrl-peer-name = '' @ json_quote name @ nl)))"

definition encode_peer :: "peer \<Rightarrow> written" where
  "encode_peer p =
     (case encode_peer_name p of
        Inl e \<Rightarrow> (''[Peer]'' @ nl, Some e)
      | Inr name_line \<Rightarrow>
          (''[Peer]'' @ nl @ name_line
           @ ''PublicKey = '' @ key_str (p_public_key p) @ nl
           @ (if p_has_preshared_key p
              then ''PresharedKey = '' @ key_str (p_preshared_key p) @ nl else [])
           @ (if p_allowed_ips p \<noteq> []
              then ''AllowedIPs = '' @ join '', '' (map ip_net_str (p_allowed_ips p)) @ nl else [])
           @ (case p_endpoint p of
                Some a \<Rightarrow>
                  if p_has_endpoint p \<and> (to4 (ua_ip a) \<noteq> None \<or> to16 (ua_ip a) \<noteq> None)
                  then ''Endpoint = '' @ format_endpoint a @ nl else []
              | None \<Rightarrow> [])
           @ (if p_keepalive p \<noteq> 0
              then ''PersistentKeepalive = '' @ int_str 10 (tdiv (p_keepalive p) second) @ nl else []),
           None))"

fun encode_peers :: "bool \<Rightarrow> peer list \<Rightarrow> written" where
  "encode_peers first [] = ([], None)"
| "encode_peers first (p # ps) =
     (let sep = (if first then [] else nl)
      in case encode_peer p of
           (w, Some e) \<Rightarrow> (sep @ w, Some e)
         | (w, None) \<Rightarrow> (case encode_peers False ps of (w', e) \<Rightarrow> (sep @ w @ w', e)))"

definition encode_interface :: "device \<Rightarrow> string" where
  "encode_interface d =
     ''[Interface]'' @ nl
     @ (if d_listen_port d \<noteq> 0 then ''ListenPort = '' @ int_str 10 (d_listen_port d) @ nl else [])
     @ (if d_firewall_mark d \<noteq> 0 then ''FwMark = 0x'' @ int_str 16 (d_firewall_mark d) @ nl else [])
     @ (if d_has_private_key d then ''PrivateKey = '' @ key_str (d_private_key d) @ nl else [])
     @ nl"

definition encode :: "device \<Rightarrow> written" where
  "encode d = (case encode_peers True (d_peers d) of (w, e) \<Rightarrow> (encode_interface d @ w, e))"

text \<open>\<open>strings.SplitAfter(s, "\n")\<close>, and the two sides of the first \<open>" = "\<close>.\<close>

fun split_after_nl :: "string \<Rightarrow> string list" where
  "split_after_nl [] = [[]]"
| "split_after_nl (c # s) =
     (if c = CHR 0x0A then [c] # split_after_nl s
      else (case split_after_nl s of l # ls \<Rightarrow> (c # l) # ls | [] \<Rightarrow> [[c]]))"

fun cut_eq :: "string \<Rightarrow> (string \<times> string) option" where
  "cut_eq [] = None"
| "cut_eq (c # s) =
     (if prefix '' = '' (c # s) then Some ([], drop 3 (c # s))
      else map_option (\<lambda>(a, b). (c # a, b)) (cut_eq s))"

definition ansi :: "string \<Rightarrow> string" where
  "ansi sgr = CHR 0x1B # CHR ''['' # sgr @ ''m''"

definition colour_line :: "string \<Rightarrow> string" where
  "colour_line line =
     (let trimmed = (if suffix nl line then butlast line else line);
          suff = (if prefix trimmed line then drop (length trimmed) line else line);
          coloured =
            (if prefix ''['' trimmed then ansi ''36;1'' @ trimmed @ ansi ''0''
             else case cut_eq trimmed of
               Some (a, b) \<Rightarrow> ansi ''1'' @ a @ ansi ''0'' @ '' = '' @ ansi ''32'' @ b @ ansi ''0''
             | None \<Rightarrow> trimmed)
      in coloured @ suff)"

definition encode_color :: "device \<Rightarrow> bool \<Rightarrow> written" where
  "encode_color d color =
     (if \<not> color then encode d
      else case encode d of
        (_, Some e) \<Rightarrow> ([], Some e)
      | (t, None) \<Rightarrow> (concat (map colour_line (split_after_nl t)), None))"

section \<open>Facts about lines and values\<close>

definition blank :: "char \<Rightarrow> bool" where
  "blank c \<longleftrightarrow> c \<in> set [CHR 0x20, CHR 0x09, CHR 0x0A, CHR 0x0B, CHR 0x0C, CHR 0x0D]"

lemma clean_line_ascii:
  assumes "ascii s" and "CHR ''#'' \<notin> set s"
  shows "clean_line s = filter (\<lambda>c. \<not> blank c) s"
proof -
  have "concat (map (\<lambda>c. if [c] \<in> set [[CHR 0x20], [CHR 0x09], [CHR 0x0A], [CHR 0x0B],
          [CHR 0x0C], [CHR 0x0D]] then [] else [c]) s) = filter (\<lambda>c. \<not> blank c) s" for s
    by (induction s) (auto simp: blank_def)
  with assms show ?thesis
    by (simp only: clean_line_def Let_def cut_at_None option.case strings_Map_ascii if_False not_False_eq_True)
qed

lemma graph_not_blank: "graph c \<Longrightarrow> \<not> blank c"
  by (auto simp: graph_def blank_def between_def)

lemma graph_ascii: "\<forall>c \<in> set s. graph c \<or> c = CHR 0x20 \<Longrightarrow> ascii s"
  by (fastforce simp: ascii_def graph_def between_def)

lemma trim_left_graph: "graph c \<Longrightarrow> trim_left (c # s) = c # s"
  unfolding trim_left_def by (rule strip_any_graph) (simp_all add: unicode_spaces_def graph_def between_def)

lemma trim_space_graph_last:
  "graph c \<Longrightarrow> s = [] \<or> graph (last s) \<Longrightarrow> trim_space (c # s) = c # s"
  by (rule trim_space_graph) auto

text \<open>A field name: letters, so no separator, bracket or comment sign.\<close>

definition field_name :: "string \<Rightarrow> bool" where
  "field_name f \<longleftrightarrow> f \<noteq> [] \<and> list_all (\<lambda>c. graph c \<and> c \<noteq> CHR ''#'' \<and> c \<noteq> CHR ''='' \<and> c \<noteq> CHR ''['') f"

definition value_text :: "string \<Rightarrow> bool" where
  "value_text v \<longleftrightarrow> v \<noteq> [] \<and> graph (last v) \<and> list_all (\<lambda>c. (graph c \<or> c = CHR 0x20) \<and> c \<noteq> CHR ''#'') v"

lemma field_line:
  assumes f: "field_name f" and v: "value_text v"
  shows "peer_name_comment (f @ '' = '' @ v) = None"
    and "clean_line (f @ '' = '' @ v) = f @ CHR ''='' # filter (\<lambda>c. \<not> blank c) v"
proof -
  obtain c f' where fc: "f = c # f'" "graph c" "c \<noteq> CHR ''#''"
    using f by (cases f) (auto simp: field_name_def)
  have "trim_space (f @ '' = '' @ v) = f @ '' = '' @ v"
    using fc v by (auto simp: value_text_def intro: trim_space_graph_last)
  then show "peer_name_comment (f @ '' = '' @ v) = None"
    using fc by (simp add: peer_name_comment_def Let_def)
  have asc: "ascii f" "ascii v"
    using f v by (auto intro!: graph_ascii simp: field_name_def value_text_def list_all_iff)
  have hash: "CHR ''#'' \<notin> set f" "CHR ''#'' \<notin> set v"
    using f v by (auto simp: field_name_def value_text_def list_all_iff)
  have ff: "filter (\<lambda>c. \<not> blank c) f = f"
    using f by (auto simp: field_name_def list_all_iff graph_not_blank filter_id_conv)
  have asc': "ascii (f @ '' = '' @ v)"
    using asc by simp
  have hash': "CHR ''#'' \<notin> set (f @ '' = '' @ v)"
    using hash by simp
  show "clean_line (f @ '' = '' @ v) = f @ CHR ''='' # filter (\<lambda>c. \<not> blank c) v"
    by (subst clean_line_ascii [OF asc' hash']) (simp add: ff, simp add: blank_def)
qed

lemma parse_line_field:
  assumes f: "field_name f" and v: "value_text v"
  shows "parse_line ev n (f @ '' = '' @ v) st =
    (let key = to_lower f; value = filter (\<lambda>c. \<not> blank c) v
     in if ps_section st = ''interface'' then Some (parse_interface_field n key value st)
        else if ps_section st = ''peer'' \<and> ps_peer st then parse_peer_field ev n key value st
        else Some (Inl (ErrLine n (ErrText ''field outside a section''))))"
proof -
  have "CHR ''='' \<notin> set f" "f \<noteq> []" "hd f \<noteq> CHR ''[''"
    using f by (auto simp: field_name_def list_all_iff)
  moreover from this have "\<not> prefix ''['' (f @ s)" for s by (cases f) auto
  ultimately show ?thesis
    by (simp add: parse_line_def field_line [OF f v, simplified] Let_def)
qed

lemma parse_line_section:
  "parse_line ev n ''[Interface]'' st =
     Some (Inr (st\<lparr>ps_section := ''interface'', ps_peer := False, ps_has_name := False\<rparr>))"
  "parse_line ev n ''[Peer]'' st =
     Some (Inr (st\<lparr>ps_cfg := (ps_cfg st)\<lparr>c_peers := c_peers (ps_cfg st)
                     @ [zero_peer_config\<lparr>pc_replace_allowed_ips := True\<rparr>]\<rparr>,
                   ps_has_public_key := ps_has_public_key st @ [False],
                   ps_peer := True, ps_section := ''peer'', ps_has_name := False\<rparr>))"
  "parse_line ev n [] st = Some (Inr st)"
proof -
  have nc: "peer_name_comment ''[Interface]'' = None" "peer_name_comment ''[Peer]'' = None"
    "peer_name_comment [] = None" by code_simp+
  have cl: "clean_line ''[Interface]'' = ''[Interface]''" "clean_line ''[Peer]'' = ''[Peer]''"
    "clean_line [] = []"  by code_simp+
  have low: "to_lower ''Interface'' = ''interface''" "to_lower ''Peer'' = ''peer''" by code_simp+
  show "parse_line ev n ''[Interface]'' st =
     Some (Inr (st\<lparr>ps_section := ''interface'', ps_peer := False, ps_has_name := False\<rparr>))"
    "parse_line ev n ''[Peer]'' st =
     Some (Inr (st\<lparr>ps_cfg := (ps_cfg st)\<lparr>c_peers := c_peers (ps_cfg st)
                     @ [zero_peer_config\<lparr>pc_replace_allowed_ips := True\<rparr>]\<rparr>,
                   ps_has_public_key := ps_has_public_key st @ [False],
                   ps_peer := True, ps_section := ''peer'', ps_has_name := False\<rparr>))"
    "parse_line ev n [] st = Some (Inr st)"
    by (simp_all add: parse_line_def nc cl parse_section_def low suffix_def)
qed


text \<open>The values \<open>Encode\<close> writes, read back.\<close>

definition plain :: "char set" where
  "plain = set ''-.:,/0123456789abcdefx''"

lemma plain_graph: "c \<in> plain \<Longrightarrow> graph c \<and> c \<noteq> CHR ''#''"
proof -
  assume "c \<in> plain"
  moreover have "list_all (\<lambda>c. graph c \<and> c \<noteq> CHR ''#'') ''-.:,/0123456789abcdefx''" by code_simp
  ultimately show ?thesis unfolding list_all_iff plain_def by blast
qed

lemma plain_sets:
  "set ''0123456789'' \<subseteq> plain" "digit_set \<subseteq> plain" "set ''.:0123456789abcdef'' \<subseteq> plain"
  "CHR ''0'' \<in> plain" "CHR ''x'' \<in> plain" "CHR '','' \<in> plain" "CHR ''/'' \<in> plain"
  by (auto simp: plain_def digit_set_def)

lemma value_text_graph:
  assumes "s \<noteq> []" and "\<And>c. c \<in> set s \<Longrightarrow> graph c \<and> c \<noteq> CHR ''#''"
  shows "value_text s" and "filter (\<lambda>c. \<not> blank c) s = s"
  using assms by (auto simp: value_text_def list_all_iff filter_id_conv graph_not_blank)

lemma key_value: "wf_key k \<Longrightarrow> value_text (key_str k) \<and> filter (\<lambda>c. \<not> blank c) (key_str k) = key_str k"
  using value_text_graph [of "key_str k"] key_str_not_Nil key_str_graph by blast

lemma conf_parse_key_str: "wf_key k \<Longrightarrow> conf_parse_key (key_str k) = Inr k"
  by (simp add: conf_parse_key_def)

lemma int_str_nat: "0 \<le> i \<Longrightarrow> int_str b i = nat_str b (nat i)"
  by (simp add: int_str_def)

lemma dec_value: "value_text (nat_str 10 n) \<and> filter (\<lambda>c. \<not> blank c) (nat_str 10 n) = nat_str 10 n"
  using value_text_graph [of "nat_str 10 n"] plain_graph nat_str_not_Nil plain_sets(1) nat_str_dec_set
  by blast

lemma conf_parse_uint_nat_str:
  "n \<le> mx \<Longrightarrow> mx < 2 ^ 64 \<Longrightarrow> conf_parse_uint (nat_str 10 n) mx = Inr n"
  using nat_str_sign [of n] by (simp add: conf_parse_uint_def parse_uint_nat_str)

lemma not_off: "hd s \<in> set ''0123456789'' \<Longrightarrow> s \<noteq> [] \<Longrightarrow> \<not> equal_fold s ''off''"
  by (cases s) (auto simp: equal_fold_def ascii_lower_def between_def)

lemma conf_parse_uint_or_off_nat_str:
  "n \<le> mx \<Longrightarrow> mx < 2 ^ 64 \<Longrightarrow> conf_parse_uint_or_off (nat_str 10 n) mx = Inr n"
  using hd_nat_str_dec [of n] not_off [of "nat_str 10 n"]
  by (simp add: conf_parse_uint_or_off_def conf_parse_uint_nat_str)

lemma hex_value:
  "value_text (''0x'' @ nat_str 16 n) \<and> filter (\<lambda>c. \<not> blank c) (''0x'' @ nat_str 16 n) = ''0x'' @ nat_str 16 n"
proof -
  have "set (''0x'' @ nat_str 16 n) \<subseteq> plain"
    using set_nat_str [of 16 n] plain_sets by auto
  then show ?thesis using value_text_graph [of "''0x'' @ nat_str 16 n"] plain_graph by blast
qed

lemma conf_parse_fwmark_hex: "n < 2 ^ 32 \<Longrightarrow> conf_parse_fwmark (''0x'' @ nat_str 16 n) = Inr n"
  using not_off [of "''0x'' @ nat_str 16 n"] nat_str_not_Nil [of 16 n]
  by (simp add: conf_parse_fwmark_def parse_uint_nat_str)

lemma ip_net_str_set:
  assumes n: "canonical_net n"
  shows "set (ip_net_str n) \<subseteq> plain" and "CHR '','' \<notin> set (ip_net_str n)"
    and "CHR ''+'' \<notin> set (ip_net_str n)" and "CHR ''-'' \<notin> set (ip_net_str n)"
proof -
  have len: "length (net_ip n) = 4 \<or> length (net_ip n) = 16" using n by (auto simp: canonical_net_def)
  have eq: "set (ip_net_str n) = set (ip_str (net_ip n)) \<union> {CHR ''/''} \<union> set (nat_str 10 (net_len n))"
    by (auto simp: ip_net_str_canonical [OF n])
  show "set (ip_net_str n) \<subseteq> plain"
    unfolding eq using ip_str_set [OF len] nat_str_dec_set plain_sets by blast
  have no: "c \<notin> set (ip_net_str n)" if "c \<notin> set ''/.:0123456789abcdef''" for c
  proof -
    from that have "c \<notin> set ''.:0123456789abcdef''" "c \<noteq> CHR ''/''" "c \<notin> set ''0123456789''"
      by simp_all
    then show ?thesis
      unfolding eq using ip_str_set [OF len] nat_str_dec_set by blast
  qed
  show "CHR '','' \<notin> set (ip_net_str n)" "CHR ''+'' \<notin> set (ip_net_str n)"
    "CHR ''-'' \<notin> set (ip_net_str n)"
    by (rule no; simp)+
qed

lemma ip_net_str_not_Nil: "canonical_net n \<Longrightarrow> ip_net_str n \<noteq> []"
  by (simp add: ip_net_str_canonical)

lemma parse_allowed_ip_str:
  assumes n: "canonical_net n"
  shows "parse_allowed_ip (ip_net_str n) = Inr (\<lparr>aip_net = net16 n, aip_op = AllowedIPSet\<rparr>, False)"
proof -
  have graph: "graph c" if "c \<in> set (ip_net_str n)" for c
    using plain_graph ip_net_str_set(1) [OF n] that by blast
  have "trim_space (ip_net_str n) = ip_net_str n"
    using ip_net_str_not_Nil [OF n] graph by (intro trim_space_graph) (auto intro: graph)
  moreover obtain c s where cs: "ip_net_str n = c # s"
    using ip_net_str_not_Nil [OF n] by (cases "ip_net_str n") auto
  moreover have "c \<noteq> CHR ''+''" "c \<noteq> CHR ''-''" using ip_net_str_set [OF n] cs by auto
  moreover obtain m where "parse_cidr (ip_net_str n) =
      Inr (net_ip (net16 n), \<lparr>net_ip = m, net_mask = net_mask n\<rparr>)"
    using parse_cidr_ip_net_str [OF n] by blast
  ultimately show ?thesis
    by (simp add: parse_allowed_ip_def Let_def net16_def)
qed

lemma join_comma_blank:
  "(\<And>x. x \<in> set xs \<Longrightarrow> filter (\<lambda>c. \<not> blank c) x = x) \<Longrightarrow>
   filter (\<lambda>c. \<not> blank c) (join '', '' xs) = join '','' xs"
proof (induction "'', ''" xs rule: join.induct)
  case (3 x y ys)
  then show ?case by (simp add: blank_def)
qed (auto)

lemma join_set: "set (join sep xs) \<subseteq> set sep \<union> \<Union> (set (map set xs))"
  by (induction sep xs rule: join.induct) auto

lemma join_last:
  "xs \<noteq> [] \<Longrightarrow> last xs \<noteq> [] \<Longrightarrow> join sep xs \<noteq> [] \<and> last (join sep xs) = last (last xs)"
  by (induction sep xs rule: join.induct) auto

definition nets_str :: "ip_net list \<Rightarrow> string" where
  "nets_str ns = join '', '' (map ip_net_str ns)"

lemma nets_value:
  assumes "ns \<noteq> []" and "\<forall>n \<in> set ns. canonical_net n"
  shows "value_text (nets_str ns)"
    and "filter (\<lambda>c. \<not> blank c) (nets_str ns) = join '','' (map ip_net_str ns)"
proof -
  have each: "graph c \<and> c \<noteq> CHR ''#''" if "n \<in> set ns" "c \<in> set (ip_net_str n)" for n c
    using plain_graph ip_net_str_set(1) [of n] assms that by blast
  show "filter (\<lambda>c. \<not> blank c) (nets_str ns) = join '','' (map ip_net_str ns)"
    unfolding nets_str_def
    by (rule join_comma_blank) (use each in \<open>auto simp: filter_id_conv graph_not_blank\<close>)
  have last: "last ns \<in> set ns" using assms by simp
  then have ne: "ip_net_str (last ns) \<noteq> []" using assms ip_net_str_not_Nil by blast
  have "nets_str ns \<noteq> [] \<and> last (nets_str ns) = last (ip_net_str (last ns))"
    unfolding nets_str_def using join_last [of "map ip_net_str ns" "'', ''"] assms ne
    by (simp add: last_map)
  moreover have "graph c \<or> c = CHR 0x20" "c \<noteq> CHR ''#''" if "c \<in> set (nets_str ns)" for c
    using that join_set [of "'', ''" "map ip_net_str ns"] each plain_graph [OF plain_sets(6)]
    unfolding nets_str_def by auto
  ultimately show "value_text (nets_str ns)"
    using each [OF last] ne by (auto simp: value_text_def list_all_iff)
qed

lemma parse_allowed_ips_str:
  assumes "ns \<noteq> []" and "\<forall>n \<in> set ns. canonical_net n"
  shows "parse_allowed_ips (join '','' (map ip_net_str ns)) =
    Inr (map (\<lambda>n. \<lparr>aip_net = net16 n, aip_op = AllowedIPSet\<rparr>) ns, False)"
proof -
  let ?g = "\<lambda>n. (\<lparr>aip_net = net16 n, aip_op = AllowedIPSet\<rparr>, False)"
  have "CHR '','' \<notin> set (ip_net_str n)" if "n \<in> set ns" for n
    using ip_net_str_set(2) [of n] assms that by blast
  then have "split_on (CHR '','') (join '','' (map ip_net_str ns)) = map ip_net_str ns"
    using split_on_join [of "map ip_net_str ns" "CHR '',''" "[]"] assms
    by (cases ns) auto
  moreover have "map_res (parse_allowed_ip \<circ> ip_net_str) ns = Inr (map ?g ns)"
    using assms by (intro map_res_all_ok) (simp add: parse_allowed_ip_str)
  moreover have "join '','' (map ip_net_str ns) \<noteq> []"
    using join_last [of "map ip_net_str ns" "'',''"] assms ip_net_str_not_Nil by (simp add: last_map)
  moreover have "\<not> list_ex snd (map ?g ns)" by (auto simp: list_ex_iff)
  ultimately show ?thesis by (simp add: parse_allowed_ips_def comp_def)
qed

section \<open>Facts about endpoints\<close>

lemma split_endpoint_join:
  assumes "CHR ''['' \<notin> set h" "CHR '']'' \<notin> set h"
    and "CHR '':'' \<notin> set p" "CHR ''['' \<notin> set p" "CHR '']'' \<notin> set p"
  shows "split_endpoint (join_host_port h p) = Inr (h, p)"
proof (cases "CHR '':'' \<in> set h")
  case True
  then show ?thesis using split_host_port_join [OF assms]
    by (simp add: split_endpoint_def join_host_port_def)
next
  case False
  have "cut_last (CHR '':'') (h @ '':'' @ p) = Some (h, p)"
    using cut_last_append [OF assms(3), of h] by simp
  moreover have "\<not> prefix ''['' (h @ '':'' @ p)" using assms(1) by (cases h) auto
  ultimately show ?thesis using False by (simp add: split_endpoint_def join_host_port_def)
qed

text \<open>An endpoint that a configuration file can carry: zones without separators.\<close>

definition zone_text :: "string \<Rightarrow> bool" where
  "zone_text z \<longleftrightarrow> list_all (\<lambda>c. graph c \<and> c \<notin> set ''#%[]'') z"

definition plain_endpoint :: "udp_addr \<Rightarrow> bool" where
  "plain_endpoint a \<longleftrightarrow> (length (ua_ip a) = 4 \<or> length (ua_ip a) = 16)
     \<and> 0 \<le> ua_port a \<and> ua_port a \<le> 65535 \<and> zone_text (ua_zone a)"

definition addr16 :: "udp_addr \<Rightarrow> udp_addr" where
  "addr16 a = a\<lparr>ua_ip := (case to16 (ua_ip a) of None \<Rightarrow> ua_ip a | Some i \<Rightarrow> i)\<rparr>"

definition host_text :: "udp_addr \<Rightarrow> string" where
  "host_text a = ip_str (ua_ip a) @ (if ua_zone a = [] then [] else CHR ''%'' # ua_zone a)"

lemma format_endpoint_host: "format_endpoint a = join_host_port (host_text a) (itoa (ua_port a))"
  by (simp add: format_endpoint_def host_text_def Let_def)

lemma host_text_set:
  assumes "plain_endpoint a" and "c \<in> set (host_text a)"
  shows "graph c \<and> c \<notin> set ''#[]''"
proof -
  have len: "length (ua_ip a) = 4 \<or> length (ua_ip a) = 16" and z: "zone_text (ua_zone a)"
    using assms by (simp_all add: plain_endpoint_def)
  have ok: "\<forall>c \<in> set (CHR ''%'' # ''.:0123456789abcdef''). graph c \<and> c \<notin> set ''#[]''"
    unfolding list_all_iff [symmetric] by code_simp
  consider "c \<in> set (ip_str (ua_ip a))" | "c = CHR ''%''" | "c \<in> set (ua_zone a)"
    using assms(2) unfolding host_text_def by (cases "ua_zone a = []") (simp, simp, blast)
  then show ?thesis
  proof cases
    case 1
    then have "c \<in> set (CHR ''%'' # ''.:0123456789abcdef'')"
      by (rule subsetD [OF set_subset_Cons subsetD [OF ip_str_set [OF len]]])
    then show ?thesis using ok by (rule bspec [rotated])
  next
    case 2
    then have "c \<in> set (CHR ''%'' # ''.:0123456789abcdef'')"
      using list.set_intros(1) [of "CHR ''%''"] by (simp only:)
    then show ?thesis using ok by (rule bspec [rotated])
  next
    case 3
    then have "graph c \<and> c \<notin> set ''#%[]''" using z unfolding zone_text_def list_all_iff by (rule bspec [rotated])
    then show ?thesis by simp
  qed
qed

lemma endpoint_value:
  assumes "plain_endpoint a"
  shows "value_text (format_endpoint a)"
    and "filter (\<lambda>c. \<not> blank c) (format_endpoint a) = format_endpoint a"
proof -
  have "list_all (\<lambda>c. graph c \<and> c \<noteq> CHR ''#'') ''[]:-0123456789''" by code_simp
  moreover have "set (format_endpoint a) \<subseteq> set ''[]:-0123456789'' \<union> set (host_text a)"
    using itoa_no_char [of _ "ua_port a"]
    by (fastforce simp: format_endpoint_host join_host_port_def split: if_splits)
  ultimately have "graph c \<and> c \<noteq> CHR ''#''" if "c \<in> set (format_endpoint a)" for c
    using host_text_set [OF assms, of c] that unfolding list_all_iff by auto
  moreover have "format_endpoint a \<noteq> []"
    by (simp add: format_endpoint_host join_host_port_def)
  ultimately show "value_text (format_endpoint a)"
      "filter (\<lambda>c. \<not> blank c) (format_endpoint a) = format_endpoint a"
    by (auto intro: value_text_graph)
qed

lemma resolve_endpoint_format:
  assumes a: "plain_endpoint a" and ev: "is_ok (endpoint_resolution_retries (ev_retries ev))"
  shows "resolve_endpoint ev (format_endpoint a) = Some (Inr (addr16 a))"
proof -
  obtain r where r: "endpoint_resolution_retries (ev_retries ev) = Inr r"
    using ev by (cases "endpoint_resolution_retries (ev_retries ev)") auto
  have len: "length (ua_ip a) = 4 \<or> length (ua_ip a) = 16" and z: "zone_text (ua_zone a)"
    and port: "0 \<le> ua_port a" "ua_port a \<le> 65535"
    using a by (simp_all add: plain_endpoint_def)
  have ne: "format_endpoint a \<noteq> []" by (simp add: format_endpoint_host join_host_port_def)
  have "split_endpoint (format_endpoint a) = Inr (host_text a, itoa (ua_port a))"
    unfolding format_endpoint_host
    by (rule split_endpoint_join) (use host_text_set [OF a] itoa_no_char in force)+
  moreover have "lookup_port (ev_resolver ev) (itoa (ua_port a)) = Inr (ua_port a)"
    using port by (rule lookup_port_itoa)
  moreover obtain i where i: "to16 (ua_ip a) = Some i" using to16_length [OF len] by blast
  moreover have pi: "parse_ip (ip_str (ua_ip a)) = Some i" using parse_ip_ip_str [OF len] i by simp
  moreover have "cut_last (CHR ''%'') (host_text a) =
      (if ua_zone a = [] then None else Some (ip_str (ua_ip a), ua_zone a))"
  proof (cases "ua_zone a = []")
    case True
    have "CHR ''%'' \<notin> set ''.:0123456789abcdef''" by simp
    then have "CHR ''%'' \<notin> set (ip_str (ua_ip a))" using ip_str_set [OF len] by blast
    then show ?thesis using True by (simp add: host_text_def cut_last_def)
  next
    case False
    moreover have "CHR ''%'' \<notin> set (ua_zone a)" using z by (auto simp: zone_text_def list_all_iff)
    ultimately show ?thesis using cut_last_append [of "CHR ''%''" "ua_zone a" "ip_str (ua_ip a)"]
      by (simp add: host_text_def)
  qed
  ultimately show ?thesis using ne r
    by (cases "ua_zone a = []"; cases a) (simp_all add: resolve_endpoint_def host_text_def addr16_def)
qed

section \<open>Reading back what was written\<close>

lemma runes_shape:
  "Rune r \<in> set (runes s) \<Longrightarrow> (\<exists>c. r = [c] \<and> code c < 0x80) \<or> (\<forall>c \<in> set r. 0x80 \<le> code c)"
proof (induction s rule: runes.induct)
  case (2 c s)
  show ?case
  proof (cases "rune_len (c # s)")
    case 0
    with 2 show ?thesis by auto
  next
    case (Suc n)
    show ?thesis
    proof (cases "r = c # take n s")
      case True
      with Suc show ?thesis
        by (auto simp: between_def numeral_eq_Suc split: if_splits list.splits)
    next
      case False
      with Suc 2 show ?thesis by auto
    qed
  qed
qed simp

lemma json_esc_char_graph: "code b < 0x80 \<Longrightarrow> c \<in> set (json_esc_char b) \<Longrightarrow> 0x20 \<le> code c"
proof -
  have "list_all (\<lambda>b. list_all (\<lambda>c. 0x20 \<le> code c) (json_esc_char b)) (map char_of [0..<128::nat])"
    by code_simp
  then show "code b < 0x80 \<Longrightarrow> c \<in> set (json_esc_char b) \<Longrightarrow> 0x20 \<le> code c"
    using ascii_all [of "\<lambda>b. list_all (\<lambda>c. 0x20 \<le> code c) (json_esc_char b)"] by (simp add: list_all_iff)
qed

lemma json_esc_multi:
  assumes "\<forall>c \<in> set u. 0x80 \<le> code c"
  shows "json_esc (Rune u) = u \<or> json_esc (Rune u) = CHR 0x5C # ''u2028''
          \<or> json_esc (Rune u) = CHR 0x5C # ''u2029''"
proof (cases "\<exists>c. u = [c]")
  case True
  then obtain c where "u = [c]" "0x80 \<le> code c" using assms by auto
  moreover from this have ne: "c \<noteq> k" if "code k < 0x80" for k using that by auto
  have "json_esc_char c = [c]"
    using \<open>0x80 \<le> code c\<close> unfolding json_esc_char_def
    by (simp add: ne)
  ultimately show ?thesis by simp
next
  case False
  then show ?thesis by (cases u rule: remdups_adj.cases) simp_all
qed

definition control :: "char \<Rightarrow> bool" where
  "control c \<longleftrightarrow> code c < 0x20"

lemma json_esc_no_control:
  assumes r: "r \<in> set (runes s)" and c: "control c"
  shows "c \<notin> set (json_esc r)"
proof (cases r)
  case (BadByte b)
  then show ?thesis using c by (auto simp: control_def)
next
  case (Rune u)
  from runes_shape [of u s] r Rune
  consider b where "u = [b]" "code b < 0x80" | "\<forall>c \<in> set u. 0x80 \<le> code c" by blast
  then show ?thesis
  proof cases
    case 1
    then show ?thesis using Rune json_esc_char_graph c by (force simp: control_def)
  next
    case 2
    have "\<not> 0x80 \<le> code c" using c by (auto simp: control_def)
    with 2 have "c \<notin> set u" by blast
    moreover have "c \<notin> set (CHR 0x5C # ''u2028'')" "c \<notin> set (CHR 0x5C # ''u2029'')"
      using c by (auto simp: control_def)
    ultimately show ?thesis using json_esc_multi [OF 2] unfolding Rune by metis
  qed
qed

lemma json_quote_no_control: "control c \<Longrightarrow> c \<notin> set (json_quote s)"
  using json_esc_no_control by (auto simp: json_quote_def control_def)

lemma name_line:
  "peer_name_comment (''# wgctrl-peer-name = '' @ json_quote name) = Some (json_quote name)"
proof -
  have q: "hd (json_quote name) = CHR 0x22" "last (json_quote name) = CHR 0x22" "json_quote name \<noteq> []"
    by (simp_all add: json_quote_def)
  have g: "graph (CHR 0x22)" "graph (CHR ''='')" "graph (CHR ''#'')" by code_simp+
  have "trim_space (''# wgctrl-peer-name = '' @ json_quote name) = ''# wgctrl-peer-name = '' @ json_quote name"
    using q g by (intro trim_space_graph) simp
  moreover have "trim_space ('' = '' @ json_quote name) = ''= '' @ json_quote name"
    using q g trim_space_graph [of "''= '' @ json_quote name"] by (simp add: trim_space_lead)
  moreover have "trim_space ('' '' @ json_quote name) = json_quote name"
    using q g trim_space_graph [of "json_quote name"] by (simp add: trim_space_lead)
  ultimately show ?thesis by (simp add: peer_name_comment_def Let_def)
qed

text \<open>The lines of the output.\<close>

definition kv :: "string \<Rightarrow> string \<Rightarrow> string" where
  "kv f v = f @ '' = '' @ v"

definition interface_lines :: "device \<Rightarrow> string list" where
  "interface_lines d =
     [''[Interface]'']
     @ (if d_listen_port d \<noteq> 0 then [kv ''ListenPort'' (int_str 10 (d_listen_port d))] else [])
     @ (if d_firewall_mark d \<noteq> 0 then [kv ''FwMark'' (''0x'' @ int_str 16 (d_firewall_mark d))] else [])
     @ (if d_has_private_key d then [kv ''PrivateKey'' (key_str (d_private_key d))] else [])
     @ [[]]"

definition name_lines :: "peer \<Rightarrow> string list" where
  "name_lines p = (case p_name p of None \<Rightarrow> []
     | Some name \<Rightarrow> if name = [] then [] else [''# wgctrl-peer-name = '' @ json_quote name])"

definition endpoint_lines :: "peer \<Rightarrow> string list" where
  "endpoint_lines p = (case p_endpoint p of
       Some a \<Rightarrow> if p_has_endpoint p \<and> (to4 (ua_ip a) \<noteq> None \<or> to16 (ua_ip a) \<noteq> None)
                  then [kv ''Endpoint'' (format_endpoint a)] else []
     | None \<Rightarrow> [])"

definition peer_lines :: "peer \<Rightarrow> string list" where
  "peer_lines p =
     [''[Peer]''] @ name_lines p
     @ [kv ''PublicKey'' (key_str (p_public_key p))]
     @ (if p_has_preshared_key p then [kv ''PresharedKey'' (key_str (p_preshared_key p))] else [])
     @ (if p_allowed_ips p \<noteq> [] then [kv ''AllowedIPs'' (nets_str (p_allowed_ips p))] else [])
     @ endpoint_lines p
     @ (if p_keepalive p \<noteq> 0
        then [kv ''PersistentKeepalive'' (int_str 10 (tdiv (p_keepalive p) second))] else [])"

fun peers_lines :: "bool \<Rightarrow> peer list \<Rightarrow> string list" where
  "peers_lines first [] = []"
| "peers_lines first (p # ps) = (if first then [] else [[]]) @ peer_lines p @ peers_lines False ps"

definition valid_name :: "peer \<Rightarrow> bool" where
  "valid_name p \<longleftrightarrow> (case p_name p of None \<Rightarrow> True | Some name \<Rightarrow> validate_peer_name name = Inr ())"

lemma nl_line: "a @ nl @ b = unlines [a] @ b"
  by (simp add: nl_def)

lemma encode_peer_lines: "valid_name p \<Longrightarrow> encode_peer p = (unlines (peer_lines p), None)"
  by (auto simp: encode_peer_def encode_peer_name_def valid_name_def peer_lines_def name_lines_def
        endpoint_lines_def nl_def nets_str_def kv_def split: option.splits)

lemma encode_peers_lines:
  "\<forall>p \<in> set ps. valid_name p \<Longrightarrow> encode_peers first ps = (unlines (peers_lines first ps), None)"
  by (induction first ps rule: peers_lines.induct) (auto simp: encode_peer_lines nl_def Let_def)

lemma encode_lines:
  "\<forall>p \<in> set (d_peers d). valid_name p \<Longrightarrow>
   encode d = (unlines (interface_lines d @ peers_lines True (d_peers d)), None)"
  by (simp add: encode_def encode_peers_lines encode_interface_def interface_lines_def nl_def kv_def)


section \<open>The configuration a device reads back as\<close>

definition showconf_peer :: "peer \<Rightarrow> peer_config" where
  "showconf_peer p = zero_peer_config
     \<lparr>pc_name := (if p_name p = Some [] then None else p_name p),
      pc_public_key := p_public_key p,
      pc_preshared_key := (if p_has_preshared_key p then Some (p_preshared_key p) else None),
      pc_endpoint := (if p_has_endpoint p then map_option addr16 (p_endpoint p) else None),
      pc_keepalive := (if p_keepalive p \<noteq> 0
        then Some (tdiv (p_keepalive p) second * second) else None),
      pc_replace_allowed_ips := True,
      pc_allowed_ip_ops :=
        map (\<lambda>n. \<lparr>aip_net = net16 n, aip_op = AllowedIPSet\<rparr>) (p_allowed_ips p)\<rparr>"

definition showconf :: "device \<Rightarrow> config" where
  "showconf d =
     \<lparr>c_private_key = Some (if d_has_private_key d then d_private_key d else zero_key),
      c_listen_port = Some (d_listen_port d), c_firewall_mark = Some (d_firewall_mark d),
      c_replace_peers = True, c_peers = map showconf_peer (d_peers d)\<rparr>"

text \<open>The devices whose parts all have a text: what a backend returns.\<close>

definition wf_peer :: "peer \<Rightarrow> bool" where
  "wf_peer p \<longleftrightarrow> valid_name p \<and> wf_key (p_public_key p) \<and> wf_key (p_preshared_key p)
     \<and> list_all canonical_net (p_allowed_ips p)
     \<and> (case p_endpoint p of None \<Rightarrow> True | Some a \<Rightarrow> plain_endpoint a)
     \<and> 0 \<le> p_keepalive p \<and> p_keepalive p < 65536 * second"

definition wf_device :: "device \<Rightarrow> bool" where
  "wf_device d \<longleftrightarrow> wf_key (d_private_key d) \<and> 0 \<le> d_listen_port d \<and> d_listen_port d \<le> 65535
     \<and> 0 \<le> d_firewall_mark d \<and> d_firewall_mark d < 2 ^ 32 \<and> list_all wf_peer (d_peers d)"

lemma bind_out_simps [simp]:
  "bind_out None k = None"
  "bind_out (Some (Inl e)) k = Some (Inl e)"
  "bind_out (Some (Inr x)) k = k x"
  by (simp_all add: bind_out_def)

lemma parse_lines_append:
  "parse_lines ev n (xs @ ys) st =
     bind_out (parse_lines ev n xs st) (parse_lines ev (n + length xs) ys)"
  by (induction xs arbitrary: n st) (auto simp: bind_out_def split: option.split sum.split)

lemma update_last_snoc [simp]: "update_last f (xs @ [x]) = xs @ [f x]"
  by (simp add: update_last_def)

text \<open>The state inside the section of the last peer \<open>p\<close>.\<close>

definition in_peer :: "config \<Rightarrow> peer_config list \<Rightarrow> peer_config \<Rightarrow> bool list \<Rightarrow> bool \<Rightarrow> bool \<Rightarrow> parse_state" where
  "in_peer cfg ps p pks pk nm =
     \<lparr>ps_cfg = cfg\<lparr>c_peers := ps @ [p]\<rparr>, ps_section = ''peer'', ps_peer = True,
      ps_has_public_key = pks @ [pk], ps_has_name = nm\<rparr>"

lemma update_peer_in_peer [simp]:
  "update_peer f (in_peer cfg ps p pks pk nm) = in_peer cfg ps (f p) pks pk nm"
  by (simp add: update_peer_def in_peer_def)

lemma field_names:
  "list_all field_name [''ListenPort'', ''FwMark'', ''PrivateKey'', ''PublicKey'',
     ''PresharedKey'', ''AllowedIPs'', ''Endpoint'', ''PersistentKeepalive'']"
  by code_simp

lemma field_keys:
  "to_lower ''ListenPort'' = ''listenport''" "to_lower ''FwMark'' = ''fwmark''"
  "to_lower ''PrivateKey'' = ''privatekey''" "to_lower ''PublicKey'' = ''publickey''"
  "to_lower ''PresharedKey'' = ''presharedkey''" "to_lower ''AllowedIPs'' = ''allowedips''"
  "to_lower ''Endpoint'' = ''endpoint''"
  "to_lower ''PersistentKeepalive'' = ''persistentkeepalive''"
  by code_simp+

lemma parse_line_in_peer:
  assumes "field_name f" and "value_text v"
  shows "parse_line ev n (kv f v) (in_peer cfg ps p pks pk nm) =
    parse_peer_field ev n (to_lower f) (filter (\<lambda>c. \<not> blank c) v) (in_peer cfg ps p pks pk nm)"
  unfolding kv_def by (subst parse_line_field [OF assms]) (simp add: in_peer_def Let_def)


lemma parse_lines_one [simp]: "parse_lines ev n [l] st = parse_line ev n l st"
  by (simp add: bind_out_def split: option.split sum.split)

lemma parse_lines_if:
  "\<lbrakk>b \<Longrightarrow> parse_line ev n l st = Some (Inr st'); \<not> b \<Longrightarrow> st' = st\<rbrakk> \<Longrightarrow>
   parse_lines ev n (if b then [l] else []) st = Some (Inr st')"
  by (cases b) simp_all

lemma line_PublicKey:
  "wf_key k \<Longrightarrow> parse_line ev n (kv ''PublicKey'' (key_str k)) (in_peer cfg ps p pks pk nm) =
     Some (Inr (in_peer cfg ps (p\<lparr>pc_public_key := k\<rparr>) pks True nm))"
  using field_names key_value [of k]
  by (simp add: parse_line_in_peer field_keys parse_peer_field_def conf_parse_key_str)
     (simp add: in_peer_def)

lemma line_PresharedKey:
  "wf_key k \<Longrightarrow> parse_line ev n (kv ''PresharedKey'' (key_str k)) (in_peer cfg ps p pks pk nm) =
     Some (Inr (in_peer cfg ps (p\<lparr>pc_preshared_key := Some k\<rparr>) pks pk nm))"
  using field_names key_value [of k]
  by (simp add: parse_line_in_peer field_keys parse_peer_field_def conf_parse_key_str)

lemma line_AllowedIPs:
  assumes "ns \<noteq> []" and "list_all canonical_net ns"
  shows "parse_line ev n (kv ''AllowedIPs'' (nets_str ns)) (in_peer cfg ps p pks pk nm) =
     Some (Inr (in_peer cfg ps (p\<lparr>pc_replace_allowed_ips := True,
       pc_allowed_ip_ops := pc_allowed_ip_ops p
         @ map (\<lambda>n. \<lparr>aip_net = net16 n, aip_op = AllowedIPSet\<rparr>) ns\<rparr>) pks pk nm))"
proof -
  have can: "\<forall>n \<in> set ns. canonical_net n" using assms by (simp add: list_all_iff)
  show ?thesis
    using field_names nets_value [OF assms(1) can] parse_allowed_ips_str [OF assms(1) can]
    by (simp add: parse_line_in_peer field_keys parse_peer_field_def)
qed

lemma line_Endpoint:
  assumes "plain_endpoint a" and "is_ok (endpoint_resolution_retries (ev_retries ev))"
  shows "parse_line ev n (kv ''Endpoint'' (format_endpoint a)) (in_peer cfg ps p pks pk nm) =
     Some (Inr (in_peer cfg ps (p\<lparr>pc_endpoint := Some (addr16 a)\<rparr>) pks pk nm))"
  using field_names endpoint_value [OF assms(1)] resolve_endpoint_format [OF assms]
  by (simp add: parse_line_in_peer field_keys parse_peer_field_def)

lemma line_PersistentKeepalive:
  assumes "0 \<le> i" and "i \<le> 65535"
  shows "parse_line ev n (kv ''PersistentKeepalive'' (int_str 10 i)) (in_peer cfg ps p pks pk nm) =
     Some (Inr (in_peer cfg ps (p\<lparr>pc_keepalive := Some (i * second)\<rparr>) pks pk nm))"
  using assms field_names dec_value [of "nat i"] conf_parse_uint_or_off_nat_str [of "nat i" 65535]
  by (simp add: parse_line_in_peer field_keys parse_peer_field_def int_str_nat)

lemma line_name:
  assumes "validate_peer_name name = Inr ()"
  shows "parse_line ev n (''# wgctrl-peer-name = '' @ json_quote name) (in_peer cfg ps p pks pk False) =
     Some (Inr (in_peer cfg ps (p\<lparr>pc_name := Some name\<rparr>) pks pk True))"
proof -
  have "valid_string name" using assms by (auto simp: validate_peer_name_def split: if_splits)
  then show ?thesis
    using assms name_line [of name]
    by (simp add: parse_line_def parse_name_line_def json_unmarshal_quote)
       (simp add: in_peer_def update_peer_def)
qed

definition resolves :: "endpoint_env \<Rightarrow> bool" where
  "resolves ev \<longleftrightarrow> is_ok (endpoint_resolution_retries (ev_retries ev))"

lemma keepalive_seconds:
  "0 \<le> k \<Longrightarrow> k < 65536 * second \<Longrightarrow> 0 \<le> tdiv k second \<and> tdiv k second \<le> 65535"
proof -
  assume k: "0 \<le> k" "k < 65536 * second"
  then have "k div second \<le> 65535" "0 \<le> k div second"
    by (simp_all add: second_def pos_imp_zdiv_nonneg_iff)
  moreover have "tdiv k second = k div second"
    using k by (cases "k = 0") (simp_all add: tdiv_def second_def sgn_if)
  ultimately show ?thesis by simp
qed

lemma seg_name:
  "valid_name p \<Longrightarrow> parse_lines ev n (name_lines p) (in_peer cfg ps q pks pk False) =
     Some (Inr (in_peer cfg ps (if p_name p = None \<or> p_name p = Some [] then q else q\<lparr>pc_name := p_name p\<rparr>)
       pks pk (p_name p \<noteq> None \<and> p_name p \<noteq> Some [])))"
proof (cases "p_name p")
  case (Some a)
  assume "valid_name p"
  then show ?thesis
    using Some line_name [of a ev n cfg ps q pks pk]
    by (cases "a = []") (simp_all only: name_lines_def valid_name_def option.case if_True if_False
        parse_lines_one parse_lines.simps bind_out_simps simp_thms option.inject option.distinct)
qed (simp add: name_lines_def)

lemma seg_endpoint:
  assumes "wf_peer p" and "resolves ev"
  shows "parse_lines ev n (endpoint_lines p) (in_peer cfg ps q pks pk nm) =
     Some (Inr (in_peer cfg ps (if p_has_endpoint p \<and> p_endpoint p \<noteq> None
         then q\<lparr>pc_endpoint := map_option addr16 (p_endpoint p)\<rparr> else q) pks pk nm))"
proof (cases "p_endpoint p")
  case (Some a)
  then have a: "plain_endpoint a" using assms(1) by (simp add: wf_peer_def)
  then have "to4 (ua_ip a) \<noteq> None \<or> to16 (ua_ip a) \<noteq> None"
    using to16_length [of "ua_ip a"] by (auto simp: plain_endpoint_def)
  then show ?thesis
    using Some line_Endpoint [OF a] assms(2) by (simp add: endpoint_lines_def resolves_def)
qed (simp add: endpoint_lines_def)

lemma parse_peer_lines:
  assumes p: "wf_peer p" and ev: "resolves ev"
  shows "parse_lines ev n (peer_lines p) st =
    Some (Inr (in_peer (ps_cfg st) (c_peers (ps_cfg st)) (showconf_peer p) (ps_has_public_key st) True
      (p_name p \<noteq> None \<and> p_name p \<noteq> Some [])))"
proof -
  let ?cfg = "ps_cfg st" and ?ps = "c_peers (ps_cfg st)" and ?pks = "ps_has_public_key st"
  have wf: "valid_name p" "wf_key (p_public_key p)" "wf_key (p_preshared_key p)"
      "list_all canonical_net (p_allowed_ips p)" "0 \<le> p_keepalive p" "p_keepalive p < 65536 * second"
    using p by (simp_all add: wf_peer_def)
  let ?q0 = "zero_peer_config\<lparr>pc_replace_allowed_ips := True\<rparr>"
  let ?q1 = "if p_name p = None \<or> p_name p = Some [] then ?q0 else ?q0\<lparr>pc_name := p_name p\<rparr>"
  let ?q2 = "?q1\<lparr>pc_public_key := p_public_key p\<rparr>"
  let ?q3 = "if p_has_preshared_key p then ?q2\<lparr>pc_preshared_key := Some (p_preshared_key p)\<rparr> else ?q2"
  let ?q4 = "if p_allowed_ips p \<noteq> [] then ?q3\<lparr>pc_replace_allowed_ips := True,
       pc_allowed_ip_ops := pc_allowed_ip_ops ?q3
         @ map (\<lambda>n. \<lparr>aip_net = net16 n, aip_op = AllowedIPSet\<rparr>) (p_allowed_ips p)\<rparr> else ?q3"
  let ?q5 = "if p_has_endpoint p \<and> p_endpoint p \<noteq> None
       then ?q4\<lparr>pc_endpoint := map_option addr16 (p_endpoint p)\<rparr> else ?q4"
  let ?q6 = "if p_keepalive p \<noteq> 0
       then ?q5\<lparr>pc_keepalive := Some (tdiv (p_keepalive p) second * second)\<rparr> else ?q5"
  let ?nm = "p_name p \<noteq> None \<and> p_name p \<noteq> Some []"
  have psk: "parse_lines ev n (if p_has_preshared_key p
        then [kv ''PresharedKey'' (key_str (p_preshared_key p))] else []) (in_peer ?cfg ?ps ?q2 ?pks True ?nm)
      = Some (Inr (in_peer ?cfg ?ps ?q3 ?pks True ?nm))" for n
    by (rule parse_lines_if) (simp_all only: line_PresharedKey [OF wf(3)] if_True if_False)
  have ips: "parse_lines ev n (if p_allowed_ips p \<noteq> []
        then [kv ''AllowedIPs'' (nets_str (p_allowed_ips p))] else []) (in_peer ?cfg ?ps ?q3 ?pks True ?nm)
      = Some (Inr (in_peer ?cfg ?ps ?q4 ?pks True ?nm))" for n
    by (rule parse_lines_if)
       (simp_all only: line_AllowedIPs [OF _ wf(4)] if_True if_False not_False_eq_True)
  have ka: "parse_lines ev n (if p_keepalive p \<noteq> 0
        then [kv ''PersistentKeepalive'' (int_str 10 (tdiv (p_keepalive p) second))] else [])
        (in_peer ?cfg ?ps ?q5 ?pks True ?nm)
      = Some (Inr (in_peer ?cfg ?ps ?q6 ?pks True ?nm))" for n
    using keepalive_seconds [OF wf(5,6)]
    by (intro parse_lines_if) (simp_all only: line_PersistentKeepalive if_True if_False not_False_eq_True)
  have start: "parse_line ev n ''[Peer]'' st = Some (Inr (in_peer ?cfg ?ps ?q0 ?pks False False))"
    by (simp add: parse_line_section in_peer_def)
  have "?q6 = showconf_peer p"
    using wf(4) by (cases "p_endpoint p") (auto simp: showconf_peer_def zero_peer_config_def)
  then show ?thesis
    unfolding peer_lines_def
    by (simp only: parse_lines_append parse_lines_one start seg_name [OF wf(1)] bind_out_simps
          line_PublicKey [OF wf(2)] psk ips seg_endpoint [OF p ev] ka)
qed

lemma in_peer_sel [simp]:
  "ps_cfg (in_peer cfg ps p pks pk nm) = cfg\<lparr>c_peers := ps @ [p]\<rparr>"
  "ps_has_public_key (in_peer cfg ps p pks pk nm) = pks @ [pk]"
  by (simp_all add: in_peer_def)

lemma parse_peers_lines:
  assumes "list_all wf_peer ps" and "resolves ev"
  shows "\<exists>st'. parse_lines ev n (peers_lines first ps) st = Some (Inr st') \<and>
     ps_cfg st' = (ps_cfg st)\<lparr>c_peers := c_peers (ps_cfg st) @ map showconf_peer ps\<rparr> \<and>
     ps_has_public_key st' = ps_has_public_key st @ replicate (length ps) True"
  using assms(1)
proof (induction first ps arbitrary: n st rule: peers_lines.induct)
  case (2 first p ps)
  have sep: "parse_lines ev n (if first then [] else [[]]) st = Some (Inr st)"
    by (simp add: parse_line_section)
  let ?st = "in_peer (ps_cfg st) (c_peers (ps_cfg st)) (showconf_peer p) (ps_has_public_key st) True
      (p_name p \<noteq> None \<and> p_name p \<noteq> Some [])"
  have p: "parse_lines ev m (peer_lines p) st = Some (Inr ?st)" for m
    using 2 assms(2) by (simp add: parse_peer_lines)
  let ?m = "n + length (if first then [] else [[]] :: string list) + length (peer_lines p)"
  have "list_all wf_peer ps" using 2 by simp
  then obtain st' where "parse_lines ev ?m (peers_lines False ps) ?st = Some (Inr st')"
     "ps_cfg st' = (ps_cfg ?st)\<lparr>c_peers := c_peers (ps_cfg ?st) @ map showconf_peer ps\<rparr>"
     "ps_has_public_key st' = ps_has_public_key ?st @ replicate (length ps) True"
    using "2.IH" [of ?m ?st] by blast
  then show ?case
    by (intro exI [of _ st']) (simp only: peers_lines.simps parse_lines_append sep bind_out_simps p, simp)
qed simp


text \<open>The interface section.\<close>

definition in_interface :: "config \<Rightarrow> parse_state" where
  "in_interface cfg = \<lparr>ps_cfg = cfg, ps_section = ''interface'', ps_peer = False,
     ps_has_public_key = [], ps_has_name = False\<rparr>"

lemma in_interface_sel [simp]:
  "ps_cfg (in_interface cfg) = cfg" "ps_has_public_key (in_interface cfg) = []"
  by (simp_all add: in_interface_def)

lemma parse_line_in_interface:
  assumes "field_name f" and "value_text v"
  shows "parse_line ev n (kv f v) (in_interface cfg) =
    Some (parse_interface_field n (to_lower f) (filter (\<lambda>c. \<not> blank c) v) (in_interface cfg))"
  unfolding kv_def by (subst parse_line_field [OF assms]) (simp add: in_interface_def Let_def)

lemma line_ListenPort:
  "0 \<le> i \<Longrightarrow> i \<le> 65535 \<Longrightarrow> parse_line ev n (kv ''ListenPort'' (int_str 10 i)) (in_interface cfg) =
     Some (Inr (in_interface (cfg\<lparr>c_listen_port := Some i\<rparr>)))"
  using field_names dec_value [of "nat i"] conf_parse_uint_nat_str [of "nat i" 65535]
  by (simp add: parse_line_in_interface field_keys parse_interface_field_def int_str_nat)
     (simp add: in_interface_def)

lemma line_FwMark:
  assumes "0 \<le> i" and "i < 2 ^ 32"
  shows "parse_line ev n (kv ''FwMark'' (''0x'' @ int_str 16 i)) (in_interface cfg) =
     Some (Inr (in_interface (cfg\<lparr>c_firewall_mark := Some i\<rparr>)))"
proof -
  have i: "int_str 16 i = nat_str 16 (nat i)" "int (nat i) = i" "nat i < 2 ^ 32"
    using assms by (simp_all add: int_str_nat nat_less_iff)
  have v: "value_text (''0x'' @ nat_str 16 (nat i))"
      "filter (\<lambda>c. \<not> blank c) (''0x'' @ nat_str 16 (nat i)) = ''0x'' @ nat_str 16 (nat i)"
    using hex_value [of "nat i"] by blast+
  have f: "field_name ''FwMark''" using field_names by simp
  show ?thesis
    unfolding i parse_line_in_interface [OF f v(1)] v(2) field_keys parse_interface_field_def
      conf_parse_fwmark_hex [OF i(3)]
    using assms(1) by (simp add: i) (simp add: in_interface_def)
qed

lemma line_PrivateKey:
  "wf_key k \<Longrightarrow> parse_line ev n (kv ''PrivateKey'' (key_str k)) (in_interface cfg) =
     Some (Inr (in_interface (cfg\<lparr>c_private_key := Some k\<rparr>)))"
  using field_names key_value [of k]
  by (simp add: parse_line_in_interface field_keys parse_interface_field_def conf_parse_key_str)
     (simp add: in_interface_def)

lemma parse_interface_lines:
  assumes d: "wf_device d"
  shows "parse_lines ev n (interface_lines d) (init_state False) =
     Some (Inr (in_interface ((showconf d)\<lparr>c_peers := []\<rparr>)))"
proof -
  have wf: "wf_key (d_private_key d)" "0 \<le> d_listen_port d" "d_listen_port d \<le> 65535"
      "0 \<le> d_firewall_mark d" "d_firewall_mark d < 2 ^ 32"
    using d by (simp_all add: wf_device_def)
  let ?c0 = "ps_cfg (init_state False)"
  let ?c1 = "?c0\<lparr>c_listen_port := Some (d_listen_port d)\<rparr>"
  let ?c2 = "?c1\<lparr>c_firewall_mark := Some (d_firewall_mark d)\<rparr>"
  let ?c3 = "if d_has_private_key d then ?c2\<lparr>c_private_key := Some (d_private_key d)\<rparr> else ?c2"
  have start: "parse_line ev n ''[Interface]'' (init_state False) = Some (Inr (in_interface ?c0))" for n
    by (simp add: parse_line_section init_state_def in_interface_def)
  have port: "parse_lines ev n (if d_listen_port d \<noteq> 0
      then [kv ''ListenPort'' (int_str 10 (d_listen_port d))] else []) (in_interface ?c0)
      = Some (Inr (in_interface ?c1))" for n
    by (rule parse_lines_if) (simp_all add: line_ListenPort [OF wf(2,3)] init_state_def zero_config_def)
  have mark: "parse_lines ev n (if d_firewall_mark d \<noteq> 0
      then [kv ''FwMark'' (''0x'' @ int_str 16 (d_firewall_mark d))] else []) (in_interface ?c1)
      = Some (Inr (in_interface ?c2))" for n
    by (rule parse_lines_if) (simp only: line_FwMark [OF wf(4,5)], simp add: init_state_def zero_config_def)
  have key: "parse_lines ev n (if d_has_private_key d
      then [kv ''PrivateKey'' (key_str (d_private_key d))] else []) (in_interface ?c2)
      = Some (Inr (in_interface ?c3))" for n
    by (rule parse_lines_if) (simp_all add: line_PrivateKey [OF wf(1)])
  have blank_line: "parse_line ev n [] (in_interface c) = Some (Inr (in_interface c))" for n c
    by (simp add: parse_line_section)
  have "?c3 = (showconf d)\<lparr>c_peers := []\<rparr>"
    by (simp add: showconf_def init_state_def zero_config_def)
  then show ?thesis
    unfolding interface_lines_def
    by (simp only: parse_lines_append parse_lines_one start bind_out_simps port mark key blank_line)
qed

text \<open>No line of the output holds a control character.\<close>

lemma value_no_control: "value_text v \<Longrightarrow> field_name f \<Longrightarrow> control c \<Longrightarrow> c \<notin> set (kv f v)"
proof
  assume "value_text v" "field_name f" "control c" "c \<in> set (kv f v)"
  then have "graph c \<or> c = CHR 0x20 \<or> c = CHR ''=''"
    by (auto simp: kv_def value_text_def field_name_def list_all_iff)
  with \<open>control c\<close> show False by (auto simp: control_def graph_def between_def)
qed

lemma peer_lines_no_control:
  assumes p: "wf_peer p" and l: "l \<in> set (peer_lines p)" and c: "control c"
  shows "c \<notin> set l"
proof -
  have wf: "wf_key (p_public_key p)" "wf_key (p_preshared_key p)"
      "\<forall>n \<in> set (p_allowed_ips p). canonical_net n" "0 \<le> p_keepalive p" "p_keepalive p < 65536 * second"
    using p by (simp_all add: wf_peer_def list_all_iff)
  have fixed: "c \<notin> set ''[Peer]''" "c \<notin> set ''# wgctrl-peer-name = ''"
    using c by (auto simp: control_def)
  have ka: "value_text (int_str 10 (tdiv (p_keepalive p) second))"
    using keepalive_seconds [OF wf(4,5)] dec_value by (simp add: int_str_nat)
  have ep: "value_text (format_endpoint a)" if "p_endpoint p = Some a" for a
    using p that endpoint_value by (simp add: wf_peer_def)
  have name: "c \<notin> set (''# wgctrl-peer-name = '' @ json_quote s)" for s
    using fixed(2) json_quote_no_control [OF c] by simp
  from l consider "l = ''[Peer]''" | s where "l = ''# wgctrl-peer-name = '' @ json_quote s"
    | f v where "l = kv f v" "field_name f" "value_text v"
    using field_names key_value [OF wf(1)] key_value [OF wf(2)] nets_value(1) [OF _ wf(3)] ep ka
    unfolding peer_lines_def
    by (auto simp: name_lines_def endpoint_lines_def simp del: append.simps
        split: if_splits option.splits)
  then show ?thesis
    using fixed(1) name value_no_control [OF _ _ c] by cases metis+
qed


lemma interface_lines_no_control:
  assumes d: "wf_device d" and l: "l \<in> set (interface_lines d)" and c: "control c"
  shows "c \<notin> set l"
proof -
  have wf: "wf_key (d_private_key d)" "0 \<le> d_listen_port d" "0 \<le> d_firewall_mark d"
    using d by (simp_all add: wf_device_def)
  have fixed: "c \<notin> set ''[Interface]''" "c \<notin> set []" using c by (auto simp: control_def)
  have port: "value_text (int_str 10 (d_listen_port d))"
    using dec_value wf by (simp add: int_str_nat)
  have mark: "value_text (''0x'' @ int_str 16 (d_firewall_mark d))"
    using hex_value wf(3) by (simp only: int_str_nat)
  from l consider "l = ''[Interface]''" | "l = []" | f v where "l = kv f v" "field_name f" "value_text v"
    using field_names key_value [OF wf(1)] port mark unfolding interface_lines_def
    by (auto simp del: append.simps split: if_splits)
  then show ?thesis
    using fixed value_no_control [OF _ _ c] by cases metis+
qed

lemma peers_lines_set:
  "l \<in> set (peers_lines first ps) \<Longrightarrow> l = [] \<or> (\<exists>p \<in> set ps. l \<in> set (peer_lines p))"
  by (induction first ps rule: peers_lines.induct) (auto split: if_splits)

lemma encode_read_lines:
  assumes d: "wf_device d"
    and short: "\<forall>l \<in> set (raw_lines (fst (encode d))). length l < max_line"
  shows "scan_lines max_line \<lparr>rd_data = fst (encode d), rd_err = None\<rparr> =
    (interface_lines d @ peers_lines True (d_peers d), None)"
proof -
  let ?ls = "interface_lines d @ peers_lines True (d_peers d)"
  have peers: "list_all wf_peer (d_peers d)" using d by (simp add: wf_device_def)
  then have "\<forall>p \<in> set (d_peers d). valid_name p" by (simp add: list_all_iff wf_peer_def)
  then have enc: "fst (encode d) = unlines ?ls" by (simp add: encode_lines)
  have no: "c \<notin> set l" if "l \<in> set ?ls" "control c" for l c
  proof -
    from that(1) consider "l \<in> set (interface_lines d)" | "l = []"
      | p where "p \<in> set (d_peers d)" "l \<in> set (peer_lines p)"
      using peers_lines_set [of l True "d_peers d"] by auto
    then show ?thesis
      using interface_lines_no_control [OF d _ that(2)] peer_lines_no_control [OF _ _ that(2)] peers
      by cases (auto simp: list_all_iff)
  qed
  have nl: "CHR 0x0A \<notin> set l" "CHR 0x0D \<notin> set l" if "l \<in> set ?ls" for l
    using no [OF that] by (simp_all add: control_def)
  have "raw_lines (unlines ?ls) = ?ls" using nl(1) by (rule raw_lines_unlines)
  then show ?thesis
    unfolding enc using nl short by (intro scan_lines_unlines) (simp add: enc)
qed

lemma parse_encode_lines:
  assumes d: "wf_device d" and ev: "resolves ev"
    and short: "\<forall>l \<in> set (raw_lines (fst (encode d))). length l < max_line"
  shows "parse ev \<lparr>rd_data = fst (encode d), rd_err = None\<rparr> False = Some (Inr (showconf d))"
proof -
  let ?n = "1 + length (interface_lines d)" and ?c = "(showconf d)\<lparr>c_peers := []\<rparr>"
  have peers: "list_all wf_peer (d_peers d)" using d by (simp add: wf_device_def)
  obtain st' where st': "parse_lines ev ?n (peers_lines True (d_peers d)) (in_interface ?c) = Some (Inr st')"
      "ps_cfg st' = ?c\<lparr>c_peers := map showconf_peer (d_peers d)\<rparr>"
      "ps_has_public_key st' = replicate (length (d_peers d)) True"
    using parse_peers_lines [OF peers ev, of ?n True "in_interface ?c"] by auto
  have "ps_cfg st' = showconf d" unfolding st'(2) by (simp add: showconf_def)
  moreover have "list_all id (ps_has_public_key st')" unfolding st'(3) by (simp add: list_all_iff)
  ultimately show ?thesis
    unfolding parse_def encode_read_lines [OF d short] prod.case parse_lines_append
      parse_interface_lines [OF d] bind_out_simps st'(1)
    by (simp add: parse_finish_def)
qed

section \<open>What a parsed configuration looks like\<close>

definition parsed_net :: "allowed_ip_config \<Rightarrow> bool" where
  "parsed_net a \<longleftrightarrow> 
     length (net_ip (aip_net a)) = 16 \<and> prefix_mask (net_mask (aip_net a))"

definition parsed_peer :: "peer_config \<Rightarrow> bool" where
  "parsed_peer p \<longleftrightarrow> wf_key (pc_public_key p) \<and> \<not> pc_remove p \<and> \<not> pc_update_only p
     \<and> (\<forall>k. pc_preshared_key p = Some k \<longrightarrow> wf_key k)
     \<and> (\<forall>n. pc_name p = Some n \<longrightarrow> validate_peer_name n = Inr ())
     \<and> (\<forall>a. pc_endpoint p = Some a \<longrightarrow> 0 \<le> ua_port a \<and> ua_port a \<le> 65535)
     \<and> (\<forall>d. pc_keepalive p = Some d \<longrightarrow> (\<exists>s. d = s * second \<and> 0 \<le> s \<and> s \<le> 65535))
     \<and> pc_allowed_ips p = [] \<and> list_all parsed_net (pc_allowed_ip_ops p)"

definition parsed_config :: "config \<Rightarrow> bool" where
  "parsed_config c \<longleftrightarrow>
     (\<forall>k. c_private_key c = Some k \<longrightarrow> wf_key k)
     \<and> (\<forall>p. c_listen_port c = Some p \<longrightarrow> 0 \<le> p \<and> p \<le> 65535)
     \<and> (\<forall>m. c_firewall_mark c = Some m \<longrightarrow> 0 \<le> m \<and> m < 2 ^ 32)
     \<and> list_all parsed_peer (c_peers c)"

text \<open>
  The invariant of the scanner loop: the pointer \<open>peer\<close> is set exactly inside a peer
  section, the flags run along the peers, and a flagless peer still has the zero key.
\<close>

definition parse_inv :: "parse_state \<Rightarrow> bool" where
  "parse_inv st \<longleftrightarrow> parsed_config (ps_cfg st)
     \<and> length (ps_has_public_key st) = length (c_peers (ps_cfg st))
     \<and> ps_section st \<in> {'''', ''interface'', ''peer''}
     \<and> (ps_peer st \<longleftrightarrow> ps_section st = ''peer'')
     \<and> (ps_peer st \<longrightarrow> c_peers (ps_cfg st) \<noteq> [])"

lemma parse_inv_init: "parse_inv (init_state a)"
  by (simp add: parse_inv_def init_state_def parsed_config_def zero_config_def)

lemma update_last_length [simp]: "length (update_last f xs) = length xs"
  by (simp add: update_last_def)

lemma update_last_Nil [simp]: "update_last f xs = [] \<longleftrightarrow> xs = []"
  by (simp add: update_last_def)

lemma update_last_all:
  "list_all P xs \<Longrightarrow> (\<And>x. P x \<Longrightarrow> P (f x)) \<Longrightarrow> list_all P (update_last f xs)"
  by (cases xs rule: rev_cases) (simp_all add: list_all_iff update_last_def)

lemma update_peer_inv:
  "parse_inv st \<Longrightarrow> (\<And>p. parsed_peer p \<Longrightarrow> parsed_peer (f p)) \<Longrightarrow> parse_inv (update_peer f st)"
  by (simp add: parse_inv_def update_peer_def parsed_config_def update_last_all)

lemma update_peer_sel [simp]:
  "ps_has_public_key (update_peer f st) = ps_has_public_key st"
  "ps_has_name (update_peer f st) = ps_has_name st"
  "ps_section (update_peer f st) = ps_section st"
  "ps_peer (update_peer f st) = ps_peer st"
  "ps_cfg (update_peer f st) = (ps_cfg st)\<lparr>c_peers := update_last f (c_peers (ps_cfg st))\<rparr>"
  by (simp_all add: update_peer_def)

lemma conf_parse_key_iff: "conf_parse_key s = Inr k \<longleftrightarrow> wf_key k \<and> s = key_str k"
  using parse_key_wf by (fastforce simp: conf_parse_key_def split: sum.splits if_splits)

lemma parse_uint_bound: "parse_uint b w s = Inr v \<Longrightarrow> v < 2 ^ w"
  by (auto simp: parse_uint_def split: if_splits option.splits)

lemma conf_parse_uint_le: "conf_parse_uint s mx = Inr v \<Longrightarrow> v \<le> mx"
  by (auto simp: conf_parse_uint_def split: if_splits sum.splits)

lemma conf_parse_uint_or_off_le: "conf_parse_uint_or_off s mx = Inr v \<Longrightarrow> v \<le> mx"
  by (auto simp: conf_parse_uint_or_off_def conf_parse_uint_le split: if_splits)

lemma conf_parse_fwmark_bound: "conf_parse_fwmark s = Inr v \<Longrightarrow> v < 2 ^ 32"
  by (auto simp: conf_parse_fwmark_def dest: parse_uint_bound conf_parse_uint_le split: if_splits)

lemma parse_allowed_ip_net: "parse_allowed_ip s = Inr (a, i) \<Longrightarrow> parsed_net a"
  by (auto simp: parse_allowed_ip_def Let_def parsed_net_def
      dest!: parse_cidr_length parse_ip_length split: list.splits sum.splits option.splits if_splits prod.splits)

lemma map_res_mem: "map_res f xs = Inr ys \<Longrightarrow> y \<in> set ys \<Longrightarrow> \<exists>x \<in> set xs. f x = Inr y"
  by (induction xs arbitrary: ys) (auto split: sum.splits)

lemma parse_allowed_ips_nets:
  assumes "parse_allowed_ips s = Inr (as, i)"
  shows "list_all parsed_net as"
proof -
  have "parsed_net (fst r)" if "map_res parse_allowed_ip xs = Inr rs" "r \<in> set rs" for xs rs r
    using map_res_mem [OF that] parse_allowed_ip_net by (cases r) auto
  with assms show ?thesis
    by (auto simp: parse_allowed_ips_def list_all_iff split: if_splits sum.splits)
qed

lemma lookup_port_bounds: "lookup_port rs s = Inr p \<Longrightarrow> 0 \<le> p \<and> p \<le> 65535"
  by (auto simp: lookup_port_def bind_res_Inr_iff split: if_splits)

lemma resolve_loop_port:
  "resolve_loop ips host port k retries backoff = Some (Inr a, slept) \<Longrightarrow> ua_port a = port"
proof -
  have "resolve_loop ips host port k retries backoff = Some rs \<Longrightarrow>
      (\<forall>a. fst rs = Inr a \<longrightarrow> ua_port a = port)" for rs
    by (rule resolve_loop.raw_induct [of "\<lambda>ips host port k retries backoff rs.
          \<forall>a. fst rs = Inr a \<longrightarrow> ua_port a = port", rotated], assumption)
       (auto split: sum.splits list.splits if_splits Option.bind_splits)
  then show "resolve_loop ips host port k retries backoff = Some (Inr a, slept) \<Longrightarrow> ua_port a = port"
    by fastforce
qed

lemma resolve_endpoint_port:
  "resolve_endpoint ev s = Some (Inr a) \<Longrightarrow> 0 \<le> ua_port a \<and> ua_port a \<le> 65535"
  by (auto simp: resolve_endpoint_def dest!: lookup_port_bounds resolve_loop_port
      split: sum.splits if_splits option.splits prod.splits)


lemma parse_name_line_inv:
  "parse_name_line n e st = Inr st' \<Longrightarrow> parse_inv st \<Longrightarrow> parse_inv st'"
proof -
  assume r: "parse_name_line n e st = Inr st'" and inv: "parse_inv st"
  then obtain name where name: "validate_peer_name name = Inr ()"
      "st' = (update_peer (\<lambda>p. p\<lparr>pc_name := Some name\<rparr>) st)\<lparr>ps_has_name := True\<rparr>"
    by (auto simp: parse_name_line_def split: if_splits sum.splits)
  have "parse_inv (update_peer (\<lambda>p. p\<lparr>pc_name := Some name\<rparr>) st)"
    using inv by (rule update_peer_inv) (simp add: parsed_peer_def name)
  then show ?thesis by (simp add: name parse_inv_def)
qed

lemma parse_section_inv: "parse_section n l st = Inr st' \<Longrightarrow> parse_inv st \<Longrightarrow> parse_inv st'"
  by (auto simp: parse_section_def Let_def parse_inv_def parsed_config_def parsed_peer_def
      zero_peer_config_def split: if_splits)

lemma parse_interface_field_inv:
  assumes "parse_interface_field n k v st = Inr st'" and "parse_inv st"
  shows "parse_inv st'"
proof -
  have [simp]: "int x < 4294967296 \<longleftrightarrow> x < 4294967296" for x by simp
  from assms show ?thesis
    by (auto simp: parse_interface_field_def parse_inv_def parsed_config_def conf_parse_key_iff
        dest!: conf_parse_uint_le conf_parse_fwmark_bound split: if_splits sum.splits)
qed

lemma parse_peer_field_inv:
  assumes r: "parse_peer_field ev n k v st = Some (Inr st')" and inv: "parse_inv st"
  shows "parse_inv st'"
proof -
  note upd = update_peer_inv [OF inv]
  have key: "parse_inv (update_peer (\<lambda>p. p\<lparr>pc_public_key := x\<rparr>) st)"
      "parse_inv (update_peer (\<lambda>p. p\<lparr>pc_preshared_key := Some x\<rparr>) st)" if "wf_key x" for x
    using that by (auto intro!: upd simp: parsed_peer_def)
  have ep: "parse_inv (update_peer (\<lambda>p. p\<lparr>pc_endpoint := Some a\<rparr>) st)"
    if "0 \<le> ua_port a \<and> ua_port a \<le> 65535" for a
    using that by (auto intro!: upd simp: parsed_peer_def)
  have ips: "parse_inv (update_peer (\<lambda>p. p\<lparr>pc_replace_allowed_ips := b,
      pc_allowed_ip_ops := pc_allowed_ip_ops p @ as\<rparr>) st)" if "list_all parsed_net as" for b as
    using that by (auto intro!: upd simp: parsed_peer_def)
  have ka: "parse_inv (update_peer (\<lambda>p. p\<lparr>pc_keepalive := Some (int x * second)\<rparr>) st)" if "x \<le> 65535" for x
    using that by (auto intro!: upd exI [of _ "int x"] simp: parsed_peer_def)
  have flag: "parse_inv ((update_peer (\<lambda>p. p\<lparr>pc_public_key := x\<rparr>) st)
      \<lparr>ps_has_public_key := update_last f (ps_has_public_key st)\<rparr>)" if "wf_key x" for x f
    using key(1) [OF that] by (simp add: parse_inv_def)
  from r show ?thesis
    unfolding parse_peer_field_def
    by (auto simp: conf_parse_key_iff simp del: update_peer_sel
        dest!: resolve_endpoint_port parse_allowed_ips_nets conf_parse_uint_or_off_le
        intro: flag key ep ips ka split: if_splits sum.splits option.splits prod.splits)
qed

lemma parse_line_inv:
  "parse_line ev n l st = Some (Inr st') \<Longrightarrow> parse_inv st \<Longrightarrow> parse_inv st'"
  by (auto simp: parse_line_def Let_def dest: parse_name_line_inv parse_section_inv
      parse_interface_field_inv parse_peer_field_inv split: option.splits if_splits prod.splits)

lemma bind_out_Some_Inr:
  "bind_out r k = Some (Inr y) \<longleftrightarrow> (\<exists>x. r = Some (Inr x) \<and> k x = Some (Inr y))"
  by (auto simp: bind_out_def split: option.splits sum.splits)

lemma parse_lines_inv:
  "parse_lines ev n ls st = Some (Inr st') \<Longrightarrow> parse_inv st \<Longrightarrow> parse_inv st'"
  by (induction ls arbitrary: n st) (auto simp: bind_out_Some_Inr dest: parse_line_inv)

section \<open>Endpoint retries end\<close>

lemma backoff_bounds:
  "second \<le> b \<Longrightarrow> b \<le> 20 * second \<Longrightarrow>
   second \<le> min_duration (20 * second) (tdiv (b * 6) 5) \<and>
   min_duration (20 * second) (tdiv (b * 6) 5) \<le> 20 * second"
  by (auto simp: min_duration_def tdiv_def second_def sgn_if)

lemma resolve_loop_returns:
  "\<lbrakk>0 \<le> retries; second \<le> backoff; backoff \<le> 20 * second\<rbrakk> \<Longrightarrow>
   \<exists>r slept. resolve_loop ips host port k retries backoff = Some (r, slept) \<and>
     length slept \<le> nat retries \<and> (\<forall>d \<in> set slept. second \<le> d \<and> d \<le> 20 * second)"
proof (induction "nat retries" arbitrary: retries backoff k)
  case 0
  then show ?case
    by (subst resolve_loop.simps) (auto split: sum.splits list.splits)
next
  case (Suc m)
  let ?b = "min_duration (20 * second) (tdiv (backoff * 6) 5)"
  have b: "second \<le> ?b" "?b \<le> 20 * second" using backoff_bounds Suc.prems by auto
  have "m = nat (retries - 1)" "0 \<le> retries - 1" using Suc.hyps(2) by linarith+
  then obtain r slept where IH: "resolve_loop ips host port (Suc k) (retries - 1) ?b = Some (r, slept)"
      "length slept \<le> nat (retries - 1)" "\<forall>d \<in> set slept. second \<le> d \<and> d \<le> 20 * second"
    using Suc.hyps(1) [of "retries - 1" ?b "Suc k"] b by blast
  have "0 < retries" using Suc.hyps(2) by linarith
  then show ?case
    using IH Suc.prems Suc.hyps(2)
    by (subst resolve_loop.simps) (auto split: sum.splits list.splits)
qed

lemma resolve_endpoint_returns:
  "ev_retries ev \<noteq> Some ''infinity'' \<Longrightarrow> resolve_endpoint ev s \<noteq> None"
proof
  assume fin: "ev_retries ev \<noteq> Some ''infinity''" and none: "resolve_endpoint ev s = None"
  from none obtain r host port where r: "endpoint_resolution_retries (ev_retries ev) = Inr r"
      and loop: "resolve_loop (ev_lookup_ips ev) host port 0 r second = None"
    by (auto simp: resolve_endpoint_def split: sum.splits if_splits option.splits prod.splits)
  have "0 \<le> r"
    using r fin by (auto simp: endpoint_resolution_retries_def Let_def split: option.splits if_splits sum.splits)
  then show False
    using loop resolve_loop_returns [of r second "ev_lookup_ips ev" host port 0] by (auto simp: second_def)
qed

lemma resolve_loop_Some_cause:
  "resolve_loop ips host port k retries backoff = Some rs \<Longrightarrow>
    retries < 0 \<longrightarrow> (\<exists>k. \<forall>e. ips k host = Inl e \<longrightarrow> permanent_endpoint_error e)"
proof (rule resolve_loop.raw_induct [of "\<lambda>ips host port k retries backoff rs.
        retries < 0 \<longrightarrow> (\<exists>k. \<forall>e. ips k host = Inl e \<longrightarrow> permanent_endpoint_error e)", rotated], assumption, goal_cases)
  case (1 f ips host port k retries backoff rs)
  show ?case
  proof (cases "\<exists>e. ips k host = Inl e \<and> \<not> permanent_endpoint_error e")
    case True
    with 1 show ?thesis by (auto split: if_splits Option.bind_splits)
  qed blast
qed

lemma resolve_loop_forever:
  assumes "\<And>k. \<exists>e. ips k host = Inl e \<and> \<not> permanent_endpoint_error e" and "retries < 0"
  shows "resolve_loop ips host port k retries backoff = None"
  using assms resolve_loop_Some_cause [of ips host port k retries backoff]
  by (cases "resolve_loop ips host port k retries backoff") auto

section \<open>Facts about colours\<close>

text \<open>What a terminal shows: the text without its \<open>ESC [ ... m\<close> sequences.\<close>

function strip_ansi :: "string \<Rightarrow> string" where
  "strip_ansi [] = []"
| "strip_ansi (c # s) =
     (if c = CHR 0x1B then strip_ansi (tl (dropWhile (\<lambda>x. x \<noteq> CHR ''m'') s)) else c # strip_ansi s)"
  by pat_completeness auto
termination
proof (relation "measure length", goal_cases)
  case (2 c s)
  then show ?case using length_dropWhile_le [of "\<lambda>x. x \<noteq> CHR ''m''" s] by simp
qed simp_all

lemma strip_ansi_plain: "CHR 0x1B \<notin> set a \<Longrightarrow> strip_ansi (a @ b) = a @ strip_ansi b"
  by (induction a) auto

lemma strip_ansi_ansi: "CHR ''m'' \<notin> set sgr \<Longrightarrow> strip_ansi (ansi sgr @ b) = strip_ansi b"
proof -
  assume m: "CHR ''m'' \<notin> set sgr"
  have "dropWhile (\<lambda>x. x \<noteq> CHR ''m'') (''['' @ sgr @ CHR ''m'' # b) = CHR ''m'' # b"
    using m by (induction sgr) auto
  then show ?thesis by (simp add: ansi_def)
qed

lemma cut_eq_Some: "cut_eq t = Some (a, b) \<Longrightarrow> t = a @ '' = '' @ b"
  by (induction t arbitrary: a) (auto split: if_splits elim!: prefixE)

lemma strip_colour_line:
  assumes "CHR 0x1B \<notin> set l"
  shows "strip_ansi (colour_line l @ r) = l @ strip_ansi r"
proof -
  define t where "t = (if suffix nl l then butlast l else l)"
  obtain u where u: "l = t @ u"
    by (cases "suffix nl l") (auto simp: t_def nl_def suffix_def)
  have no: "CHR 0x1B \<notin> set t" "CHR 0x1B \<notin> set u" using assms u by auto
  have cut: "strip_ansi (case cut_eq t of
        Some (a, b) \<Rightarrow> ansi ''1'' @ a @ ansi ''0'' @ '' = '' @ ansi ''32'' @ b @ ansi ''0'' @ s
      | None \<Rightarrow> t @ s) = t @ strip_ansi s" for s
  proof (cases "cut_eq t")
    case None
    then show ?thesis using no by (simp add: strip_ansi_plain)
  next
    case (Some ab)
    obtain a b where ab: "ab = (a, b)" by (cases ab)
    then have t: "t = a @ '' = '' @ b" using Some cut_eq_Some by simp
    then have "CHR 0x1B \<notin> set a" "CHR 0x1B \<notin> set b" using no by auto
    then have "strip_ansi (ansi ''1'' @ a @ ansi ''0'' @ '' = '' @ ansi ''32'' @ b @ ansi ''0'' @ s) =
        (a @ '' = '' @ b) @ strip_ansi s"
      by (simp add: strip_ansi_plain strip_ansi_ansi)
    then show ?thesis by (simp only: Some ab option.case prod.case) (simp only: t)
  qed
  have col: "colour_line l = (if prefix ''['' t then ansi ''36;1'' @ t @ ansi ''0''
      else case cut_eq t of
        Some (a, b) \<Rightarrow> ansi ''1'' @ a @ ansi ''0'' @ '' = '' @ ansi ''32'' @ b @ ansi ''0''
      | None \<Rightarrow> t) @ u"
    unfolding colour_line_def t_def [symmetric] Let_def using u by (cases "cut_eq t") auto
  show ?thesis
  proof (cases "prefix ''['' t")
    case True
    then show ?thesis unfolding col using no u by (simp add: strip_ansi_plain strip_ansi_ansi)
  next
    case False
    have "strip_ansi (colour_line l @ r) = t @ strip_ansi (u @ r)"
      unfolding col using False cut [of "u @ r"] by (cases "cut_eq t") auto
    then show ?thesis using no u by (simp add: strip_ansi_plain)
  qed
qed

lemma concat_split_after_nl: "concat (split_after_nl s) = s"
  by (induction s) (auto split: list.splits)

lemma strip_colour:
  "CHR 0x1B \<notin> set (concat ls) \<Longrightarrow> strip_ansi (concat (map colour_line ls)) = concat ls"
  by (induction ls) (auto simp: strip_colour_line)

lemma strip_encode_color:
  assumes d: "wf_device d"
  shows "strip_ansi (fst (encode_color d c)) = fst (encode d) \<and> snd (encode_color d c) = snd (encode d)"
proof -
  let ?ls = "interface_lines d @ peers_lines True (d_peers d)"
  have peers: "list_all wf_peer (d_peers d)" using d by (simp add: wf_device_def)
  then have "\<forall>p \<in> set (d_peers d). valid_name p" by (simp add: list_all_iff wf_peer_def)
  then have enc: "encode d = (unlines ?ls, None)" by (rule encode_lines)
  have esc: "control (CHR 0x1B)" by code_simp
  have "CHR 0x1B \<notin> set l" if "l \<in> set ?ls" for l
  proof -
    from that(1) consider "l \<in> set (interface_lines d)" | "l = []"
      | p where "p \<in> set (d_peers d)" "l \<in> set (peer_lines p)"
      using peers_lines_set [of l True "d_peers d"] by auto
    then show ?thesis
      using interface_lines_no_control [OF d _ esc] peer_lines_no_control [OF _ _ esc] peers
      by cases (auto simp: list_all_iff)
  qed
  then have no: "CHR 0x1B \<notin> set (unlines ?ls)" by (auto simp: unlines_def)
  show ?thesis
    unfolding encode_color_def enc
    using no strip_ansi_plain [OF no, of "[]"] strip_colour [of "split_after_nl (unlines ?ls)"]
    by (simp add: concat_split_after_nl)
qed

section \<open>What Parse keeps of its two modes\<close>

definition mode_ok :: "bool \<Rightarrow> config \<Rightarrow> bool" where
  "mode_ok append_mode c \<longleftrightarrow> c_replace_peers c = (\<not> append_mode)
     \<and> (\<not> append_mode \<longrightarrow> c_private_key c \<noteq> None \<and> c_listen_port c \<noteq> None \<and> c_firewall_mark c \<noteq> None)"

lemma mode_ok_peers [simp]: "mode_ok a (c\<lparr>c_peers := ps\<rparr>) = mode_ok a c"
  by (simp add: mode_ok_def)

lemma parse_line_mode:
  "parse_line ev n l st = Some (Inr st') \<Longrightarrow> mode_ok a (ps_cfg st) \<Longrightarrow> mode_ok a (ps_cfg st')"
  by (auto simp: parse_line_def parse_name_line_def parse_section_def parse_interface_field_def
      parse_peer_field_def Let_def split: option.splits if_splits prod.splits sum.splits)
     (auto simp: mode_ok_def)

lemma parse_lines_mode:
  "parse_lines ev n ls st = Some (Inr st') \<Longrightarrow> mode_ok a (ps_cfg st) \<Longrightarrow> mode_ok a (ps_cfg st')"
  by (induction ls arbitrary: n st) (auto simp: bind_out_Some_Inr dest: parse_line_mode)

lemma parse_peer_field_returns:
  assumes "ev_retries ev \<noteq> Some ''infinity''"
  shows "parse_peer_field ev n k v st \<noteq> None"
  using resolve_endpoint_returns [OF assms, of v]
  by (cases "resolve_endpoint ev v")
     (auto simp: parse_peer_field_def split: prod.splits sum.splits)

lemma parse_line_returns:
  "ev_retries ev \<noteq> Some ''infinity'' \<Longrightarrow> parse_line ev n l st \<noteq> None"
  using parse_peer_field_returns [of ev]
  by (simp add: parse_line_def Let_def split: option.split prod.split)

lemma parse_lines_returns:
  "ev_retries ev \<noteq> Some ''infinity'' \<Longrightarrow> parse_lines ev n ls st \<noteq> None"
  by (induction ls arbitrary: n st)
     (auto simp: bind_out_def parse_line_returns split: option.splits sum.splits)


section \<open>Properties\<close>

text \<open>
  C4. Round trip of \<open>wg showconf\<close> and \<open>wg setconf\<close>: the text that \<open>Encode\<close> writes for
  a device, whatever its peers, names, networks, endpoints and keys, is read back by \<open>Parse\<close>
  without an error, as the configuration that sets exactly what the device has (addresses in
  sixteen bytes, the keepalive in whole seconds), provided no line of it reaches the scanner's
  limit of one mebibyte.
\<close>

theorem parse_encode:
  assumes "wf_device d" and "resolves ev"
    and "\<forall>l \<in> set (raw_lines (fst (encode d))). length l < max_line"
  shows "parse ev \<lparr>rd_data = fst (encode d), rd_err = None\<rparr> False = Some (Inr (showconf d))"
  using assms by (rule parse_encode_lines)

definition sample_key :: key where
  "sample_key = replicate 31 7 @ [64]"

definition sample_peer :: peer where
  "sample_peer = zero_peer\<lparr>p_name := Some ''a \"b'', p_public_key := sample_key,
     p_endpoint := Some \<lparr>ua_ip = [192, 0, 2, 1], ua_port = 51820, ua_zone = []\<rparr>,
     p_has_endpoint := True, p_keepalive := 25 * second,
     p_allowed_ips := [\<lparr>net_ip = [10, 0, 0, 0], net_mask = mask_bytes 4 8\<rparr>,
       \<lparr>net_ip = [0xFD] @ replicate 15 0, net_mask = mask_bytes 16 64\<rparr>]\<rparr>"

definition sample_device :: device where
  "sample_device = zero_device\<lparr>d_private_key := sample_key, d_has_private_key := True,
     d_listen_port := 51820, d_firewall_mark := 0x1234, d_peers := [sample_peer, sample_peer]\<rparr>"

definition sample_env :: endpoint_env where
  "sample_env = \<lparr>ev_retries = None,
     ev_resolver = \<lparr>lookup_service = (\<lambda>_. Inl (ErrText ''unknown port'')),
       lookup_host = (\<lambda>_. Inr [])\<rparr>,
     ev_lookup_ips = (\<lambda>_ _. Inl (DNSError True False False))\<rparr>"

lemma sample_ok:
  "wf_device sample_device" "resolves sample_env"
  "\<forall>l \<in> set (raw_lines (fst (encode sample_device))). length l < max_line"
  by code_simp+

theorem parse_encode_witness:
  "parse sample_env \<lparr>rd_data = fst (encode sample_device), rd_err = None\<rparr> False
     = Some (Inr (showconf sample_device))"
  by (rule parse_encode [OF sample_ok])

text \<open>
  C29. Whatever the file says, a configuration that \<open>Parse\<close> accepts is well formed: keys of
  32 bytes, ports and keepalives of 16 bits, a mark of 32 bits, networks with prefix masks,
  valid names, no peer marked for removal; and without \<open>appendMode\<close> it replaces all peers and
  sets the three interface fields, with it it leaves the peers in place.
\<close>

theorem parse_accepts:
  assumes "parse ev r append_mode = Some (Inr cfg)"
  shows "parsed_config cfg \<and> mode_ok append_mode cfg"
proof -
  obtain ls err where sc: "scan_lines max_line r = (ls, err)" by (cases "scan_lines max_line r")
  then obtain st where st: "parse_lines ev 1 ls (init_state append_mode) = Some (Inr st)"
      and fin: "parse_finish err st = Some (Inr cfg)"
    using assms by (auto simp: parse_def bind_out_Some_Inr)
  have "mode_ok append_mode (ps_cfg (init_state append_mode))"
    by (simp add: mode_ok_def init_state_def zero_config_def)
  then have "mode_ok append_mode (ps_cfg st)" using parse_lines_mode [OF st] by simp
  moreover have "parse_inv st" using parse_lines_inv [OF st] parse_inv_init by simp
  ultimately show ?thesis
    using fin by (auto simp: parse_finish_def parse_inv_def split: option.splits if_splits)
qed

theorem parse_accepts_witness:
  "parsed_config \<lparr>c_private_key = None, c_listen_port = Some 7, c_firewall_mark = None,
      c_replace_peers = False, c_peers = []\<rparr>"
proof -
  have "parse sample_env \<lparr>rd_data = ''[Interface]'' @ nl @ ''ListenPort = 7'', rd_err = None\<rparr> True =
    Some (Inr \<lparr>c_private_key = None, c_listen_port = Some 7, c_firewall_mark = None,
      c_replace_peers = False, c_peers = []\<rparr>)"
    by code_simp
  from parse_accepts [OF this] show ?thesis by simp
qed

text \<open>
  C30. \<open>Parse\<close> returns on every input unless \<open>WG_ENDPOINT_RESOLUTION_RETRIES\<close> is
  \<open>infinity\<close>.
\<close>

theorem parse_returns:
  assumes "ev_retries ev \<noteq> Some ''infinity''"
  shows "\<exists>r. parse ev inp append_mode = Some r"
proof -
  have "parse_finish err st \<noteq> None" for err st
    by (auto simp: parse_finish_def split: option.splits)
  then show ?thesis
    using parse_lines_returns [OF assms, of 1 "fst (scan_lines max_line inp)" "init_state append_mode"]
    by (auto simp: parse_def bind_out_def split: prod.splits option.splits sum.splits)
qed

theorem parse_returns_witness:
  "\<exists>r. parse sample_env \<lparr>rd_data = ''[Peer]'', rd_err = None\<rparr> False = Some r"
  by (rule parse_returns) (simp add: sample_env_def)

text \<open>
  C34. The retries of an endpoint lookup are bounded: with \<open>n\<close> retries allowed, the loop
  returns after sleeping at most \<open>n\<close> times, each time between one and twenty seconds.
\<close>

theorem endpoint_retries_bounded:
  assumes "0 \<le> retries"
  shows "\<exists>r slept. resolve_loop ips host port k retries second = Some (r, slept) \<and>
     length slept \<le> nat retries \<and> (\<forall>d \<in> set slept. second \<le> d \<and> d \<le> 20 * second)"
  using assms by (intro resolve_loop_returns) (simp_all add: second_def)

theorem endpoint_retries_bounded_witness:
  "\<exists>r slept. resolve_loop (\<lambda>_ _. Inl (DNSError False True False)) ''host'' 1 0 2 second = Some (r, slept) \<and>
     length slept \<le> nat 2 \<and> (\<forall>d \<in> set slept. second \<le> d \<and> d \<le> 20 * second)"
  by (rule endpoint_retries_bounded) simp

text \<open>
  With \<open>infinity\<close> and a name server that never stops failing temporarily, the lookup of
  a host name never returns.
\<close>

theorem endpoint_retries_forever:
  assumes "\<And>k. \<exists>e. ips k host = Inl e \<and> \<not> permanent_endpoint_error e" and "retries < 0"
  shows "resolve_loop ips host port 0 retries second = None"
  using assms by (rule resolve_loop_forever)

theorem endpoint_retries_forever_witness:
  "resolve_loop (\<lambda>_ _. Inl (DNSError False True False)) ''host'' 1 0 (- 1) second = None"
  by (rule endpoint_retries_forever) simp_all

text \<open>
  A configuration file gives every key in one spelling only: \<open>parseKey\<close> accepts exactly
  the canonical base64 text of a 32-byte key.
\<close>

theorem conf_parse_key_canonical: "conf_parse_key s = Inr k \<longleftrightarrow> wf_key k \<and> s = key_str k"
  by (rule conf_parse_key_iff)

text \<open>
  Colour changes nothing but colour: the output of \<open>EncodeColor\<close> without its escape
  sequences is the output of \<open>Encode\<close>, with the same error.
\<close>

theorem encode_color_plain:
  assumes "wf_device d"
  shows "strip_ansi (fst (encode_color d c)) = fst (encode d) \<and> snd (encode_color d c) = snd (encode d)"
  using assms by (rule strip_encode_color)

theorem encode_color_plain_witness:
  "strip_ansi (fst (encode_color sample_device True)) = fst (encode sample_device)"
  by (rule encode_color_plain [THEN conjunct1, OF sample_ok(1)])

end
