(* ===== verification/OsFiles.thy ===== *)
theory OsFiles
  imports GoStrings
begin

text \<open>
  What the sources use of the packages os and path/filepath, on a system whose separator is
  \<open>/\<close>. Files are kept by the text of their path, so that two texts of one file (links, a
  path that is not clean) are two files; permissions play no part.
\<close>

section \<open>Paths\<close>

text \<open>\<open>filepath.Base\<close>, \<open>filepath.Ext\<close> and \<open>strings.TrimSuffix\<close>\<close>

definition path_base :: "string \<Rightarrow> string" where
  "path_base p =
     (if p = [] then ''.''
      else (let q = rev (dropWhile (\<lambda>c. c = CHR ''/'') (rev p));
                b = rev (takeWhile (\<lambda>c. c \<noteq> CHR ''/'') (rev q))
            in if b = [] then ''/'' else b))"

definition path_ext :: "string \<Rightarrow> string" where
  "path_ext p =
     (let b = rev (takeWhile (\<lambda>c. c \<noteq> CHR ''/'') (rev p))
      in case cut_last (CHR ''.'') b of None \<Rightarrow> [] | Some (a, e) \<Rightarrow> CHR ''.'' # e)"

definition trim_suffix :: "string \<Rightarrow> string \<Rightarrow> string" where
  "trim_suffix s suf = (if suffix suf s then take (length s - length suf) s else s)"

text \<open>
  \<open>filepath.Clean\<close>: the elements without the empty ones and \<open>.\<close>; \<open>..\<close> takes away the
  element before it, and nothing at the root.
\<close>

definition clean_step :: "bool \<Rightarrow> string \<Rightarrow> string list \<Rightarrow> string list" where
  "clean_step rooted e out =
     (if e = ''..'' then
        (if out \<noteq> [] \<and> last out \<noteq> ''..'' then butlast out
         else if rooted then out else out @ [e])
      else out @ [e])"

definition path_elements :: "string \<Rightarrow> string list" where
  "path_elements p = filter (\<lambda>e. e \<noteq> [] \<and> e \<noteq> ''.'') (split_on (CHR ''/'') p)"

definition clean_elements :: "string \<Rightarrow> string list" where
  "clean_elements p = fold (clean_step (prefix ''/'' p)) (path_elements p) []"

definition path_clean :: "string \<Rightarrow> string" where
  "path_clean p =
     (let out = join ''/'' (clean_elements p)
      in if prefix ''/'' p then ''/'' @ out else if out = [] then ''.'' else out)"

text \<open>\<open>filepath.Join\<close> and \<open>filepath.Dir\<close>\<close>

definition path_join :: "string list \<Rightarrow> string" where
  "path_join es =
     (case dropWhile (\<lambda>e. e = []) es of [] \<Rightarrow> [] | e # rest \<Rightarrow> path_clean (join ''/'' (e # rest)))"

definition path_dir :: "string \<Rightarrow> string" where
  "path_dir p = path_clean (rev (dropWhile (\<lambda>c. c \<noteq> CHR ''/'') (rev p)))"

section \<open>Files\<close>

datatype node = Dir | File string

type_synonym fs = "string \<Rightarrow> node option"

text \<open>
  The calls that may fail. \<open>os_fault\<close> says which of them the system refuses, for any reason the
  file table does not show: permissions, a missing directory above, a full disk. A write that
  fails leaves the first \<open>os_short\<close> bytes. \<open>os_random\<close> is the sequence of random numbers
  that \<open>os.CreateTemp\<close> draws.
\<close>

datatype fs_op =
  OpStat | OpOpen | OpRead | OpMkdir | OpCreate | OpChmod | OpWrite | OpSync | OpClose | OpRename | OpRemove | OpLock

record os_env =
  os_fault :: "fs_op \<Rightarrow> string \<Rightarrow> go_error option"
  os_short :: nat
  os_random :: "nat \<Rightarrow> nat"
  os_getenv :: "string \<Rightarrow> string"

definition attempt :: "os_env \<Rightarrow> fs_op \<Rightarrow> string \<Rightarrow> fs \<Rightarrow> unit res \<times> fs \<Rightarrow> unit res \<times> fs" where
  "attempt env op p s done = (case os_fault env op p of Some e \<Rightarrow> (Inl e, s) | None \<Rightarrow> done)"

text \<open>A \<open>*PathError\<close> around \<open>ErrNotExist\<close>, which \<open>os.IsNotExist\<close> and \<open>errors.Is\<close> both find.\<close>

definition path_not_exist :: go_error where
  "path_not_exist = ErrWrap ''open'' ErrNotExist"

fun os_IsNotExist :: "go_error \<Rightarrow> bool" where
  "os_IsNotExist (ErrWrap op e) = (op = ''open'' \<and> e = ErrNotExist)"
| "os_IsNotExist e = (e = ErrNotExist)"

definition os_stat :: "os_env \<Rightarrow> string \<Rightarrow> fs \<Rightarrow> node res" where
  "os_stat env p s =
     (case os_fault env OpStat p of
        Some e \<Rightarrow> Inl e
      | None \<Rightarrow> (case s p of None \<Rightarrow> Inl path_not_exist | Some n \<Rightarrow> Inr n))"

definition os_read_file :: "os_env \<Rightarrow> string \<Rightarrow> fs \<Rightarrow> string res" where
  "os_read_file env p s =
     (case os_fault env OpRead p of
        Some e \<Rightarrow> Inl e
      | None \<Rightarrow>
          (case s p of
             None \<Rightarrow> Inl path_not_exist
           | Some Dir \<Rightarrow> Inl (ErrText ''is a directory'')
           | Some (File b) \<Rightarrow> Inr b))"

text \<open>
  \<open>os.Open\<close> and the reading after it: a directory opens, but cannot be read; a read that fails
  has given the first \<open>os_short\<close> bytes.
\<close>

definition os_open :: "os_env \<Rightarrow> string \<Rightarrow> fs \<Rightarrow> reader res" where
  "os_open env p s =
     (case os_fault env OpOpen p of
        Some e \<Rightarrow> Inl e
      | None \<Rightarrow>
          (case s p of
             None \<Rightarrow> Inl path_not_exist
           | Some Dir \<Rightarrow> Inr \<lparr>rd_data = [], rd_err = Some (ErrText ''is a directory'')\<rparr>
           | Some (File b) \<Rightarrow>
               (case os_fault env OpRead p of
                  None \<Rightarrow> Inr \<lparr>rd_data = b, rd_err = None\<rparr>
                | Some e \<Rightarrow> Inr \<lparr>rd_data = take (os_short env) b, rd_err = Some e\<rparr>)))"

text \<open>\<open>os.MkdirAll\<close> creates the path and the directories above it, unless one of them is a file.\<close>

definition path_above :: "string \<Rightarrow> string list" where
  "path_above p = map (\<lambda>n. take n p) (filter (\<lambda>n. 0 < n \<and> (n = length p \<or> p ! n = CHR ''/'')) [0..<Suc (length p)])"

definition is_file :: "node option \<Rightarrow> bool" where
  "is_file n = (case n of Some (File _) \<Rightarrow> True | _ \<Rightarrow> False)"

definition os_mkdir_all :: "os_env \<Rightarrow> string \<Rightarrow> fs \<Rightarrow> unit res \<times> fs" where
  "os_mkdir_all env p s =
     (if s p = Some Dir then (Inr (), s)
      else if list_ex (\<lambda>q. is_file (s q)) (path_above p) then (Inl (ErrText ''not a directory''), s)
      else attempt env OpMkdir p s
        (Inr (), fold (\<lambda>q s. s(q \<mapsto> Dir)) (path_above p) s))"

text \<open>Opening for writing: the file is created, and emptied when asked to.\<close>

definition os_create :: "os_env \<Rightarrow> bool \<Rightarrow> string \<Rightarrow> fs \<Rightarrow> unit res \<times> fs" where
  "os_create env trunc p s =
     attempt env OpCreate p s
       (case s p of
          None \<Rightarrow> (Inr (), s(p \<mapsto> File []))
        | Some Dir \<Rightarrow> (Inl (ErrText ''is a directory''), s)
        | Some (File b) \<Rightarrow> (Inr (), if trunc then s(p \<mapsto> File []) else s))"

text \<open>\<open>os.CreateTemp\<close> opens a file that does not exist yet; it gives up after 10000 names.\<close>

definition dir_slash :: "string \<Rightarrow> string" where
  "dir_slash dir = (if dir \<noteq> [] \<and> last dir = CHR ''/'' then dir else dir @ ''/'')"

fun temp_loop :: "os_env \<Rightarrow> string \<Rightarrow> nat \<Rightarrow> nat \<Rightarrow> fs \<Rightarrow> string res \<times> fs" where
  "temp_loop env start k 0 s = (Inl (ErrText ''file exists''), s)"
| "temp_loop env start k (Suc tries) s =
     (let name = start @ nat_str 10 (os_random env k)
      in case os_fault env OpCreate name of
           Some e \<Rightarrow> (Inl e, s)
         | None \<Rightarrow> if s name \<noteq> None then temp_loop env start (Suc k) tries s
                   else (Inr name, s(name \<mapsto> File [])))"

definition os_create_temp :: "os_env \<Rightarrow> string \<Rightarrow> string \<Rightarrow> fs \<Rightarrow> string res \<times> fs" where
  "os_create_temp env dir pre s = temp_loop env (dir_slash dir @ pre) 0 10000 s"

text \<open>Writing to the empty file that was just opened.\<close>

definition os_write :: "os_env \<Rightarrow> string \<Rightarrow> string \<Rightarrow> fs \<Rightarrow> unit res \<times> fs" where
  "os_write env p b s = attempt env OpWrite p (s(p \<mapsto> File (take (os_short env) b))) (Inr (), s(p \<mapsto> File b))"

definition os_rename :: "os_env \<Rightarrow> string \<Rightarrow> string \<Rightarrow> fs \<Rightarrow> unit res \<times> fs" where
  "os_rename env p q s =
     attempt env OpRename q s
       (if s q = Some Dir then (Inl (ErrText ''file exists''), s) else (Inr (), (s(p := None))(q := s p)))"

definition os_remove :: "os_env \<Rightarrow> string \<Rightarrow> fs \<Rightarrow> unit res \<times> fs" where
  "os_remove env p s =
     attempt env OpRemove p s (if s p = None then (Inl path_not_exist, s) else (Inr (), s(p := None)))"

text \<open>Calls in sequence; the first that fails ends it.\<close>

definition and_then :: "unit res \<times> 's \<Rightarrow> ('s \<Rightarrow> unit res \<times> 's) \<Rightarrow> unit res \<times> 's" where
  "and_then r k = (case r of (Inl e, s) \<Rightarrow> (Inl e, s) | (Inr _, s) \<Rightarrow> k s)"

lemma and_then_simps [simp]: "and_then (Inl e, s) k = (Inl e, s)" "and_then (Inr u, s) k = k s"
  by (simp_all add: and_then_def)

lemma attempt_no_change:
  assumes "\<And>p. p \<noteq> q \<Longrightarrow> snd done p = s p"
  shows "p \<noteq> q \<Longrightarrow> snd (attempt env op x s done) p = s p"
  using assms by (simp add: attempt_def split: option.split)

section \<open>Clean paths\<close>

text \<open>A directory that is clean, and is neither the root nor the working directory.\<close>

definition clean_dir :: "string \<Rightarrow> bool" where
  "clean_dir d \<longleftrightarrow> path_clean d = d \<and> clean_elements d \<noteq> []"

definition file_name :: "string \<Rightarrow> bool" where
  "file_name n \<longleftrightarrow> CHR ''/'' \<notin> set n \<and> n \<noteq> [] \<and> n \<noteq> ''.'' \<and> n \<noteq> ''..''"

lemma split_on_snoc: "c \<notin> set b \<Longrightarrow> split_on c (a @ c # b) = split_on c a @ [b]"
proof (induction a)
  case (Cons x a)
  then show ?case by (cases "split_on c a") auto
qed (simp add: split_on_none)

lemma path_elements_join:
  "file_name n \<Longrightarrow> path_elements (d @ ''/'' @ n) = path_elements d @ [n]"
  by (simp add: path_elements_def split_on_snoc file_name_def)

lemma path_elements_slash: "path_elements (d @ ''/'') = path_elements d"
  using split_on_snoc [of "CHR ''/''" "[]" d] by (simp add: path_elements_def)

lemma join_snoc: "xs \<noteq> [] \<Longrightarrow> join sep (xs @ [x]) = join sep xs @ sep @ x"
  by (induction sep xs rule: join.induct) auto

lemma prefix_slash_append: "d \<noteq> [] \<Longrightarrow> prefix ''/'' (d @ e) = prefix ''/'' d"
  by (cases d) auto

lemma clean_dir_ne: "clean_dir d \<Longrightarrow> d \<noteq> []"
  by (auto simp: clean_dir_def clean_elements_def path_elements_def)

lemma path_clean_join:
  assumes d: "clean_dir d" and n: "file_name n"
  shows "path_clean (d @ ''/'' @ n) = d @ ''/'' @ n"
proof -
  have "clean_elements (d @ ''/'' @ n) = clean_elements d @ [n]"
    using n prefix_slash_append [OF clean_dir_ne [OF d], of "''/'' @ n"]
    by (simp only: clean_elements_def path_elements_join fold_append comp_apply)
       (simp add: clean_step_def file_name_def)
  then have "path_clean (d @ ''/'' @ n) =
      (if prefix ''/'' d then ''/'' else []) @ join ''/'' (clean_elements d) @ ''/'' @ n"
    using prefix_slash_append [OF clean_dir_ne [OF d], of "''/'' @ n"] d
    by (simp add: path_clean_def Let_def join_snoc clean_dir_def)
  moreover have "(if prefix ''/'' d then ''/'' else []) @ join ''/'' (clean_elements d) = d"
    using d by (auto simp: clean_dir_def path_clean_def Let_def clean_elements_def path_elements_def split: if_splits)
  ultimately show ?thesis by (metis append_assoc)
qed

lemma path_dir_join:
  assumes d: "clean_dir d" and n: "file_name n"
  shows "path_dir (d @ ''/'' @ n) = d"
proof -
  have "dropWhile (\<lambda>c. c \<noteq> CHR ''/'') (rev (d @ ''/'' @ n)) = rev (d @ ''/'')"
    using n dropWhile_append_stop [of "rev n" "\<lambda>c. c \<noteq> CHR ''/''" "CHR ''/''" "rev d"] by (auto simp: file_name_def)
  then have "path_dir (d @ ''/'' @ n) = path_clean (d @ ''/'')" unfolding path_dir_def by simp
  also have "\<dots> = path_clean d"
    using prefix_slash_append [OF clean_dir_ne [OF d], of "''/''"] path_elements_slash [of d]
    by (simp add: path_clean_def clean_elements_def)
  also have "\<dots> = d" using d by (simp add: clean_dir_def)
  finally show ?thesis .
qed

lemma path_base_join:
  assumes n: "file_name n"
  shows "path_base (d @ ''/'' @ n) = n"
proof -
  obtain c m where c: "rev n = c # m" "c \<noteq> CHR ''/''"
    using n by (cases "rev n") (auto simp: file_name_def)
  have dw: "dropWhile (\<lambda>c. c = CHR ''/'') (rev (d @ ''/'' @ n)) = rev (d @ ''/'' @ n)" using c by simp
  have "takeWhile (\<lambda>c. c \<noteq> CHR ''/'') (rev n @ CHR ''/'' # rev d) = rev n"
    using n by (intro takeWhile_append_stop) (auto simp: file_name_def)
  then have tw: "takeWhile (\<lambda>c. c \<noteq> CHR ''/'') (rev (d @ ''/'' @ n)) = rev n" by simp
  show ?thesis unfolding path_base_def dw Let_def rev_rev_ident tw using n by (simp add: file_name_def)
qed

lemma path_join_two: "clean_dir d \<Longrightarrow> file_name n \<Longrightarrow> path_join [d, n] = d @ ''/'' @ n"
  using clean_dir_ne [of d] path_clean_join [of d n] by (simp add: path_join_def)

end
