(* ===== verification/WgUser.thy ===== *)
theory WgUser
  imports WgTypes OsFiles
begin

text \<open>
  internal/wguser: the client of userspace implementations. parse.go reads the reply to a
  \<open>get\<close> request, configure.go writes a \<open>set\<close> request, client.go finds the device among
  the sockets of the system (conn_unix.go).
\<close>

section \<open>Paths of sockets\<close>

definition device_name :: "string \<Rightarrow> string" where
  "device_name sock = trim_suffix (path_base sock) (path_ext sock)"

text \<open>
  \<open>findUNIXSockets\<close>: \<open>read_dir\<close> gives the entries of a directory, each with whether it
  is a socket. \<open>filepath.Join\<close> of a clean directory and one name puts a slash between them.
\<close>

fun find_unix_sockets :: "(string \<Rightarrow> (string \<times> bool) list res) \<Rightarrow> string list \<Rightarrow> string list res" where
  "find_unix_sockets read_dir [] = Inr []"
| "find_unix_sockets read_dir (d # ds) =
     (case read_dir d of
        Inl e \<Rightarrow> if errors_Is e ErrNotExist then find_unix_sockets read_dir ds else Inl e
      | Inr files \<Rightarrow>
          bind_res (find_unix_sockets read_dir ds)
            (\<lambda>rest. Inr (map (\<lambda>(f, s). d @ ''/'' @ f) (filter snd files) @ rest)))"

definition user_find :: "(string \<Rightarrow> (string \<times> bool) list res) \<Rightarrow> string list res" where
  "user_find read_dir = find_unix_sockets read_dir [''/var/run/wireguard'']"

section \<open>Reading a device\<close>

text \<open>
  \<open>deviceParser\<close>. The counter \<open>peers\<close> is a Go \<open>int\<close> that only counts up;
  \<open>hsSec\<close> and \<open>hsNano\<close> are not reset between peers.
\<close>

record device_parser =
  dp_d :: device
  dp_err :: "go_error option"
  dp_parse_peers :: bool
  dp_peers :: nat
  dp_hs_sec :: int
  dp_hs_nano :: int

definition zero_parser :: device_parser where
  "zero_parser = \<lparr>dp_d = zero_device, dp_err = None, dp_parse_peers = False, dp_peers = 0,
     dp_hs_sec = 0, dp_hs_nano = 0\<rparr>"

text \<open>The value parsers: a result and the parser, whose error is set at the first failure.\<close>

definition dp_value :: "'a \<Rightarrow> 'a res \<Rightarrow> device_parser \<Rightarrow> 'a \<times> device_parser" where
  "dp_value zero r dp =
     (if dp_err dp \<noteq> None then (zero, dp)
      else case r of Inl e \<Rightarrow> (zero, dp\<lparr>dp_err := Some e\<rparr>) | Inr v \<Rightarrow> (v, dp))"

definition dp_parse_key :: "string \<Rightarrow> device_parser \<Rightarrow> key \<times> device_parser" where
  "dp_parse_key s dp = dp_value zero_key (bind_res (hex_decode s) new_key) dp"

definition dp_parse_int :: "string \<Rightarrow> device_parser \<Rightarrow> int \<times> device_parser" where
  "dp_parse_int s dp = dp_value 0 (parse_int64 s) dp"

definition dp_parse_addr :: "resolver \<Rightarrow> string \<Rightarrow> device_parser \<Rightarrow> udp_addr option \<times> device_parser" where
  "dp_parse_addr rs s dp = dp_value None (bind_res (resolve_udp_addr rs s) (\<lambda>a. Inr (Some a))) dp"

definition dp_parse_cidr :: "string \<Rightarrow> device_parser \<Rightarrow> ip_net option \<times> device_parser" where
  "dp_parse_cidr s dp = dp_value None (bind_res (parse_cidr s) (\<lambda>(i, n). Inr (Some n))) dp"

text \<open>
  A write through \<open>curPeer()\<close>. The index is in range whenever this is reached
  (\<open>parser_inv\<close>), so Go's bounds check never fails.
\<close>

definition update_cur_peer :: "(peer \<Rightarrow> peer) \<Rightarrow> device_parser \<Rightarrow> device_parser" where
  "update_cur_peer f dp =
     (let ps = d_peers (dp_d dp); i = dp_peers dp - 1
      in dp\<lparr>dp_d := (dp_d dp)\<lparr>d_peers := ps[i := f (ps ! i)]\<rparr>\<rparr>)"

definition update_dev :: "(device \<Rightarrow> device) \<Rightarrow> device_parser \<Rightarrow> device_parser" where
  "update_dev f dp = dp\<lparr>dp_d := f (dp_d dp)\<rparr>"

definition peer_parse :: "resolver \<Rightarrow> string \<Rightarrow> string \<Rightarrow> device_parser \<Rightarrow> device_parser" where
  "peer_parse rs key value dp =
     (if key = ''preshared_key'' then
        (case dp_parse_key value dp of (k, dp1) \<Rightarrow>
           update_cur_peer (\<lambda>p. p\<lparr>p_preshared_key := k, p_has_preshared_key := True\<rparr>) dp1)
      else if key = ''endpoint'' then
        (case dp_parse_addr rs value dp of (a, dp1) \<Rightarrow>
           update_cur_peer (\<lambda>p. p\<lparr>p_endpoint := a, p_has_endpoint := True\<rparr>) dp1)
      else if key = ''last_handshake_time_sec'' then
        (case dp_parse_int value dp of (i, dp1) \<Rightarrow> dp1\<lparr>dp_hs_sec := i\<rparr>)
      else if key = ''last_handshake_time_nsec'' then
        (case dp_parse_int value dp of (i, dp1) \<Rightarrow>
           (let dp2 = dp1\<lparr>dp_hs_nano := i\<rparr>
            in if 0 < dp_hs_sec dp2 \<and> 0 < dp_hs_nano dp2 then
                 update_cur_peer (\<lambda>p. p\<lparr>p_last_handshake := time_Unix (dp_hs_sec dp2) (dp_hs_nano dp2)\<rparr>) dp2
               else dp2))
      else if key = ''tx_bytes'' then
        (case dp_parse_int value dp of (i, dp1) \<Rightarrow> update_cur_peer (\<lambda>p. p\<lparr>p_transmit_bytes := i\<rparr>) dp1)
      else if key = ''rx_bytes'' then
        (case dp_parse_int value dp of (i, dp1) \<Rightarrow> update_cur_peer (\<lambda>p. p\<lparr>p_receive_bytes := i\<rparr>) dp1)
      else if key = ''persistent_keepalive_interval'' then
        (case dp_parse_int value dp of (i, dp1) \<Rightarrow>
           update_cur_peer (\<lambda>p. p\<lparr>p_keepalive := wrap64 (i * second), p_has_keepalive := True\<rparr>) dp1)
      else if key = ''allowed_ip'' then
        (case dp_parse_cidr value dp of
           (None, dp1) \<Rightarrow> dp1
         | (Some n, dp1) \<Rightarrow> update_cur_peer (\<lambda>p. p\<lparr>p_allowed_ips := p_allowed_ips p @ [n]\<rparr>) dp1)
      else if key = ''protocol_version'' then
        (case dp_parse_int value dp of (i, dp1) \<Rightarrow> update_cur_peer (\<lambda>p. p\<lparr>p_protocol_version := i\<rparr>) dp1)
      else dp)"

definition device_parse :: "string \<Rightarrow> string \<Rightarrow> device_parser \<Rightarrow> device_parser" where
  "device_parse key value dp =
     (if key = ''private_key'' then
        (case dp_parse_key value dp of (k, dp1) \<Rightarrow>
           update_dev (\<lambda>d. d\<lparr>d_private_key := k, d_has_private_key := True\<rparr>) dp1)
      else if key = ''listen_port'' then
        (case dp_parse_int value dp of (i, dp1) \<Rightarrow>
           update_dev (\<lambda>d. d\<lparr>d_listen_port := i, d_has_listen_port := True\<rparr>) dp1)
      else if key = ''fwmark'' then
        (case dp_parse_int value dp of (i, dp1) \<Rightarrow>
           update_dev (\<lambda>d. d\<lparr>d_firewall_mark := i, d_has_firewall_mark := True\<rparr>) dp1)
      else dp)"

definition errno_error :: "int \<Rightarrow> go_error" where
  "errno_error errno = ErrWrap ''read'' (ErrText (''wguser: errno='' @ itoa errno))"

text \<open>\<open>Parse\<close>: the two switches over the key, with the early returns between them.\<close>

definition dp_parse :: "resolver \<Rightarrow> string \<Rightarrow> string \<Rightarrow> device_parser \<Rightarrow> device_parser" where
  "dp_parse rs key value dp =
     (let fields = (\<lambda>dp. if dp_parse_peers dp then peer_parse rs key value dp else device_parse key value dp)
      in if key = ''errno'' then
           (case dp_parse_int value dp of (errno, dp1) \<Rightarrow>
              if errno \<noteq> 0 then dp1\<lparr>dp_err := Some (errno_error errno)\<rparr> else fields dp1)
         else if key = ''public_key'' then
           (case dp_parse_key value (dp\<lparr>dp_parse_peers := True, dp_peers := dp_peers dp + 1\<rparr>) of
              (k, dp1) \<Rightarrow>
                update_dev (\<lambda>d. d\<lparr>d_peers := d_peers d @ [zero_peer\<lparr>p_public_key := k\<rparr>]\<rparr>) dp1)
         else fields dp)"

definition dp_device :: "(byte list \<Rightarrow> byte list) \<Rightarrow> device_parser \<Rightarrow> device res" where
  "dp_device base_mult dp =
     (case dp_err dp of
        Some e \<Rightarrow> Inl e
      | None \<Rightarrow> Inr ((dp_d dp)\<lparr>d_public_key := key_public base_mult (d_private_key (dp_d dp)),
                   d_has_public_key := d_has_private_key (dp_d dp)\<rparr>))"

text \<open>
  The loop of \<open>parseDevice\<close> over the scanner's tokens: the parser, or the error of a line
  that is no pair. An empty line ends it, and then the scanner has no error yet.
\<close>

fun dp_lines :: "resolver \<Rightarrow> string list \<Rightarrow> go_error option \<Rightarrow> device_parser \<Rightarrow> device_parser res" where
  "dp_lines rs [] err dp = (case err of None \<Rightarrow> Inr dp | Some e \<Rightarrow> Inl e)"
| "dp_lines rs (b # bs) err dp =
     (if b = [] then Inr dp
      else case split_on (CHR ''='') b of
        [k, v] \<Rightarrow> dp_lines rs bs err (dp_parse rs k v dp)
      | _ \<Rightarrow> Inl (ErrText ''wguser: invalid key=value pair''))"

definition max_scan_token :: nat where
  "max_scan_token = 64 * 1024"

definition user_parse_device :: "(byte list \<Rightarrow> byte list) \<Rightarrow> resolver \<Rightarrow> reader \<Rightarrow> device res" where
  "user_parse_device base_mult rs r =
     (case scan_lines max_scan_token r of
        (bs, err) \<Rightarrow> bind_res (dp_lines rs bs err zero_parser) (dp_device base_mult))"

section \<open>Writing a configuration\<close>

definition set_line :: "string \<Rightarrow> string \<Rightarrow> string" where
  "set_line k v = k @ ''='' @ v @ [CHR 0x0A]"

definition opt_line :: "string \<Rightarrow> ('a \<Rightarrow> string) \<Rightarrow> 'a option \<Rightarrow> string" where
  "opt_line k f v = (case v of None \<Rightarrow> [] | Some x \<Rightarrow> set_line k (f x))"

definition flag_line :: "string \<Rightarrow> bool \<Rightarrow> string" where
  "flag_line k b = (if b then set_line k ''true'' else [])"

definition hex_key :: "key \<Rightarrow> string" where
  "hex_key k = hex_encode k"

definition op_prefix :: "allowed_ip_op \<Rightarrow> string" where
  "op_prefix op = (if op = AllowedIPRemove then ''-'' else [])"

definition write_peer_config :: "peer_config \<Rightarrow> string" where
  "write_peer_config p =
     set_line ''public_key'' (hex_key (pc_public_key p))
     @ flag_line ''remove'' (pc_remove p)
     @ flag_line ''update_only'' (pc_update_only p)
     @ opt_line ''preshared_key'' hex_key (pc_preshared_key p)
     @ opt_line ''endpoint'' udp_addr_str (pc_endpoint p)
     @ opt_line ''persistent_keepalive_interval'' (\<lambda>d. itoa (int_seconds d)) (pc_keepalive p)
     @ flag_line ''replace_allowed_ips'' (pc_replace_allowed_ips p)
     @ concat (map (\<lambda>n. set_line ''allowed_ip'' (ip_net_str n)) (pc_allowed_ips p))
     @ concat (map (\<lambda>a. set_line ''allowed_ip'' (op_prefix (aip_op a) @ ip_net_str (aip_net a)))
         (pc_allowed_ip_ops p))"

definition write_config :: "config \<Rightarrow> string" where
  "write_config cfg =
     opt_line ''private_key'' hex_key (c_private_key cfg)
     @ opt_line ''listen_port'' itoa (c_listen_port cfg)
     @ opt_line ''fwmark'' itoa (c_firewall_mark cfg)
     @ flag_line ''replace_peers'' (c_replace_peers cfg)
     @ concat (map write_peer_config (c_peers cfg))"

section \<open>The client\<close>

text \<open>
  The sockets of the system, with the state \<open>'s\<close> of the devices behind them.
  \<open>ue_get\<close> writes a request and gives the reply as a stream; \<open>ue_set\<close> writes a request
  and gives what one read into a buffer of 32 bytes returns. Either may change the state and
  fail.
\<close>

record 's user_env =
  ue_find :: "'s \<Rightarrow> string list res"
  ue_dial :: "string \<Rightarrow> 's \<Rightarrow> unit res"
  ue_get :: "string \<Rightarrow> string \<Rightarrow> 's \<Rightarrow> reader res \<times> 's"
  ue_set :: "string \<Rightarrow> string \<Rightarrow> 's \<Rightarrow> string res \<times> 's"
  ue_resolver :: resolver
  ue_base_mult :: "byte list \<Rightarrow> byte list"

definition get_request :: string where
  "get_request = ''get=1'' @ [CHR 0x0A, CHR 0x0A]"

definition set_request :: "config \<Rightarrow> string" where
  "set_request cfg = set_line ''set'' ''1'' @ write_config cfg @ [CHR 0x0A]"

definition user_get_device :: "'s user_env \<Rightarrow> string \<Rightarrow> 's \<Rightarrow> device res \<times> 's" where
  "user_get_device env dev s =
     (case ue_dial env dev s of
        Inl e \<Rightarrow> (Inl e, s)
      | Inr _ \<Rightarrow>
          (case ue_get env dev get_request s of
             (Inl e, s') \<Rightarrow> (Inl e, s')
           | (Inr r, s') \<Rightarrow>
               (bind_res (user_parse_device (ue_base_mult env) (ue_resolver env) r)
                  (\<lambda>d. Inr (d\<lparr>d_name := device_name dev, d_type := Userspace\<rparr>)), s')))"

definition user_configure_device :: "'s user_env \<Rightarrow> string \<Rightarrow> config \<Rightarrow> 's \<Rightarrow> unit res \<times> 's" where
  "user_configure_device env dev cfg s =
     (case ue_dial env dev s of
        Inl e \<Rightarrow> (Inl e, s)
      | Inr _ \<Rightarrow>
          (case ue_set env dev (set_request cfg) s of
             (Inl e, s') \<Rightarrow> (Inl e, s')
           | (Inr res, s') \<Rightarrow>
               (let str = trim_space res
                in if str \<noteq> ''errno=0'' then (Inl (ErrWrap ''read'' (ErrText (''wguser: '' @ str))), s')
                   else (Inr (), s'))))"

fun user_get_all :: "'s user_env \<Rightarrow> string list \<Rightarrow> 's \<Rightarrow> device list res \<times> 's" where
  "user_get_all env [] s = (Inr [], s)"
| "user_get_all env (d # ds) s =
     (case user_get_device env d s of
        (Inl e, s1) \<Rightarrow> (Inl e, s1)
      | (Inr x, s1) \<Rightarrow>
          (case user_get_all env ds s1 of
             (Inl e, s2) \<Rightarrow> (Inl e, s2)
           | (Inr xs, s2) \<Rightarrow> (Inr (x # xs), s2)))"

definition user_devices :: "'s user_env \<Rightarrow> 's \<Rightarrow> device list res \<times> 's" where
  "user_devices env s =
     (case ue_find env s of Inl e \<Rightarrow> (Inl e, s) | Inr ds \<Rightarrow> user_get_all env ds s)"

definition user_device :: "'s user_env \<Rightarrow> string \<Rightarrow> 's \<Rightarrow> device res \<times> 's" where
  "user_device env name s =
     (case ue_find env s of
        Inl e \<Rightarrow> (Inl e, s)
      | Inr ds \<Rightarrow>
          (case find (\<lambda>d. name = device_name d) ds of
             None \<Rightarrow> (Inl ErrNotExist, s)
           | Some d \<Rightarrow> user_get_device env d s))"

definition user_configure :: "'s user_env \<Rightarrow> string \<Rightarrow> config \<Rightarrow> 's \<Rightarrow> unit res \<times> 's" where
  "user_configure env name cfg s =
     (case ue_find env s of
        Inl e \<Rightarrow> (Inl e, s)
      | Inr ds \<Rightarrow>
          (case find (\<lambda>d. name = device_name d) ds of
             None \<Rightarrow> (Inl ErrNotExist, s)
           | Some d \<Rightarrow> user_configure_device env d cfg s))"

definition user_client :: "'s user_env \<Rightarrow> 's client" where
  "user_client env = \<lparr>cl_close = (\<lambda>s. (Inr (), s)), cl_devices = user_devices env,
     cl_device = user_device env, cl_configure = user_configure env\<rparr>"

section \<open>The parser's invariant and its first error\<close>

text \<open>The index of \<open>curPeer\<close> is always that of the last peer.\<close>

definition parser_inv :: "device_parser \<Rightarrow> bool" where
  "parser_inv dp \<longleftrightarrow> dp_peers dp = length (d_peers (dp_d dp)) \<and> (dp_parse_peers dp \<longleftrightarrow> 0 < dp_peers dp)"

lemma dp_value_sel [simp]:
  "dp_d (snd (dp_value z r dp)) = dp_d dp"
  "dp_parse_peers (snd (dp_value z r dp)) = dp_parse_peers dp"
  "dp_peers (snd (dp_value z r dp)) = dp_peers dp"
  by (simp_all add: dp_value_def split: sum.split)

lemma dp_value_error: "dp_err dp = Some e \<Longrightarrow> dp_value z r dp = (z, dp)"
  by (simp add: dp_value_def)

lemmas dp_values = dp_parse_key_def dp_parse_int_def dp_parse_addr_def dp_parse_cidr_def

lemma parser_inv_value: "parser_inv dp \<Longrightarrow> dp_value z r dp = (v, dp') \<Longrightarrow> parser_inv dp'"
  by (auto simp: dp_value_def parser_inv_def split: if_splits sum.splits)

lemma parser_inv_update [simp]:
  "parser_inv (update_cur_peer f dp) = parser_inv dp"
  "(\<And>d. d_peers (g d) = d_peers d) \<Longrightarrow> parser_inv (update_dev g dp) = parser_inv dp"
  "parser_inv (dp\<lparr>dp_hs_sec := i\<rparr>) = parser_inv dp"
  "parser_inv (dp\<lparr>dp_hs_nano := i\<rparr>) = parser_inv dp"
  "parser_inv (dp\<lparr>dp_err := e\<rparr>) = parser_inv dp"
  by (simp_all add: parser_inv_def update_cur_peer_def update_dev_def Let_def)

lemma parser_inv_snd [simp]: "parser_inv (snd (dp_value z r dp)) = parser_inv dp"
  by (simp add: parser_inv_def)

lemma peer_parse_inv: "parser_inv dp \<Longrightarrow> parser_inv (peer_parse rs k v dp)"
  by (simp add: peer_parse_def dp_values case_prod_beta Let_def if_distrib [of parser_inv] split: option.split)

lemma device_parse_inv: "parser_inv dp \<Longrightarrow> parser_inv (device_parse k v dp)"
  by (simp add: device_parse_def dp_values case_prod_beta if_distrib [of parser_inv])

lemma dp_parse_inv:
  assumes "parser_inv dp"
  shows "parser_inv (dp_parse rs k v dp)"
proof (cases "k = ''public_key''")
  case True
  obtain x dp1 where "dp_parse_key v (dp\<lparr>dp_parse_peers := True, dp_peers := dp_peers dp + 1\<rparr>) = (x, dp1)"
    by (cases "dp_parse_key v (dp\<lparr>dp_parse_peers := True, dp_peers := dp_peers dp + 1\<rparr>)")
  moreover from this have "dp_peers dp1 = dp_peers dp + 1" "dp_parse_peers dp1" "dp_d dp1 = dp_d dp"
    using dp_value_sel [of zero_key "bind_res (hex_decode v) new_key"
        "dp\<lparr>dp_parse_peers := True, dp_peers := dp_peers dp + 1\<rparr>"]
    by (auto simp: dp_parse_key_def)
  ultimately show ?thesis
    using True assms by (simp add: dp_parse_def parser_inv_def update_dev_def)
next
  case False
  then show ?thesis
    using assms by (simp add: dp_parse_def Let_def dp_values case_prod_beta if_distrib [of parser_inv]
        peer_parse_inv device_parse_inv)
qed

lemma dp_parse_error:
  "dp_err dp = Some e \<Longrightarrow> dp_err (dp_parse rs k v dp) = Some e"
  by (simp add: dp_parse_def peer_parse_def device_parse_def dp_values dp_value_error Let_def
      update_cur_peer_def update_dev_def)

section \<open>A written configuration read as a device\<close>

definition pair_line :: "string \<times> string \<Rightarrow> string" where
  "pair_line kv = fst kv @ ''='' @ snd kv"

lemma set_line_unlines: "set_line k v = unlines [pair_line (k, v)]"
  by (simp add: set_line_def pair_line_def)

definition opt_pair :: "string \<Rightarrow> ('a \<Rightarrow> string) \<Rightarrow> 'a option \<Rightarrow> (string \<times> string) list" where
  "opt_pair k f v = (case v of None \<Rightarrow> [] | Some x \<Rightarrow> [(k, f x)])"

definition flag_pair :: "string \<Rightarrow> bool \<Rightarrow> (string \<times> string) list" where
  "flag_pair k b = (if b then [(k, ''true'')] else [])"

definition peer_pairs :: "peer_config \<Rightarrow> (string \<times> string) list" where
  "peer_pairs p =
     [(''public_key'', hex_key (pc_public_key p))]
     @ flag_pair ''remove'' (pc_remove p) @ flag_pair ''update_only'' (pc_update_only p)
     @ opt_pair ''preshared_key'' hex_key (pc_preshared_key p)
     @ opt_pair ''endpoint'' udp_addr_str (pc_endpoint p)
     @ opt_pair ''persistent_keepalive_interval'' (\<lambda>d. itoa (int_seconds d)) (pc_keepalive p)
     @ flag_pair ''replace_allowed_ips'' (pc_replace_allowed_ips p)
     @ map (\<lambda>n. (''allowed_ip'', ip_net_str n)) (pc_allowed_ips p)
     @ map (\<lambda>a. (''allowed_ip'', op_prefix (aip_op a) @ ip_net_str (aip_net a))) (pc_allowed_ip_ops p)"

definition config_pairs :: "config \<Rightarrow> (string \<times> string) list" where
  "config_pairs cfg =
     opt_pair ''private_key'' hex_key (c_private_key cfg)
     @ opt_pair ''listen_port'' itoa (c_listen_port cfg)
     @ opt_pair ''fwmark'' itoa (c_firewall_mark cfg)
     @ flag_pair ''replace_peers'' (c_replace_peers cfg)
     @ concat (map peer_pairs (c_peers cfg))"

lemma unlines_pairs [simp]:
  "opt_line k f v = unlines (map pair_line (opt_pair k f v))"
  "flag_line k b = unlines (map pair_line (flag_pair k b))"
  by (cases v; cases b; simp add: opt_line_def opt_pair_def flag_line_def flag_pair_def set_line_def
      pair_line_def)+

lemma unlines_map_pairs: "concat (map (\<lambda>x. set_line k (f x)) xs) = unlines (map pair_line (map (\<lambda>x. (k, f x)) xs))"
  by (induction xs) (simp_all add: set_line_unlines)

lemma write_peer_config_pairs: "write_peer_config p = unlines (map pair_line (peer_pairs p))"
  by (simp add: write_peer_config_def peer_pairs_def unlines_map_pairs set_line_unlines [of "''public_key''"])

lemma write_config_pairs: "write_config cfg = unlines (map pair_line (config_pairs cfg))"
proof -
  have "concat (map write_peer_config ps) = unlines (map pair_line (concat (map peer_pairs ps)))" for ps
    by (induction ps) (simp_all add: write_peer_config_pairs)
  then show ?thesis by (simp add: write_config_def config_pairs_def)
qed

lemma dp_lines_pairs:
  "\<forall>(k, v) \<in> set ps. k \<noteq> [] \<and> CHR ''='' \<notin> set k \<and> CHR ''='' \<notin> set v \<Longrightarrow>
   dp_lines rs (map pair_line ps) None dp = Inr (fold (\<lambda>(k, v). dp_parse rs k v) ps dp)"
proof (induction ps arbitrary: dp)
  case (Cons kv ps)
  obtain k v where kv: "kv = (k, v)" by (cases kv)
  have "split_on (CHR ''='') (k @ CHR ''='' # v) = [k, v]"
    using Cons.prems kv by (simp add: split_on_append split_on_none)
  then show ?case using Cons kv by (simp add: pair_line_def)
qed simp

text \<open>What a peer configuration says of a peer, and a configuration of a device.\<close>

definition configured_peer :: "peer_config \<Rightarrow> peer" where
  "configured_peer p = zero_peer
     \<lparr>p_public_key := pc_public_key p,
      p_preshared_key := (case pc_preshared_key p of None \<Rightarrow> zero_key | Some k \<Rightarrow> k),
      p_has_preshared_key := pc_preshared_key p \<noteq> None,
      p_endpoint := map_option (\<lambda>a. a\<lparr>ua_ip := the (to16 (ua_ip a))\<rparr>) (pc_endpoint p),
      p_has_endpoint := pc_endpoint p \<noteq> None,
      p_keepalive := (case pc_keepalive p of None \<Rightarrow> 0 | Some d \<Rightarrow> int_seconds d * second),
      p_has_keepalive := pc_keepalive p \<noteq> None,
      p_allowed_ips := pc_allowed_ips p @ map aip_net (pc_allowed_ip_ops p)\<rparr>"

definition configured_device :: "(byte list \<Rightarrow> byte list) \<Rightarrow> config \<Rightarrow> device" where
  "configured_device base_mult cfg =
     (let k = (case c_private_key cfg of None \<Rightarrow> zero_key | Some k \<Rightarrow> k)
      in zero_device
       \<lparr>d_private_key := k, d_has_private_key := c_private_key cfg \<noteq> None,
        d_public_key := base_mult k, d_has_public_key := c_private_key cfg \<noteq> None,
        d_listen_port := (case c_listen_port cfg of None \<Rightarrow> 0 | Some p \<Rightarrow> p),
        d_has_listen_port := c_listen_port cfg \<noteq> None,
        d_firewall_mark := (case c_firewall_mark cfg of None \<Rightarrow> 0 | Some p \<Rightarrow> p),
        d_has_firewall_mark := c_firewall_mark cfg \<noteq> None,
        d_peers := map configured_peer (c_peers cfg)\<rparr>)"

definition network :: "ip_net \<Rightarrow> bool" where
  "network n \<longleftrightarrow> canonical_net n \<and> ip_masked (net_ip n) (net_mask n) = net_ip n"

definition int64 :: "int \<Rightarrow> bool" where
  "int64 i \<longleftrightarrow> - (2 ^ 63) \<le> i \<and> i < 2 ^ 63"

definition additive_peer :: "peer_config \<Rightarrow> bool" where
  "additive_peer p \<longleftrightarrow> wf_key (pc_public_key p)
     \<and> opt_all wf_key (pc_preshared_key p)
     \<and> opt_all (\<lambda>a. (length (ua_ip a) = 4 \<or> length (ua_ip a) = 16)
           \<and> 0 \<le> ua_port a \<and> ua_port a \<le> 65535 \<and> ua_zone a = []) (pc_endpoint p)
     \<and> opt_all (\<lambda>d. 0 \<le> d \<and> d < 2 ^ 63) (pc_keepalive p)
     \<and> list_all network (pc_allowed_ips p)
     \<and> list_all (\<lambda>a. network (aip_net a) \<and> aip_op a \<noteq> AllowedIPRemove) (pc_allowed_ip_ops p)"

definition additive_config :: "config \<Rightarrow> bool" where
  "additive_config cfg \<longleftrightarrow> opt_all wf_key (c_private_key cfg)
     \<and> opt_all int64 (c_listen_port cfg) \<and> opt_all int64 (c_firewall_mark cfg)
     \<and> list_all additive_peer (c_peers cfg)"

text \<open>The parser after the pairs of the device \<open>d\<close>, and inside its last peer \<open>p\<close>.\<close>

definition parser_at :: "device \<Rightarrow> device_parser" where
  "parser_at d = \<lparr>dp_d = d, dp_err = None, dp_parse_peers = (d_peers d \<noteq> []),
     dp_peers = length (d_peers d), dp_hs_sec = 0, dp_hs_nano = 0\<rparr>"

definition at_peer :: "device \<Rightarrow> peer list \<Rightarrow> peer \<Rightarrow> device_parser" where
  "at_peer d ps p = parser_at (d\<lparr>d_peers := ps @ [p]\<rparr>)"

lemma at_peer_sel [simp]:
  "dp_err (at_peer d ps p) = None" "dp_parse_peers (at_peer d ps p)"
  "dp_err (parser_at d) = None" "dp_parse_peers (parser_at d) \<longleftrightarrow> d_peers d \<noteq> []"
  by (simp_all add: at_peer_def parser_at_def)

lemma update_cur_peer_at [simp]: "update_cur_peer f (at_peer d ps p) = at_peer d ps (f p)"
  by (simp add: update_cur_peer_def at_peer_def parser_at_def Let_def)

lemma dp_value_Inr [simp]: "dp_err dp = None \<Longrightarrow> dp_value z (Inr v) dp = (v, dp)"
  by (simp add: dp_value_def)

lemma hex_key_decode [simp]: "wf_key k \<Longrightarrow> bind_res (hex_decode (hex_key k)) new_key = Inr k"
  by (simp add: hex_key_def new_key_def wf_key_def)

lemma pair_public_key:
  "wf_key k \<Longrightarrow> dp_parse rs ''public_key'' (hex_key k) (parser_at d) =
     at_peer d (d_peers d) (zero_peer\<lparr>p_public_key := k\<rparr>)"
  by (simp add: dp_parse_def dp_parse_key_def Let_def) (simp add: at_peer_def parser_at_def update_dev_def)

lemma pair_preshared_key:
  "wf_key k \<Longrightarrow> dp_parse rs ''preshared_key'' (hex_key k) (at_peer d ps p) =
     at_peer d ps (p\<lparr>p_preshared_key := k, p_has_preshared_key := True\<rparr>)"
  by (simp add: dp_parse_def peer_parse_def dp_parse_key_def Let_def)

lemma pair_endpoint:
  assumes "length (ua_ip a) = 4 \<or> length (ua_ip a) = 16" "0 \<le> ua_port a" "ua_port a \<le> 65535" "ua_zone a = []"
  shows "dp_parse rs ''endpoint'' (udp_addr_str a) (at_peer d ps p) =
     at_peer d ps (p\<lparr>p_endpoint := Some (a\<lparr>ua_ip := the (to16 (ua_ip a))\<rparr>), p_has_endpoint := True\<rparr>)"
  by (simp add: dp_parse_def peer_parse_def dp_parse_addr_def Let_def resolve_udp_addr_str [OF assms])

lemma pair_keepalive:
  assumes "0 \<le> k" and "k < 2 ^ 63"
  shows "dp_parse rs ''persistent_keepalive_interval'' (itoa (int_seconds k)) (at_peer d ps p) =
     at_peer d ps (p\<lparr>p_keepalive := int_seconds k * second, p_has_keepalive := True\<rparr>)"
proof -
  have "parse_int64 (itoa (int_seconds k)) = Inr (int_seconds k)"
    using int_seconds_bounds [OF assms] assms by (intro parse_int64_itoa) linarith+
  moreover have "0 \<le> int_seconds k * second" using int_seconds_bounds [OF assms] by (simp add: second_def)
  then have "wrap64 (int_seconds k * second) = int_seconds k * second"
    using int_seconds_bounds [OF assms] assms by (intro wrap64_id) linarith+
  ultimately show ?thesis
    by (simp add: dp_parse_def peer_parse_def dp_parse_int_def Let_def)
qed

lemma pair_allowed_ip:
  assumes "network n"
  shows "dp_parse rs ''allowed_ip'' (ip_net_str n) (at_peer d ps p) =
     at_peer d ps (p\<lparr>p_allowed_ips := p_allowed_ips p @ [n]\<rparr>)"
proof -
  have n: "canonical_net n" "ip_masked (net_ip n) (net_mask n) = net_ip n"
    using assms by (simp_all add: network_def)
  have "parse_cidr (ip_net_str n) = Inr (net_ip (net16 n), n)"
    using parse_cidr_ip_net_str [OF n(1)] ip_masked_net16 [OF n] by (cases n) simp
  then show ?thesis by (simp add: dp_parse_def peer_parse_def dp_parse_cidr_def Let_def)
qed

lemma pair_unknown:
  "dp_parse rs ''remove'' v dp = dp" "dp_parse rs ''update_only'' v dp = dp"
  "dp_parse rs ''replace_allowed_ips'' v dp = dp" "dp_parse rs ''replace_peers'' v dp = dp"
  by (simp_all add: dp_parse_def peer_parse_def device_parse_def Let_def)

lemma pairs_allowed_ips:
  "list_all network ns \<Longrightarrow>
   fold (\<lambda>(k, v). dp_parse rs k v) (map (\<lambda>n. (''allowed_ip'', ip_net_str n)) ns) (at_peer d ps p) =
     at_peer d ps (p\<lparr>p_allowed_ips := p_allowed_ips p @ ns\<rparr>)"
  by (induction ns arbitrary: p) (simp_all add: pair_allowed_ip)

lemma pairs_flag:
  "fold (\<lambda>(k, v). dp_parse rs k v) (flag_pair ''remove'' b) dp = dp"
  "fold (\<lambda>(k, v). dp_parse rs k v) (flag_pair ''update_only'' b) dp = dp"
  "fold (\<lambda>(k, v). dp_parse rs k v) (flag_pair ''replace_allowed_ips'' b) dp = dp"
  "fold (\<lambda>(k, v). dp_parse rs k v) (flag_pair ''replace_peers'' b) dp = dp"
  by (simp_all add: flag_pair_def pair_unknown)

lemma parse_peer_pairs:
  assumes p: "additive_peer p"
  shows "fold (\<lambda>(k, v). dp_parse rs k v) (peer_pairs p) (parser_at d) =
    parser_at (d\<lparr>d_peers := d_peers d @ [configured_peer p]\<rparr>)"
proof -
  let ?f = "\<lambda>(k, v). dp_parse rs k v"
  let ?p0 = "zero_peer\<lparr>p_public_key := pc_public_key p\<rparr>"
  let ?p1 = "?p0\<lparr>p_preshared_key := (case pc_preshared_key p of None \<Rightarrow> zero_key | Some k \<Rightarrow> k),
     p_has_preshared_key := pc_preshared_key p \<noteq> None\<rparr>"
  let ?p2 = "?p1\<lparr>p_endpoint := map_option (\<lambda>a. a\<lparr>ua_ip := the (to16 (ua_ip a))\<rparr>) (pc_endpoint p),
     p_has_endpoint := pc_endpoint p \<noteq> None\<rparr>"
  let ?p3 = "?p2\<lparr>p_keepalive := (case pc_keepalive p of None \<Rightarrow> 0 | Some d \<Rightarrow> int_seconds d * second),
     p_has_keepalive := pc_keepalive p \<noteq> None\<rparr>"
  let ?q = "d_peers d"
  have key: "wf_key (pc_public_key p)" using p by (simp add: additive_peer_def)
  have s1: "fold ?f (opt_pair ''preshared_key'' hex_key (pc_preshared_key p)) (at_peer d ?q ?p0) = at_peer d ?q ?p1"
    using p by (cases "pc_preshared_key p")
      (auto simp: opt_pair_def additive_peer_def pair_preshared_key zero_peer_def)
  have s2: "fold ?f (opt_pair ''endpoint'' udp_addr_str (pc_endpoint p)) (at_peer d ?q ?p1) = at_peer d ?q ?p2"
    using p by (cases "pc_endpoint p")
      (auto simp: opt_pair_def additive_peer_def pair_endpoint zero_peer_def)
  have s3: "fold ?f (opt_pair ''persistent_keepalive_interval'' (\<lambda>d. itoa (int_seconds d)) (pc_keepalive p))
      (at_peer d ?q ?p2) = at_peer d ?q ?p3"
    using p by (cases "pc_keepalive p")
      (auto simp: opt_pair_def additive_peer_def pair_keepalive zero_peer_def)
  have ops: "map (\<lambda>a. (''allowed_ip'', op_prefix (aip_op a) @ ip_net_str (aip_net a))) (pc_allowed_ip_ops p) =
      map (\<lambda>n. (''allowed_ip'', ip_net_str n)) (map aip_net (pc_allowed_ip_ops p))"
    using p by (auto simp: additive_peer_def list_all_iff op_prefix_def)
  have nets: "list_all network (pc_allowed_ips p)" "list_all network (map aip_net (pc_allowed_ip_ops p))"
    using p by (auto simp: additive_peer_def list_all_iff)
  have "configured_peer p =
      ?p3\<lparr>p_allowed_ips := p_allowed_ips ?p3 @ pc_allowed_ips p @ map aip_net (pc_allowed_ip_ops p)\<rparr>"
    by (simp add: configured_peer_def zero_peer_def)
  then show ?thesis
    unfolding peer_pairs_def fold_append o_apply fold_simps prod.case pair_public_key [OF key]
    by (simp only: pairs_flag s1 s2 s3 ops pairs_allowed_ips nets) (simp add: at_peer_def)
qed


lemma parse_peers_pairs:
  "list_all additive_peer ps \<Longrightarrow>
   fold (\<lambda>(k, v). dp_parse rs k v) (concat (map peer_pairs ps)) (parser_at d) =
     parser_at (d\<lparr>d_peers := d_peers d @ map configured_peer ps\<rparr>)"
  by (induction ps arbitrary: d) (simp_all add: parse_peer_pairs)

lemma parse_config_pairs:
  assumes c: "additive_config cfg"
  shows "fold (\<lambda>(k, v). dp_parse rs k v) (config_pairs cfg) zero_parser =
    parser_at ((configured_device base_mult cfg)\<lparr>d_public_key := zero_key, d_has_public_key := False\<rparr>)"
proof -
  let ?f = "\<lambda>(k, v). dp_parse rs k v"
  let ?d1 = "zero_device\<lparr>d_private_key := (case c_private_key cfg of None \<Rightarrow> zero_key | Some k \<Rightarrow> k),
     d_has_private_key := c_private_key cfg \<noteq> None\<rparr>"
  let ?d2 = "?d1\<lparr>d_listen_port := (case c_listen_port cfg of None \<Rightarrow> 0 | Some p \<Rightarrow> p),
     d_has_listen_port := c_listen_port cfg \<noteq> None\<rparr>"
  let ?d3 = "?d2\<lparr>d_firewall_mark := (case c_firewall_mark cfg of None \<Rightarrow> 0 | Some p \<Rightarrow> p),
     d_has_firewall_mark := c_firewall_mark cfg \<noteq> None\<rparr>"
  have upd: "update_dev f (parser_at d) = parser_at (f d)" if "d_peers (f d) = d_peers d" for f d
    using that by (simp add: update_dev_def parser_at_def)
  have dev: "dp_parse rs k v (parser_at d) = device_parse k v (parser_at d)"
    if "d_peers d = []" "k \<noteq> ''errno''" "k \<noteq> ''public_key''" for k v d
    using that by (simp add: dp_parse_def Let_def)
  have s0: "zero_parser = parser_at zero_device"
    by (simp add: zero_parser_def parser_at_def zero_device_def)
  have s1: "fold ?f (opt_pair ''private_key'' hex_key (c_private_key cfg)) (parser_at zero_device) = parser_at ?d1"
    using c by (cases "c_private_key cfg")
      (auto simp: opt_pair_def additive_config_def dev zero_device_def device_parse_def dp_parse_key_def upd)
  have s2: "fold ?f (opt_pair ''listen_port'' itoa (c_listen_port cfg)) (parser_at ?d1) = parser_at ?d2"
    using c by (cases "c_listen_port cfg")
      (auto simp: opt_pair_def additive_config_def dev zero_device_def device_parse_def dp_parse_int_def upd
        int64_def parse_int64_itoa)
  have s3: "fold ?f (opt_pair ''fwmark'' itoa (c_firewall_mark cfg)) (parser_at ?d2) = parser_at ?d3"
    using c by (cases "c_firewall_mark cfg")
      (auto simp: opt_pair_def additive_config_def dev zero_device_def device_parse_def dp_parse_int_def upd
        int64_def parse_int64_itoa)
  have peers: "list_all additive_peer (c_peers cfg)" using c by (simp add: additive_config_def)
  show ?thesis
    unfolding config_pairs_def fold_append o_apply s0
    by (simp only: s1 s2 s3 pairs_flag parse_peers_pairs [OF peers])
       (simp add: configured_device_def Let_def zero_device_def)
qed

text \<open>No key or value holds a separator.\<close>

lemma hex_key_set: "set (hex_key k) \<subseteq> digit_set"
proof -
  have "unat b div 16 < 16" for b :: byte using unat_byte_less_256 [of b] by (simp add: less_mult_imp_div_less)
  then have "set (hex_byte b) \<subseteq> digit_set" for b by (auto simp: hex_byte_def intro!: digit_char_in)
  then show ?thesis by (auto simp: hex_key_def hex_encode_def)
qed

definition pair_char :: "char \<Rightarrow> bool" where
  "pair_char c \<longleftrightarrow> graph c \<and> c \<noteq> CHR ''=''"

lemma pair_chars:
  "c \<in> digit_set \<Longrightarrow> pair_char c" "c \<in> set (itoa i) \<Longrightarrow> pair_char c"
  "c \<in> set ''.:0123456789abcdef'' \<Longrightarrow> pair_char c"
  "c \<in> set ''[]/-:'' \<Longrightarrow> pair_char c"
proof -
  have "list_all pair_char (''.:0123456789abcdef'' @ ''-[]/:'')" by code_simp
  then have all: "\<And>c. c \<in> set (''.:0123456789abcdef'' @ ''-[]/:'') \<Longrightarrow> pair_char c"
    unfolding list_all_iff by blast
  show "c \<in> digit_set \<Longrightarrow> pair_char c" by (rule all) (auto simp: digit_set_def)
  show "c \<in> set (itoa i) \<Longrightarrow> pair_char c"
    by (rule all) (use itoa_no_char [of c i] in \<open>auto\<close>)
  show "c \<in> set ''.:0123456789abcdef'' \<Longrightarrow> pair_char c" by (rule all) (simp only: set_append Un_iff simp_thms)
  show "c \<in> set ''[]/-:'' \<Longrightarrow> pair_char c" by (rule all) auto
qed


definition pair_ok :: "string \<times> string \<Rightarrow> bool" where
  "pair_ok kv \<longleftrightarrow> fst kv \<noteq> [] \<and> list_all pair_char (fst kv) \<and> list_all pair_char (snd kv)"

lemma pair_values:
  "list_all pair_char (hex_key k)" "list_all pair_char (itoa i)"
  "canonical_net n \<Longrightarrow> list_all pair_char (ip_net_str n)"
  "\<lbrakk>length (ua_ip a) = 4 \<or> length (ua_ip a) = 16; ua_zone a = []\<rbrakk> \<Longrightarrow> list_all pair_char (udp_addr_str a)"
proof -
  show hex: "list_all pair_char (hex_key k)" for k
    using hex_key_set [of k] pair_chars(1) by (auto simp: list_all_iff)
  show itoa: "list_all pair_char (itoa i)" for i using pair_chars(2) by (auto simp: list_all_iff)
  have ip: "list_all pair_char (ip_str i)" if "length i = 4 \<or> length i = 16" for i
    using ip_str_set [OF that] pair_chars(3) unfolding list_all_iff by blast
  have sep: "pair_char (CHR ''/'')" "pair_char (CHR '':'')" "pair_char (CHR ''['')" "pair_char (CHR '']'')"
    by (auto intro: pair_chars(4))
  have "nat_str 10 m = itoa (int m)" for m by (simp add: itoa_def int_str_def)
  then have dec: "list_all pair_char (nat_str 10 m)" for m using itoa by simp
  show "canonical_net n \<Longrightarrow> list_all pair_char (ip_net_str n)"
    using ip [of "net_ip n"] dec sep by (auto simp: ip_net_str_canonical canonical_net_def)
  assume a: "length (ua_ip a) = 4 \<or> length (ua_ip a) = 16" "ua_zone a = []"
  then show "list_all pair_char (udp_addr_str a)"
    using ip [OF a(1)] itoa sep by (auto simp: udp_addr_str_def join_host_port_def Let_def)
qed

definition pair_key :: "string \<Rightarrow> bool" where
  "pair_key k \<longleftrightarrow> k \<noteq> [] \<and> list_all pair_char k"

lemma pair_keys [simp]:
  "pair_key ''public_key''" "pair_key ''remove''" "pair_key ''update_only''" "pair_key ''preshared_key''"
  "pair_key ''endpoint''" "pair_key ''persistent_keepalive_interval''" "pair_key ''replace_allowed_ips''"
  "pair_key ''allowed_ip''" "pair_key ''private_key''" "pair_key ''listen_port''" "pair_key ''fwmark''"
  "pair_key ''replace_peers''"
  by code_simp+

lemma pair_true: "list_all pair_char ''true''"
  by code_simp

lemma pair_ok_key: "pair_key k \<Longrightarrow> pair_ok (k, v) \<longleftrightarrow> list_all pair_char v"
  by (simp add: pair_key_def pair_ok_def)

lemma opt_pair_ok:
  "pair_key k \<Longrightarrow> (\<And>x. v = Some x \<Longrightarrow> list_all pair_char (f x)) \<Longrightarrow> list_all pair_ok (opt_pair k f v)"
  by (cases v) (simp_all add: opt_pair_def pair_ok_key)

lemma flag_pair_ok: "pair_key k \<Longrightarrow> list_all pair_ok (flag_pair k b)"
  using pair_true by (simp add: flag_pair_def pair_ok_key)

lemma map_pair_ok:
  "pair_key k \<Longrightarrow> (\<And>x. x \<in> set xs \<Longrightarrow> list_all pair_char (f x)) \<Longrightarrow>
   list_all pair_ok (map (\<lambda>x. (k, f x)) xs)"
  by (induction xs) (simp_all add: pair_ok_key)

lemma peer_pairs_ok:
  assumes p: "additive_peer p"
  shows "list_all pair_ok (peer_pairs p)"
proof -
  have nets: "list_all pair_char (ip_net_str n)" if "n \<in> set (pc_allowed_ips p)" for n
    using p that by (auto simp: additive_peer_def list_all_iff [of network] network_def pair_values)
  have ops: "list_all pair_char (op_prefix (aip_op a) @ ip_net_str (aip_net a))"
    if "a \<in> set (pc_allowed_ip_ops p)" for a
  proof -
    have "network (aip_net a) \<and> aip_op a \<noteq> AllowedIPRemove"
      using p that unfolding additive_peer_def list_all_iff by blast
    then show ?thesis by (simp add: op_prefix_def network_def pair_values)
  qed
  have ep: "list_all pair_char (udp_addr_str a)" if "pc_endpoint p = Some a" for a
    using p that by (intro pair_values(4)) (auto simp: additive_peer_def)
  show ?thesis
    unfolding peer_pairs_def list_all_append
    by (intro conjI flag_pair_ok opt_pair_ok map_pair_ok)
       (simp_all add: pair_ok_key pair_values nets ops ep del: list_all_append)
qed

lemma config_pairs_ok: "additive_config cfg \<Longrightarrow> list_all pair_ok (config_pairs cfg)"
proof -
  assume c: "additive_config cfg"
  then have "list_all pair_ok (concat (map peer_pairs (c_peers cfg)))"
    using peer_pairs_ok by (fastforce simp: additive_config_def list_all_iff)
  then show ?thesis
    unfolding config_pairs_def list_all_append
    by (intro conjI flag_pair_ok opt_pair_ok) (simp_all add: pair_values)
qed

lemma config_read_lines:
  assumes c: "additive_config cfg"
    and short: "\<forall>l \<in> set (raw_lines (write_config cfg)). length l < max_scan_token"
  shows "scan_lines max_scan_token \<lparr>rd_data = write_config cfg, rd_err = None\<rparr> =
    (map pair_line (config_pairs cfg), None)"
proof -
  have ctl: "\<not> pair_char (CHR 0x0A)" "\<not> pair_char (CHR 0x0D)" "CHR ''='' \<noteq> CHR 0x0A" "CHR ''='' \<noteq> CHR 0x0D"
    by code_simp+
  have "CHR 0x0A \<notin> set l \<and> CHR 0x0D \<notin> set l" if "l \<in> set (map pair_line (config_pairs cfg))" for l
    using that config_pairs_ok [OF c] ctl by (auto simp: pair_line_def pair_ok_def list_all_iff)
  moreover from this have "raw_lines (write_config cfg) = map pair_line (config_pairs cfg)"
    unfolding write_config_pairs by (intro raw_lines_unlines) blast
  ultimately show ?thesis
    using short unfolding write_config_pairs by (intro scan_lines_unlines) auto
qed

lemma parse_written_config:
  assumes c: "additive_config cfg"
    and short: "\<forall>l \<in> set (raw_lines (write_config cfg)). length l < max_scan_token"
  shows "user_parse_device base_mult rs \<lparr>rd_data = write_config cfg, rd_err = None\<rparr> =
    Inr (configured_device base_mult cfg)"
proof -
  have eq: "\<not> pair_char (CHR ''='')" by code_simp
  have "\<forall>(k, v) \<in> set (config_pairs cfg). k \<noteq> [] \<and> CHR ''='' \<notin> set k \<and> CHR ''='' \<notin> set v"
    using config_pairs_ok [OF c] eq by (fastforce simp: pair_ok_def list_all_iff)
  then have "dp_lines rs (map pair_line (config_pairs cfg)) None zero_parser =
      Inr (fold (\<lambda>(k, v). dp_parse rs k v) (config_pairs cfg) zero_parser)"
    by (rule dp_lines_pairs)
  then show ?thesis
    by (simp add: user_parse_device_def config_read_lines [OF c short] parse_config_pairs [OF c, of rs base_mult]
        dp_device_def parser_at_def)
       (simp add: configured_device_def Let_def key_public_def)
qed

section \<open>Names of devices\<close>

lemma path_of_socket:
  assumes "CHR ''/'' \<notin> set name"
  shows "path_base (dir @ ''/'' @ name @ ''.sock'') = name @ ''.sock''"
    and "path_ext (dir @ ''/'' @ name @ ''.sock'') = ''.sock''"
proof -
  let ?p = "dir @ ''/'' @ name @ ''.sock''"
  have no: "CHR ''/'' \<notin> set (rev (name @ ''.sock''))" using assms by simp
  have r: "rev ?p = rev (name @ ''.sock'') @ CHR ''/'' # rev dir" by simp
  have tw: "takeWhile (\<lambda>c. c \<noteq> CHR ''/'') (rev ?p) = rev (name @ ''.sock'')"
    unfolding r by (rule takeWhile_append_stop) (use no in auto)
  have dw: "dropWhile (\<lambda>c. c = CHR ''/'') (rev ?p) = rev ?p"
    by simp
  show "path_base ?p = name @ ''.sock''"
    unfolding path_base_def dw Let_def rev_rev_ident tw by simp
  have "cut_last (CHR ''.'') (name @ CHR ''.'' # ''sock'') = Some (name, ''sock'')"
    by (rule cut_last_append) simp
  then show "path_ext ?p = ''.sock''"
    unfolding path_ext_def Let_def tw rev_rev_ident by simp
qed

lemma user_get_device_fields:
  "user_get_device env dev s = (Inr d, s') \<Longrightarrow> d_name d = device_name dev \<and> d_type d = Userspace"
  by (auto simp: user_get_device_def bind_res_Inr_iff split: sum.splits prod.splits)

section \<open>Properties\<close>

text \<open>
  C5. The two halves of the protocol agree: the lines that \<open>writeConfig\<close> writes for a
  configuration that only adds (no allowed IP removed) are read by \<open>parseDevice\<close> as the device
  with exactly those values, every peer in order, each with its own keys, endpoint, keepalive in
  whole seconds and networks.
\<close>

theorem user_parse_written:
  assumes "additive_config cfg"
    and "\<forall>l \<in> set (raw_lines (write_config cfg)). length l < max_scan_token"
  shows "user_parse_device base_mult rs \<lparr>rd_data = write_config cfg, rd_err = None\<rparr> =
    Inr (configured_device base_mult cfg)"
  using assms by (rule parse_written_config)

definition sample_config :: config where
  "sample_config = \<lparr>c_private_key = Some (replicate 32 1), c_listen_port = Some 51820,
     c_firewall_mark = Some 0, c_replace_peers = True,
     c_peers = [zero_peer_config\<lparr>pc_public_key := replicate 32 2, pc_replace_allowed_ips := True,
         pc_endpoint := Some \<lparr>ua_ip = [192, 0, 2, 1], ua_port = 7, ua_zone = []\<rparr>,
         pc_allowed_ips := [\<lparr>net_ip = [10, 0, 0, 0], net_mask = mask_bytes 4 8\<rparr>]\<rparr>,
       zero_peer_config\<lparr>pc_public_key := replicate 32 3, pc_keepalive := Some (25 * second),
         pc_allowed_ip_ops := [\<lparr>aip_net = \<lparr>net_ip = [0xFD] @ replicate 15 0, net_mask = mask_bytes 16 8\<rparr>,
           aip_op = AllowedIPAdd\<rparr>]\<rparr>]\<rparr>"

lemma sample_config_ok:
  "additive_config sample_config"
  "\<forall>l \<in> set (raw_lines (write_config sample_config)). length l < max_scan_token"
  by code_simp+

theorem user_parse_written_witness:
  "user_parse_device (\<lambda>k. k) \<lparr>lookup_service = (\<lambda>_. Inr 0), lookup_host = (\<lambda>_. Inr [])\<rparr>
     \<lparr>rd_data = write_config sample_config, rd_err = None\<rparr> = Inr (configured_device (\<lambda>k. k) sample_config)"
  by (rule user_parse_written [OF sample_config_ok])

text \<open>
  Whatever lines a device sends, in whatever order, \<open>curPeer\<close> indexes the last peer: the
  counter equals the number of peers, and peer fields are only parsed once there is one, so the
  slice access never panics.
\<close>

theorem deviceParser_index: "parser_inv (fold (\<lambda>(k, v). dp_parse rs k v) kvs zero_parser)"
proof -
  have "parser_inv dp \<Longrightarrow> parser_inv (fold (\<lambda>(k, v). dp_parse rs k v) kvs dp)" for dp
    by (induction kvs arbitrary: dp) (auto intro: dp_parse_inv)
  moreover have "parser_inv zero_parser" by (simp add: parser_inv_def zero_parser_def zero_device_def)
  ultimately show ?thesis by blast
qed

text \<open>
  C38. The error of a device is its first: once one is set, no later line, not even an
  \<open>errno\<close>, replaces or clears it.
\<close>

theorem deviceParser_first_error:
  assumes "dp_err dp = Some e"
  shows "dp_err (fold (\<lambda>(k, v). dp_parse rs k v) kvs dp) = Some e"
  using assms by (induction kvs arbitrary: dp) (auto simp: dp_parse_error)

theorem deviceParser_first_error_witness:
  "dp_err (fold (\<lambda>(k, v). dp_parse \<lparr>lookup_service = (\<lambda>_. Inr 0), lookup_host = (\<lambda>_. Inr [])\<rparr> k v)
     [(''errno'', ''1'')] (zero_parser\<lparr>dp_err := Some ErrNotExist\<rparr>)) = Some ErrNotExist"
  by (rule deviceParser_first_error) simp

text \<open>
  A handshake at a whole second is lost: a peer that reports any number of seconds and zero
  nanoseconds is returned with the zero time, although the comment in \<open>peerParse\<close> has the time
  left out only where both fields are zero.
\<close>

theorem handshake_whole_second_lost:
  assumes "wf_key k" and "int64 sec"
  shows "map p_last_handshake (d_peers (dp_d (fold (\<lambda>(k, v). dp_parse rs k v)
     [(''public_key'', hex_key k), (''last_handshake_time_sec'', itoa sec),
      (''last_handshake_time_nsec'', ''0'')] zero_parser))) = [zero_time]"
proof -
  have s0: "zero_parser = parser_at zero_device"
    by (simp add: zero_parser_def parser_at_def zero_device_def)
  have sec: "parse_int64 (itoa sec) = Inr sec" using assms(2) by (simp add: int64_def parse_int64_itoa)
  have zero: "parse_int64 ''0'' = Inr 0" by code_simp
  have st: "dp_err (at_peer d ps p\<lparr>dp_hs_sec := i\<rparr>) = None" "dp_parse_peers (at_peer d ps p\<lparr>dp_hs_sec := i\<rparr>)" for d ps p i
    by (simp_all add: at_peer_def parser_at_def)
  show ?thesis
    unfolding s0
    by (simp add: pair_public_key [OF assms(1)] dp_parse_def [of _ "''last_handshake_time_sec''"]
        dp_parse_def [of _ "''last_handshake_time_nsec''"] peer_parse_def dp_parse_int_def sec zero Let_def st)
       (simp add: at_peer_def parser_at_def zero_device_def zero_peer_def)
qed

theorem handshake_whole_second_lost_witness:
  "map p_last_handshake (d_peers (dp_d (fold (\<lambda>(k, v). dp_parse \<lparr>lookup_service = (\<lambda>_. Inr 0),
       lookup_host = (\<lambda>_. Inr [])\<rparr> k v)
     [(''public_key'', hex_key zero_key), (''last_handshake_time_sec'', itoa 1700000000),
      (''last_handshake_time_nsec'', ''0'')] zero_parser))) = [zero_time]"
  by (rule handshake_whole_second_lost) (simp_all add: int64_def)

text \<open>
  A device is known by the name of its socket: the name inferred from
  \<open><dir>/<name>.sock\<close> is \<open><name>\<close>, dots in it included.
\<close>

theorem deviceName_socket:
  assumes "CHR ''/'' \<notin> set name"
  shows "device_name (dir @ ''/'' @ name @ ''.sock'') = name"
  unfolding device_name_def path_of_socket [OF assms] by (simp add: trim_suffix_def suffix_def)

theorem deviceName_socket_witness: "device_name (''/var/run/wireguard'' @ ''/'' @ ''wg0.a'' @ ''.sock'') = ''wg0.a''"
  by (rule deviceName_socket) simp

text \<open>
  \<open>Device\<close> returns the device that was asked for: its name is the requested one and its
  type is \<open>Userspace\<close>, whatever the socket's reply says.
\<close>

lemma user_device_name:
  assumes "user_device env name s = (Inr d, s')"
  shows "d_name d = name \<and> d_type d = Userspace"
proof -
  from assms obtain ds dev where "find (\<lambda>d. name = device_name d) ds = Some dev"
      "user_get_device env dev s = (Inr d, s')"
    by (auto simp: user_device_def split: sum.splits option.splits)
  then show ?thesis using user_get_device_fields by (fastforce simp: find_Some_iff)
qed

definition sample_user_env :: "unit user_env" where
  "sample_user_env = \<lparr>ue_find = (\<lambda>_. Inr [''/var/run/wireguard/wg0.sock'']), ue_dial = (\<lambda>_ _. Inr ()),
     ue_get = (\<lambda>_ _ s. (Inr \<lparr>rd_data = ''listen_port=7'' @ [CHR 0x0A], rd_err = None\<rparr>, s)),
     ue_set = (\<lambda>_ _ s. (Inr ''errno=0'', s)),
     ue_resolver = \<lparr>lookup_service = (\<lambda>_. Inr 0), lookup_host = (\<lambda>_. Inr [])\<rparr>, ue_base_mult = (\<lambda>k. k)\<rparr>"

lemma user_device_name_example:
  "case fst (user_device sample_user_env ''wg0'' ()) of Inl _ \<Rightarrow> False | Inr d \<Rightarrow> d_name d = ''wg0''"
proof -
  obtain r s' where u: "user_device sample_user_env ''wg0'' () = (r, s')"
    by (cases "user_device sample_user_env ''wg0'' ()")
  have "is_ok (fst (user_device sample_user_env ''wg0'' ()))" by code_simp
  then obtain d where "r = Inr d" using u by (cases r) auto
  with u show ?thesis using user_device_name [of sample_user_env "''wg0''" "()" d s'] by simp
qed

end
