(* ===== verification/WgBatch.thy ===== *)
theory WgBatch
  imports WgTypes
begin

text \<open>
  internal/wglinux/configure_linux.go, the batching of large configurations: one netlink
  message holds a single peer with at most \<open>ipBatchChunk\<close> allowed IPs. The reference
  semantics at the end says what a sequence of messages does to an interface.
\<close>

section \<open>Building batches\<close>

definition ip_batch_chunk :: nat where
  "ip_batch_chunk = 256"

definition peer_batch_chunk :: nat where
  "peer_batch_chunk = 32"

definition should_batch :: "config \<Rightarrow> bool" where
  "should_batch cfg =
     (if peer_batch_chunk < length (c_peers cfg) then True
      else ip_batch_chunk
        < sum_list (map (\<lambda>p. length (pc_allowed_ips p) + length (pc_allowed_ip_ops p)) (c_peers cfg)))"

text \<open>The peer of one message: the fields of its first occurrence, or only its IPs.\<close>

definition chunk_peer :: "peer_config \<Rightarrow> bool \<Rightarrow> ip_net list \<Rightarrow> allowed_ip_config list \<Rightarrow> peer_config" where
  "chunk_peer p first tmp operations =
     (let pcfg = zero_peer_config\<lparr>pc_public_key := pc_public_key p, pc_update_only := pc_update_only p,
            pc_remove := pc_remove p, pc_allowed_ips := tmp, pc_allowed_ip_ops := operations\<rparr>
      in if first then
           pcfg\<lparr>pc_preshared_key := pc_preshared_key p, pc_endpoint := pc_endpoint p,
             pc_keepalive := pc_keepalive p, pc_replace_allowed_ips := pc_replace_allowed_ips p\<rparr>
         else pcfg)"

text \<open>
  The loop over one peer's allowed IPs: its batches and the known peers after it. Every turn
  takes an IP or an operation, or is the last.
\<close>

function batch_peer :: "config \<Rightarrow> peer_config \<Rightarrow> key set \<Rightarrow> config list \<times> key set" where
  "batch_peer base p known =
     (let ips = pc_allowed_ips p; ops = pc_allowed_ip_ops p;
          tmp = (if length ips < ip_batch_chunk then ips else take ip_batch_chunk ips);
          ips' = (if length ips < ip_batch_chunk then [] else drop ip_batch_chunk ips);
          remaining = min (ip_batch_chunk - length tmp) (length ops);
          operations = take remaining ops; ops' = drop remaining ops;
          batch = base\<lparr>c_peers := [chunk_peer p (pc_public_key p \<notin> known) tmp operations]\<rparr>;
          known' = insert (pc_public_key p) known
      in if ips' = [] \<and> ops' = [] then ([batch], known')
         else (case batch_peer base (p\<lparr>pc_allowed_ips := ips', pc_allowed_ip_ops := ops'\<rparr>) known' of
                 (bs, k) \<Rightarrow> (batch # bs, k)))"
  by pat_completeness auto
termination
  by (relation "measure (\<lambda>(base, p, known). length (pc_allowed_ips p) + length (pc_allowed_ip_ops p))")
     (auto simp: ip_batch_chunk_def split: if_splits)

declare batch_peer.simps [simp del]

fun batch_peers :: "config \<Rightarrow> peer_config list \<Rightarrow> key set \<Rightarrow> config list" where
  "batch_peers base [] known = []"
| "batch_peers base (p # ps) known =
     (case batch_peer base p known of (bs, known') \<Rightarrow> bs @ batch_peers base ps known')"

definition clear_replace :: "config list \<Rightarrow> config list" where
  "clear_replace bs =
     (case bs of [] \<Rightarrow> [] | b # rest \<Rightarrow> b # map (\<lambda>c. c\<lparr>c_replace_peers := False\<rparr>) rest)"

definition build_batches :: "config \<Rightarrow> config list" where
  "build_batches cfg =
     (if \<not> should_batch cfg then [cfg]
      else clear_replace (batch_peers (cfg\<lparr>c_peers := []\<rparr>) (c_peers cfg) {}))"

section \<open>What a configuration message does\<close>

text \<open>
  The reference semantics of a set-device message, as wg(8) and the comments on \<open>Config\<close>
  and \<open>PeerConfig\<close> in wgtypes describe it: fields that are set are replaced; a peer is
  created unless it is to be removed or only updated; its allowed IPs are cleared first when
  they are to be replaced, then added or removed one by one, an IP moving to the peer it is
  added to. The peers are a map from their keys, the allowed IPs a map from networks to peers.
\<close>

record kernel_peer =
  kp_preshared_key :: key
  kp_endpoint :: "udp_addr option"
  kp_keepalive :: int

record kernel =
  k_private_key :: key
  k_listen_port :: int
  k_firewall_mark :: int
  k_peers :: "key \<Rightarrow> kernel_peer option"
  k_allowed :: "ip_net \<Rightarrow> key option"

definition new_kernel_peer :: kernel_peer where
  "new_kernel_peer = \<lparr>kp_preshared_key = zero_key, kp_endpoint = None, kp_keepalive = 0\<rparr>"

definition set_opt :: "'a option \<Rightarrow> ('a \<Rightarrow> 'b \<Rightarrow> 'b) \<Rightarrow> 'b \<Rightarrow> 'b" where
  "set_opt v f x = (case v of None \<Rightarrow> x | Some a \<Rightarrow> f a x)"

definition drop_owner :: "key \<Rightarrow> (ip_net \<Rightarrow> key option) \<Rightarrow> ip_net \<Rightarrow> key option" where
  "drop_owner k m = (\<lambda>n. if m n = Some k then None else m n)"

fun apply_ip :: "key \<Rightarrow> ip_net \<times> bool \<Rightarrow> (ip_net \<Rightarrow> key option) \<Rightarrow> ip_net \<Rightarrow> key option" where
  "apply_ip k (n, False) m = m(n \<mapsto> k)"
| "apply_ip k (n, True) m = (if m n = Some k then m(n := None) else m)"

definition entries :: "peer_config \<Rightarrow> (ip_net \<times> bool) list" where
  "entries p = map (\<lambda>n. (n, False)) (pc_allowed_ips p)
     @ map (\<lambda>a. (aip_net a, aip_op a = AllowedIPRemove)) (pc_allowed_ip_ops p)"

definition update_kernel_peer :: "peer_config \<Rightarrow> kernel_peer \<Rightarrow> kernel_peer" where
  "update_kernel_peer p q =
     set_opt (pc_preshared_key p) (\<lambda>k q. q\<lparr>kp_preshared_key := k\<rparr>)
       (set_opt (pc_endpoint p) (\<lambda>a q. q\<lparr>kp_endpoint := Some a\<rparr>)
         (set_opt (pc_keepalive p) (\<lambda>d q. q\<lparr>kp_keepalive := d\<rparr>) q))"

definition apply_peer :: "peer_config \<Rightarrow> kernel \<Rightarrow> kernel" where
  "apply_peer p s =
     (let k = pc_public_key p
      in case k_peers s k of
           None \<Rightarrow>
             if pc_remove p \<or> pc_update_only p then s
             else s\<lparr>k_peers := (k_peers s)(k \<mapsto> update_kernel_peer p new_kernel_peer),
                    k_allowed := fold (apply_ip k) (entries p)
                      (if pc_replace_allowed_ips p then drop_owner k (k_allowed s) else k_allowed s)\<rparr>
         | Some q \<Rightarrow>
             if pc_remove p then
               s\<lparr>k_peers := (k_peers s)(k := None), k_allowed := drop_owner k (k_allowed s)\<rparr>
             else s\<lparr>k_peers := (k_peers s)(k \<mapsto> update_kernel_peer p q),
                    k_allowed := fold (apply_ip k) (entries p)
                      (if pc_replace_allowed_ips p then drop_owner k (k_allowed s) else k_allowed s)\<rparr>)"

definition apply_device :: "config \<Rightarrow> kernel \<Rightarrow> kernel" where
  "apply_device c s =
     set_opt (c_private_key c) (\<lambda>k s. s\<lparr>k_private_key := k\<rparr>)
       (set_opt (c_listen_port c) (\<lambda>p s. s\<lparr>k_listen_port := p\<rparr>)
         (set_opt (c_firewall_mark c) (\<lambda>m s. s\<lparr>k_firewall_mark := m\<rparr>)
           (if c_replace_peers c then s\<lparr>k_peers := \<lambda>_. None, k_allowed := \<lambda>_. None\<rparr> else s)))"

definition apply_config :: "config \<Rightarrow> kernel \<Rightarrow> kernel" where
  "apply_config c s = fold apply_peer (c_peers c) (apply_device c s)"

section \<open>The peers of the batches\<close>

text \<open>The peers that the loop makes of one peer, without the configuration around them.\<close>

function chunks :: "bool \<Rightarrow> peer_config \<Rightarrow> peer_config list" where
  "chunks first p =
     (let ips = pc_allowed_ips p; ops = pc_allowed_ip_ops p; n = ip_batch_chunk
      in if length ips + length ops \<le> n then [chunk_peer p first ips ops]
         else chunk_peer p first (take n ips) (take (n - length ips) ops)
           # chunks False (p\<lparr>pc_allowed_ips := drop n ips, pc_allowed_ip_ops := drop (n - length ips) ops\<rparr>))"
  by pat_completeness auto
termination
  by (relation "measure (\<lambda>(first, p). length (pc_allowed_ips p) + length (pc_allowed_ip_ops p))")
     (auto simp: ip_batch_chunk_def)

declare chunks.simps [simp del]

lemma batch_peer_chunks:
  "batch_peer base p known =
     (map (\<lambda>q. base\<lparr>c_peers := [q]\<rparr>) (chunks (pc_public_key p \<notin> known) p), insert (pc_public_key p) known)"
proof (induction base p known rule: batch_peer.induct)
  case (1 base p known)
  let ?ips = "pc_allowed_ips p" and ?ops = "pc_allowed_ip_ops p"
  define tmp where "tmp = (if length ?ips < ip_batch_chunk then ?ips else take ip_batch_chunk ?ips)"
  define ips' where "ips' = (if length ?ips < ip_batch_chunk then [] else drop ip_batch_chunk ?ips)"
  define r where "r = min (ip_batch_chunk - length tmp) (length ?ops)"
  have tmp: "tmp = take ip_batch_chunk ?ips" and ips': "ips' = drop ip_batch_chunk ?ips"
    by (simp_all add: tmp_def ips'_def)
  have ops: "take r ?ops = take (ip_batch_chunk - length ?ips) ?ops"
      "drop r ?ops = drop (ip_batch_chunk - length ?ips) ?ops"
    by (auto simp: r_def tmp min_def)
  have last: "ips' = [] \<and> drop r ?ops = [] \<longleftrightarrow> length ?ips + length ?ops \<le> ip_batch_chunk"
    unfolding ips' ops by auto
  let ?b = "base\<lparr>c_peers := [chunk_peer p (pc_public_key p \<notin> known) tmp (take r ?ops)]\<rparr>"
  let ?p' = "p\<lparr>pc_allowed_ips := ips', pc_allowed_ip_ops := drop r ?ops\<rparr>"
  let ?k' = "insert (pc_public_key p) known"
  have eq: "batch_peer base p known =
      (if ips' = [] \<and> drop r ?ops = [] then ([?b], ?k')
       else (case batch_peer base ?p' ?k' of (bs, k) \<Rightarrow> (?b # bs, k)))"
    by (subst batch_peer.simps) (simp only: Let_def tmp_def ips'_def r_def)
  have IH: "\<not> (ips' = [] \<and> drop r ?ops = []) \<Longrightarrow>
      batch_peer base ?p' ?k' = (map (\<lambda>q. base\<lparr>c_peers := [q]\<rparr>) (chunks False ?p'), ?k')"
    using 1 unfolding Let_def tmp_def ips'_def r_def by simp
  show ?case
  proof (cases "length ?ips + length ?ops \<le> ip_batch_chunk")
    case True
    then have "tmp = ?ips" "take r ?ops = ?ops" unfolding tmp ops by auto
    with True show ?thesis unfolding eq using last
      by (subst chunks.simps) (simp add: Let_def)
  next
    case False
    then have nl: "\<not> (ips' = [] \<and> drop r ?ops = [])" using last by blast
    have "chunks f p = chunk_peer p f tmp (take r ?ops) # chunks False ?p'" for f
      unfolding tmp ips' ops using False by (subst chunks.simps) (simp add: Let_def)
    then show ?thesis unfolding eq if_not_P [OF nl] IH [OF nl] by simp
  qed
qed

lemma chunk_peer_sel [simp]:
  "pc_public_key (chunk_peer p f i a) = pc_public_key p"
  "pc_remove (chunk_peer p f i a) = pc_remove p"
  "pc_update_only (chunk_peer p f i a) = pc_update_only p"
  "pc_allowed_ips (chunk_peer p f i a) = i"
  "pc_allowed_ip_ops (chunk_peer p f i a) = a"
  "pc_replace_allowed_ips (chunk_peer p f i a) \<longleftrightarrow> f \<and> pc_replace_allowed_ips p"
  by (simp_all add: chunk_peer_def zero_peer_config_def Let_def)

lemma chunk_peer_update [simp]:
  "chunk_peer (p\<lparr>pc_allowed_ips := i, pc_allowed_ip_ops := a\<rparr>) f = chunk_peer p f"
  by (auto simp: chunk_peer_def Let_def fun_eq_iff)

definition fits :: "peer_config \<Rightarrow> bool" where
  "fits p \<longleftrightarrow> length (pc_allowed_ips p) + length (pc_allowed_ip_ops p) \<le> ip_batch_chunk"

lemma chunks_fit: "q \<in> set (chunks first p) \<Longrightarrow> fits q \<and> pc_public_key q = pc_public_key p"
proof (induction first p rule: chunks.induct)
  case (1 first p)
  then show ?case
    by (subst (asm) (2) chunks.simps) (auto simp: Let_def fits_def split: if_splits)
qed

lemma entries_chunk:
  "entries (chunk_peer p f (take n (pc_allowed_ips p)) (take (n - length (pc_allowed_ips p)) (pc_allowed_ip_ops p)))
     @ entries (p\<lparr>pc_allowed_ips := drop n (pc_allowed_ips p),
                  pc_allowed_ip_ops := drop (n - length (pc_allowed_ips p)) (pc_allowed_ip_ops p)\<rparr>)
   = entries p"
proof (cases "length (pc_allowed_ips p) \<le> n")
  case True
  then show ?thesis by (simp add: entries_def map_append [symmetric])
next
  case False
  then show ?thesis by (simp add: entries_def) (metis append_assoc append_take_drop_id map_append)
qed

lemma chunks_entries: "concat (map entries (chunks first p)) = entries p"
proof (induction first p rule: chunks.induct)
  case (1 first p)
  show ?case
  proof (cases "length (pc_allowed_ips p) + length (pc_allowed_ip_ops p) \<le> ip_batch_chunk")
    case True
    then show ?thesis by (subst chunks.simps) (simp add: Let_def entries_def)
  next
    case False
    then show ?thesis using "1.IH" [OF refl refl refl] entries_chunk [of p first ip_batch_chunk]
      by (subst chunks.simps) (simp add: Let_def)
  qed
qed

section \<open>Applying the chunks of a peer\<close>

lemma update_kernel_peer_chunk [simp]: "update_kernel_peer (chunk_peer p False i a) q = q"
  by (simp add: update_kernel_peer_def chunk_peer_def zero_peer_config_def set_opt_def Let_def)

lemma apply_chunks_merge:
  assumes "entries p1 @ entries p2 = entries p"
    and "pc_public_key p1 = pc_public_key p" "pc_remove p1 = pc_remove p" "pc_update_only p1 = pc_update_only p"
    and "pc_replace_allowed_ips p1 = pc_replace_allowed_ips p" "\<And>q. update_kernel_peer p1 q = update_kernel_peer p q"
    and "pc_public_key p2 = pc_public_key p" "pc_remove p2 = pc_remove p" "pc_update_only p2 = pc_update_only p"
    and "\<not> pc_replace_allowed_ips p2" "\<And>q. update_kernel_peer p2 q = q"
  shows "apply_peer p2 (apply_peer p1 s) = apply_peer p s"
  using assms(2-) unfolding apply_peer_def assms(1) [symmetric]
  by (cases "k_peers s (pc_public_key p)"; cases "pc_remove p"; cases "pc_update_only p") (simp_all add: Let_def)

lemma apply_chunks: "fold apply_peer (chunks first p) s =
   apply_peer (chunk_peer p first (pc_allowed_ips p) (pc_allowed_ip_ops p)) s"
proof (induction first p arbitrary: s rule: chunks.induct)
  case (1 first p)
  let ?n = ip_batch_chunk and ?ips = "pc_allowed_ips p" and ?ops = "pc_allowed_ip_ops p"
  show ?case
  proof (cases "length ?ips + length ?ops \<le> ?n")
    case True
    then show ?thesis by (subst chunks.simps) (simp add: Let_def)
  next
    case False
    let ?p' = "p\<lparr>pc_allowed_ips := drop ?n ?ips, pc_allowed_ip_ops := drop (?n - length ?ips) ?ops\<rparr>"
    let ?p1 = "chunk_peer p first (take ?n ?ips) (take (?n - length ?ips) ?ops)"
    let ?p2 = "chunk_peer ?p' False (drop ?n ?ips) (drop (?n - length ?ips) ?ops)"
    have "fold apply_peer (chunks first p) s = fold apply_peer (chunks False ?p') (apply_peer ?p1 s)"
      using False by (subst chunks.simps) (simp add: Let_def)
    also have "\<dots> = apply_peer ?p2 (apply_peer ?p1 s)"
      using "1.IH" [OF refl refl refl False] by simp
    also have "\<dots> = apply_peer (chunk_peer p first ?ips ?ops) s"
    proof (rule apply_chunks_merge)
      show "entries ?p1 @ entries ?p2 = entries (chunk_peer p first ?ips ?ops)"
        using entries_chunk [of p first ?n] by (simp add: entries_def)
    qed (simp_all, simp add: update_kernel_peer_def chunk_peer_def Let_def)
    finally show ?thesis .
  qed
qed

lemma apply_peer_cong:
  assumes "entries p1 = entries p2" "pc_public_key p1 = pc_public_key p2" "pc_remove p1 = pc_remove p2"
    and "pc_update_only p1 = pc_update_only p2" "pc_replace_allowed_ips p1 = pc_replace_allowed_ips p2"
    and "\<And>q. update_kernel_peer p1 q = update_kernel_peer p2 q"
  shows "apply_peer p1 = apply_peer p2"
  unfolding apply_peer_def by (simp only: assms)

lemma apply_chunk_whole:
  "apply_peer (chunk_peer p True (pc_allowed_ips p) (pc_allowed_ip_ops p)) = apply_peer p"
  by (rule apply_peer_cong) (simp_all add: entries_def, simp add: update_kernel_peer_def chunk_peer_def Let_def)

section \<open>Applying the batches\<close>

lemma apply_peer_device [simp]:
  "k_private_key (apply_peer p s) = k_private_key s" "k_listen_port (apply_peer p s) = k_listen_port s"
  "k_firewall_mark (apply_peer p s) = k_firewall_mark s"
  by (simp_all add: apply_peer_def Let_def split: option.split)

lemma fold_apply_peer_device [simp]:
  "k_private_key (fold apply_peer ps s) = k_private_key s" "k_listen_port (fold apply_peer ps s) = k_listen_port s"
  "k_firewall_mark (fold apply_peer ps s) = k_firewall_mark s"
  by (induction ps arbitrary: s) simp_all

text \<open>Setting the device fields again changes nothing.\<close>

lemma apply_device_again:
  assumes "\<not> c_replace_peers c"
    and "\<And>k. c_private_key c = Some k \<Longrightarrow> k_private_key s = k"
    and "\<And>p. c_listen_port c = Some p \<Longrightarrow> k_listen_port s = p"
    and "\<And>m. c_firewall_mark c = Some m \<Longrightarrow> k_firewall_mark s = m"
  shows "apply_device c s = s"
  using assms by (cases "c_private_key c"; cases "c_listen_port c"; cases "c_firewall_mark c")
    (auto simp: apply_device_def set_opt_def)

definition device_set :: "config \<Rightarrow> kernel \<Rightarrow> bool" where
  "device_set c s \<longleftrightarrow> opt_all (\<lambda>k. k_private_key s = k) (c_private_key c)
     \<and> opt_all (\<lambda>p. k_listen_port s = p) (c_listen_port c)
     \<and> opt_all (\<lambda>m. k_firewall_mark s = m) (c_firewall_mark c)"

lemma device_set_apply: "device_set c (apply_device c s)"
  by (cases "c_private_key c"; cases "c_listen_port c"; cases "c_firewall_mark c")
     (simp_all add: device_set_def apply_device_def set_opt_def)

lemma device_set_peer: "device_set c (apply_peer p s) = device_set c s"
  by (simp add: device_set_def)

lemma apply_rest:
  "device_set c s \<Longrightarrow>
   fold apply_config (map (\<lambda>q. c\<lparr>c_peers := [q], c_replace_peers := False\<rparr>) qs) s = fold apply_peer qs s"
proof (induction qs arbitrary: s)
  case (Cons q qs)
  have "apply_device (c\<lparr>c_peers := [q], c_replace_peers := False\<rparr>) s = s"
    using Cons.prems by (intro apply_device_again) (auto simp: device_set_def)
  then show ?case using Cons by (simp add: apply_config_def device_set_peer)
qed simp

lemma apply_clear_replace:
  assumes "qs \<noteq> []"
  shows "fold apply_config (clear_replace (map (\<lambda>q. c\<lparr>c_peers := [q]\<rparr>) qs)) s =
    fold apply_peer qs (apply_device c s)"
proof (cases qs)
  case (Cons q rest)
  have "apply_device (c\<lparr>c_peers := [q]\<rparr>) s = apply_device c s" by (simp add: apply_device_def)
  moreover have "fold apply_config (map (\<lambda>q. c\<lparr>c_peers := [q], c_replace_peers := False\<rparr>) rest)
      (apply_peer q (apply_device c s)) = fold apply_peer rest (apply_peer q (apply_device c s))"
    by (rule apply_rest) (simp add: device_set_peer device_set_apply)
  ultimately show ?thesis by (simp add: Cons clear_replace_def apply_config_def comp_def)
qed (use assms in simp)

lemma batch_peers_chunks:
  "\<lbrakk>distinct (map pc_public_key ps); pc_public_key ` set ps \<inter> known = {}\<rbrakk> \<Longrightarrow>
   batch_peers base ps known = map (\<lambda>q. base\<lparr>c_peers := [q]\<rparr>) (concat (map (chunks True) ps))"
  by (induction ps arbitrary: known) (auto simp: batch_peer_chunks)

lemma fold_concat_chunks: "fold apply_peer (concat (map (chunks True) ps)) s = fold apply_peer ps s"
  by (induction ps arbitrary: s) (simp_all add: apply_chunks apply_chunk_whole)

lemma chunks_not_Nil: "chunks f p \<noteq> []"
  by (subst chunks.simps) (simp add: Let_def)

lemma should_batch_peers: "should_batch c \<Longrightarrow> c_peers c \<noteq> []"
  by (auto simp: should_batch_def)

lemma apply_batches:
  assumes "distinct (map pc_public_key (c_peers cfg))"
  shows "fold apply_config (build_batches cfg) s = apply_config cfg s"
proof (cases "should_batch cfg")
  case False
  then show ?thesis by (simp add: build_batches_def)
next
  case True
  let ?qs = "concat (map (chunks True) (c_peers cfg))"
  have ne: "?qs \<noteq> []" using should_batch_peers [OF True] chunks_not_Nil by (cases "c_peers cfg") auto
  have "build_batches cfg = clear_replace (map (\<lambda>q. (cfg\<lparr>c_peers := []\<rparr>)\<lparr>c_peers := [q]\<rparr>) ?qs)"
    using True batch_peers_chunks [OF assms] by (simp add: build_batches_def)
  then have "fold apply_config (build_batches cfg) s = fold apply_peer ?qs (apply_device cfg s)"
    using apply_clear_replace [OF ne, of cfg s] by simp
  then show ?thesis by (simp only: fold_concat_chunks apply_config_def)
qed

lemma batch_peers_shape:
  "b \<in> set (batch_peers base ps known) \<Longrightarrow>
   \<exists>p \<in> set ps. \<exists>q. b = base\<lparr>c_peers := [q]\<rparr> \<and> fits q \<and> pc_public_key q = pc_public_key p"
proof (induction ps arbitrary: known)
  case (Cons p ps)
  then show ?case using chunks_fit [of _ "pc_public_key p \<notin> known" p]
    by (auto simp: batch_peer_chunks)
qed simp

lemma batch_peers_entries:
  "concat (map (\<lambda>b. map (\<lambda>e. (pc_public_key (hd (c_peers b)), e)) (entries (hd (c_peers b))))
     (batch_peers base ps known)) =
   concat (map (\<lambda>p. map (\<lambda>e. (pc_public_key p, e)) (entries p)) ps)"
proof (induction ps arbitrary: known)
  case (Cons p ps)
  have "map (\<lambda>q. map (\<lambda>e. (pc_public_key q, e)) (entries q)) qs = map (\<lambda>q. map (\<lambda>e. (pc_public_key p, e)) (entries q)) qs"
    if "\<And>q. q \<in> set qs \<Longrightarrow> pc_public_key q = pc_public_key p" for qs
    using that by (intro map_cong) auto
  then have "concat (map (\<lambda>q. map (\<lambda>e. (pc_public_key q, e)) (entries q)) (chunks f p)) =
      map (\<lambda>e. (pc_public_key p, e)) (entries p)" for f
    using chunks_fit [of _ f p] chunks_entries [of f p]
    by (metis (no_types, lifting) map_concat map_map comp_def map_cong)
  with Cons show ?case by (simp add: batch_peer_chunks comp_def)
qed simp


section \<open>Properties\<close>

text \<open>
  C1. Batching refines one atomic configuration: for a configuration that names every peer once,
  sending the batches of \<open>buildBatches\<close> one after the other leaves the interface in the state
  that the whole configuration would, however many IPs and operations a peer has, and also where
  peers are replaced, removed or only updated.
\<close>

theorem build_batches_refines:
  assumes "distinct (map pc_public_key (c_peers cfg))"
  shows "fold apply_config (build_batches cfg) s = apply_config cfg s"
  using assms by (rule apply_batches)

definition many_nets :: "nat \<Rightarrow> ip_net list" where
  "many_nets n = map (\<lambda>i. \<lparr>net_ip = [10, 0, word_of_nat (i div 256), word_of_nat (i mod 256)],
     net_mask = mask_bytes 4 32\<rparr>) [0..<n]"

definition big_config :: config where
  "big_config = zero_config\<lparr>c_replace_peers := True,
     c_peers := [zero_peer_config\<lparr>pc_public_key := replicate 32 1, pc_replace_allowed_ips := True,
         pc_allowed_ips := many_nets 300\<rparr>,
       zero_peer_config\<lparr>pc_public_key := replicate 32 2, pc_allowed_ips := many_nets 2\<rparr>]\<rparr>"

theorem build_batches_refines_witness:
  "should_batch big_config \<and> (\<forall>s. fold apply_config (build_batches big_config) s = apply_config big_config s)"
proof -
  have "should_batch big_config" by code_simp
  moreover have "distinct (map pc_public_key (c_peers big_config))" by code_simp
  ultimately show ?thesis using build_batches_refines [of big_config] by blast
qed

text \<open>
  C31. The batches fit their messages: when a configuration is split, every batch holds exactly one
  peer of the configuration, with at most 256 allowed IPs and operations, and has the device fields
  of the whole; only the first may replace the peers of the interface.
\<close>

theorem build_batches_bounded:
  assumes "should_batch cfg"
  shows "list_all (\<lambda>b. length (c_peers b) = 1
       \<and> (\<exists>p \<in> set (c_peers cfg). pc_public_key p = pc_public_key (hd (c_peers b)))
       \<and> length (pc_allowed_ips (hd (c_peers b))) + length (pc_allowed_ip_ops (hd (c_peers b))) \<le> 256
       \<and> c_private_key b = c_private_key cfg \<and> c_listen_port b = c_listen_port cfg
       \<and> c_firewall_mark b = c_firewall_mark cfg) (build_batches cfg)
     \<and> list_all (\<lambda>b. \<not> c_replace_peers b) (tl (build_batches cfg))"
proof -
  let ?bs = "batch_peers (cfg\<lparr>c_peers := []\<rparr>) (c_peers cfg) {}"
  have eq: "build_batches cfg = clear_replace ?bs" using assms by (simp add: build_batches_def)
  have shape: "\<exists>p \<in> set (c_peers cfg). \<exists>q r. b = cfg\<lparr>c_peers := [q], c_replace_peers := r\<rparr> \<and> fits q
      \<and> pc_public_key q = pc_public_key p" if b: "b \<in> set (clear_replace ?bs)" for b
  proof -
    obtain b' where b': "b' \<in> set ?bs" "b = b' \<or> b = b'\<lparr>c_replace_peers := False\<rparr>"
      using b by (cases ?bs) (auto simp: clear_replace_def)
    obtain p q where "p \<in> set (c_peers cfg)" "b' = (cfg\<lparr>c_peers := []\<rparr>)\<lparr>c_peers := [q]\<rparr>" "fits q"
        "pc_public_key q = pc_public_key p"
      using batch_peers_shape [OF b'(1)] by blast
    then show ?thesis using b'(2)
      by (intro bexI [of _ p] exI [of _ q] exI [of _ "c_replace_peers b"]) auto
  qed
  have "list_all (\<lambda>b. \<not> c_replace_peers b) (tl (clear_replace ?bs))"
    by (cases ?bs) (auto simp: clear_replace_def list_all_iff)
  then show ?thesis unfolding eq using shape
    by (fastforce simp: list_all_iff fits_def ip_batch_chunk_def)
qed

theorem build_batches_bounded_witness: "list_all (\<lambda>b. \<not> c_replace_peers b) (tl (build_batches big_config))"
  by (rule build_batches_bounded [THEN conjunct2]) code_simp

text \<open>
  C33. Nothing is lost or reordered: the allowed IPs and operations of all batches, each with the
  key of its peer, read one after the other, are those of the configuration, for any configuration.
\<close>

theorem build_batches_entries:
  "concat (map (\<lambda>b. concat (map (\<lambda>p. map (\<lambda>e. (pc_public_key p, e)) (entries p)) (c_peers b))) (build_batches cfg))
     = concat (map (\<lambda>p. map (\<lambda>e. (pc_public_key p, e)) (entries p)) (c_peers cfg))"
proof (cases "should_batch cfg")
  case False
  then show ?thesis by (simp add: build_batches_def)
next
  case True
  let ?bs = "batch_peers (cfg\<lparr>c_peers := []\<rparr>) (c_peers cfg) {}"
  let ?f = "\<lambda>b. concat (map (\<lambda>p. map (\<lambda>e. (pc_public_key p, e)) (entries p)) (c_peers b))"
  have "map ?f (clear_replace ?bs) = map ?f ?bs" by (cases ?bs) (simp_all add: clear_replace_def)
  also have "\<dots> = map (\<lambda>b. map (\<lambda>e. (pc_public_key (hd (c_peers b)), e)) (entries (hd (c_peers b)))) ?bs"
    by (rule map_cong) (auto dest!: batch_peers_shape)
  finally show ?thesis
    using True batch_peers_entries [of "cfg\<lparr>c_peers := []\<rparr>" "c_peers cfg" "{}"]
    by (simp only: build_batches_def not_True_eq_False not_not if_False)
qed

definition removed_peer :: peer_config where
  "removed_peer = zero_peer_config\<lparr>pc_public_key := replicate 32 1, pc_remove := True\<rparr>"

definition added_peer :: peer_config where
  "added_peer = zero_peer_config\<lparr>pc_public_key := replicate 32 1, pc_preshared_key := Some (replicate 32 9),
     pc_allowed_ips := many_nets 257\<rparr>"

definition twice_config :: config where
  "twice_config = zero_config\<lparr>c_peers := [removed_peer, added_peer]\<rparr>"

definition empty_kernel :: kernel where
  "empty_kernel = \<lparr>k_private_key = zero_key, k_listen_port = 0, k_firewall_mark = 0, k_peers = (\<lambda>_. None),
     k_allowed = (\<lambda>_. None)\<rparr>"

text \<open>
  A peer named twice is not configured as asked when the configuration is split: here a peer
  is removed and added again with a preshared key, among enough IPs to need batches, and the
  batches leave it without the key, which the configuration sent whole would set.
\<close>

theorem build_batches_duplicate_peer:
  "map_option kp_preshared_key (k_peers (apply_config twice_config empty_kernel) (replicate 32 1))
       = Some (replicate 32 9)
   \<and> map_option kp_preshared_key (k_peers (fold apply_config (build_batches twice_config) empty_kernel)
       (replicate 32 1)) = Some zero_key"
proof
  have dev: "apply_device twice_config empty_kernel = empty_kernel"
    by (simp add: twice_config_def apply_device_def set_opt_def zero_config_def)
  have gone: "apply_peer removed_peer empty_kernel = empty_kernel"
    by (simp add: removed_peer_def apply_peer_def empty_kernel_def zero_peer_config_def)
  show "map_option kp_preshared_key (k_peers (apply_config twice_config empty_kernel) (replicate 32 1))
       = Some (replicate 32 9)"
    unfolding apply_config_def dev
    by (simp add: twice_config_def gone)
       (simp add: added_peer_def apply_peer_def empty_kernel_def zero_peer_config_def update_kernel_peer_def
         set_opt_def Let_def)
  have "should_batch twice_config" by code_simp
  moreover have pk: "pc_public_key removed_peer = replicate 32 1" "pc_public_key added_peer = replicate 32 1"
    by (simp_all add: removed_peer_def added_peer_def)
  ultimately have "build_batches twice_config = clear_replace (map (\<lambda>q. twice_config\<lparr>c_peers := [q]\<rparr>)
      (chunks True removed_peer @ chunks False added_peer))"
    by (simp add: build_batches_def batch_peer_chunks twice_config_def)
  then have "fold apply_config (build_batches twice_config) empty_kernel =
      fold apply_peer (chunks False added_peer) (fold apply_peer (chunks True removed_peer) empty_kernel)"
    using apply_clear_replace [of "chunks True removed_peer @ chunks False added_peer" twice_config empty_kernel]
      chunks_not_Nil dev by simp
  also have "\<dots> = apply_peer (chunk_peer added_peer False (pc_allowed_ips added_peer) (pc_allowed_ip_ops added_peer))
      empty_kernel"
    by (simp only: apply_chunks apply_chunk_whole gone)
  finally show "map_option kp_preshared_key (k_peers (fold apply_config (build_batches twice_config) empty_kernel)
       (replicate 32 1)) = Some zero_key"
    by (simp add: apply_peer_def Let_def pk empty_kernel_def new_kernel_peer_def)
       (simp add: added_peer_def zero_peer_config_def)
qed

end
