(* ===== verification/WgNetlink.thy ===== *)
theory WgNetlink
  imports WgTypes
begin

unbundle bit_operations_syntax

text \<open>
  internal/wglinux/configure_linux.go and parse_linux.go: how a configuration becomes netlink
  attributes, and how the attributes of the kernel's messages become devices. The netlink
  library is third-party code: what the sources call on its encoder is recorded as a tree of
  attributes, and the decoder is a record of the operations the sources call on it.
\<close>

section \<open>Attributes\<close>

text \<open>The payload of an attribute, by the method of the encoder that writes it.\<close>

datatype payload =
    PBytes "byte list"
  | PText string
  | PU8 nat
  | PU16 nat
  | PU32 nat
  | PNested "(nat \<times> payload) list"

text \<open>
  What \<open>netlink.AttributeDecoder\<close> makes of a payload \<open>'p\<close>: the attributes nested in it,
  its bytes (for \<open>Do\<close>), or a value. Each may fail, and a failure anywhere is the error
  that \<open>Err\<close> and \<open>Nested\<close> report at the top.
\<close>

record 'p decoder =
  dec_attrs :: "'p \<Rightarrow> (nat \<times> 'p) list res"
  dec_bytes :: "'p \<Rightarrow> byte list res"
  dec_text :: "'p \<Rightarrow> string res"
  dec_u8 :: "'p \<Rightarrow> nat res"
  dec_u16 :: "'p \<Rightarrow> nat res"
  dec_u32 :: "'p \<Rightarrow> nat res"
  dec_u64 :: "'p \<Rightarrow> nat res"

text \<open>The loop \<open>for ad.Next()\<close> with its check of \<open>ad.Err()\<close> is \<^const>\<open>fold_res\<close>.\<close>

text \<open>Constants of include/uapi/linux/wireguard.h and of x/sys/unix.\<close>

definition WGDEVICE_A_IFNAME :: nat where "WGDEVICE_A_IFNAME = 2"
definition WGDEVICE_A_PRIVATE_KEY :: nat where "WGDEVICE_A_PRIVATE_KEY = 3"
definition WGDEVICE_A_PUBLIC_KEY :: nat where "WGDEVICE_A_PUBLIC_KEY = 4"
definition WGDEVICE_A_FLAGS :: nat where "WGDEVICE_A_FLAGS = 5"
definition WGDEVICE_A_LISTEN_PORT :: nat where "WGDEVICE_A_LISTEN_PORT = 6"
definition WGDEVICE_A_FWMARK :: nat where "WGDEVICE_A_FWMARK = 7"
definition WGDEVICE_A_PEERS :: nat where "WGDEVICE_A_PEERS = 8"
definition WGPEER_A_PUBLIC_KEY :: nat where "WGPEER_A_PUBLIC_KEY = 1"
definition WGPEER_A_PRESHARED_KEY :: nat where "WGPEER_A_PRESHARED_KEY = 2"
definition WGPEER_A_FLAGS :: nat where "WGPEER_A_FLAGS = 3"
definition WGPEER_A_ENDPOINT :: nat where "WGPEER_A_ENDPOINT = 4"
definition WGPEER_A_KEEPALIVE :: nat where "WGPEER_A_KEEPALIVE = 5"
definition WGPEER_A_LAST_HANDSHAKE_TIME :: nat where "WGPEER_A_LAST_HANDSHAKE_TIME = 6"
definition WGPEER_A_RX_BYTES :: nat where "WGPEER_A_RX_BYTES = 7"
definition WGPEER_A_TX_BYTES :: nat where "WGPEER_A_TX_BYTES = 8"
definition WGPEER_A_ALLOWEDIPS :: nat where "WGPEER_A_ALLOWEDIPS = 9"
definition WGPEER_A_PROTOCOL_VERSION :: nat where "WGPEER_A_PROTOCOL_VERSION = 10"
definition WGALLOWEDIP_A_FAMILY :: nat where "WGALLOWEDIP_A_FAMILY = 1"
definition WGALLOWEDIP_A_IPADDR :: nat where "WGALLOWEDIP_A_IPADDR = 2"
definition WGALLOWEDIP_A_CIDR_MASK :: nat where "WGALLOWEDIP_A_CIDR_MASK = 3"
definition WGALLOWEDIP_A_FLAGS :: nat where "WGALLOWEDIP_A_FLAGS = 4"
definition AF_INET :: nat where "AF_INET = 2"
definition AF_INET6 :: nat where "AF_INET6 = 10"

lemmas wg_constants = WGDEVICE_A_IFNAME_def WGDEVICE_A_PRIVATE_KEY_def WGDEVICE_A_PUBLIC_KEY_def
  WGDEVICE_A_FLAGS_def WGDEVICE_A_LISTEN_PORT_def WGDEVICE_A_FWMARK_def WGDEVICE_A_PEERS_def
  WGPEER_A_PUBLIC_KEY_def WGPEER_A_PRESHARED_KEY_def WGPEER_A_FLAGS_def WGPEER_A_ENDPOINT_def
  WGPEER_A_KEEPALIVE_def WGPEER_A_LAST_HANDSHAKE_TIME_def WGPEER_A_RX_BYTES_def WGPEER_A_TX_BYTES_def
  WGPEER_A_ALLOWEDIPS_def WGPEER_A_PROTOCOL_VERSION_def WGALLOWEDIP_A_FAMILY_def
  WGALLOWEDIP_A_IPADDR_def WGALLOWEDIP_A_CIDR_MASK_def WGALLOWEDIP_A_FLAGS_def AF_INET_def AF_INET6_def

section \<open>Encoding a configuration\<close>

definition is_valid_ip :: "ip \<Rightarrow> bool" where
  "is_valid_ip i \<longleftrightarrow> to16 i \<noteq> None"

definition is_ipv6 :: "ip \<Rightarrow> bool" where
  "is_ipv6 i \<longleftrightarrow> is_valid_ip i \<and> to4 i = None"

text \<open>
  \<open>sockaddrPort\<close>: the bytes of the native \<open>uint16\<close> read in network order, which on a
  little-endian machine swaps them. The two bytes of the port in memory are then its network
  order, high byte first.
\<close>

definition sockaddr_port :: "int \<Rightarrow> nat" where
  "sockaddr_port port = (let v = to_uint 16 port in v mod 256 * 256 + v div 256)"

text \<open>A native (little-endian) \<open>uint16\<close> in memory.\<close>

definition le16 :: "nat \<Rightarrow> byte list" where
  "le16 n = [word_of_nat (n mod 256), word_of_nat (n div 256)]"

definition encode_sockaddr :: "udp_addr \<Rightarrow> byte list res" where
  "encode_sockaddr endpoint =
     (if \<not> is_valid_ip (ua_ip endpoint) then Inl (ErrText ''wglinux: invalid endpoint IP'')
      else if is_ipv6 (ua_ip endpoint) then
        Inr (le16 AF_INET6 @ le16 (sockaddr_port (ua_port endpoint)) @ replicate 4 0
             @ the (to16 (ua_ip endpoint)) @ replicate 4 0)
      else
        Inr (le16 AF_INET @ le16 (sockaddr_port (ua_port endpoint)) @ the (to4 (ua_ip endpoint))
             @ replicate 8 0))"

definition encode_allowed_ip :: "nat \<Rightarrow> ip_net \<Rightarrow> bool \<Rightarrow> (nat \<times> payload) res" where
  "encode_allowed_ip i ipn rm =
     (if \<not> is_valid_ip (net_ip ipn) then Inl (ErrText ''wglinux: invalid allowed IP'')
      else
        (let v6 = is_ipv6 (net_ip ipn);
             family = (if v6 then AF_INET6 else AF_INET);
             a = (if v6 then net_ip ipn else the (to4 (net_ip ipn)))
         in Inr (to_uint 16 (int i), PNested
              ([(WGALLOWEDIP_A_FAMILY, PU16 family), (WGALLOWEDIP_A_IPADDR, PBytes a),
                (WGALLOWEDIP_A_CIDR_MASK, PU8 (to_uint 8 (fst (mask_size (net_mask ipn)))))]
               @ (if rm then [(WGALLOWEDIP_A_FLAGS, PU32 1)] else [])))))"

text \<open>A netlink array: the index of an entry is its attribute type, a \<open>uint16\<close>.\<close>

fun encode_array :: "(nat \<Rightarrow> 'a \<Rightarrow> (nat \<times> payload) res) \<Rightarrow> nat \<Rightarrow> 'a list \<Rightarrow> (nat \<times> payload) list res" where
  "encode_array f i [] = Inr []"
| "encode_array f i (x # xs) =
     bind_res (f i x) (\<lambda>a. bind_res (encode_array f (Suc i) xs) (\<lambda>as. Inr (a # as)))"

definition encode_allowed_ips :: "ip_net list \<Rightarrow> allowed_ip_config list \<Rightarrow> (nat \<times> payload) list res" where
  "encode_allowed_ips ipns operations =
     encode_array (\<lambda>i entry. encode_allowed_ip i (aip_net entry) (aip_op entry = AllowedIPRemove)) 0
       (map (\<lambda>n. \<lparr>aip_net = n, aip_op = AllowedIPAdd\<rparr>) ipns @ operations)"

definition peer_flags :: "peer_config \<Rightarrow> nat" where
  "peer_flags p = (if pc_remove p then 1 else 0) + (if pc_replace_allowed_ips p then 2 else 0)
     + (if pc_update_only p then 4 else 0)"

definition encode_peer_attrs :: "peer_config \<Rightarrow> (nat \<times> payload) list res" where
  "encode_peer_attrs p =
     bind_res (case pc_endpoint p of None \<Rightarrow> Inr []
               | Some a \<Rightarrow> bind_res (encode_sockaddr a) (\<lambda>b. Inr [(WGPEER_A_ENDPOINT, PBytes b)]))
       (\<lambda>endpoint.
          bind_res (if pc_allowed_ips p \<noteq> [] \<or> pc_allowed_ip_ops p \<noteq> [] then
                      bind_res (encode_allowed_ips (pc_allowed_ips p) (pc_allowed_ip_ops p))
                        (\<lambda>as. Inr [(WGPEER_A_ALLOWEDIPS, PNested as)])
                    else Inr [])
            (\<lambda>ips. Inr
              ([(WGPEER_A_PUBLIC_KEY, PBytes (pc_public_key p))]
               @ (if peer_flags p \<noteq> 0 then [(WGPEER_A_FLAGS, PU32 (peer_flags p))] else [])
               @ (case pc_preshared_key p of None \<Rightarrow> [] | Some k \<Rightarrow> [(WGPEER_A_PRESHARED_KEY, PBytes k)])
               @ endpoint
               @ (case pc_keepalive p of None \<Rightarrow> []
                  | Some d \<Rightarrow> [(WGPEER_A_KEEPALIVE, PU16 (to_uint 16 (int_seconds d)))])
               @ ips)))"

definition config_attrs :: "string \<Rightarrow> config \<Rightarrow> (nat \<times> payload) list res" where
  "config_attrs name cfg =
     bind_res (if c_peers cfg \<noteq> [] then
                 bind_res (encode_array (\<lambda>i p. bind_res (encode_peer_attrs p)
                              (\<lambda>as. Inr (to_uint 16 (int i), PNested as))) 0 (c_peers cfg))
                   (\<lambda>as. Inr [(WGDEVICE_A_PEERS, PNested as)])
               else Inr [])
       (\<lambda>peers. Inr
         ([(WGDEVICE_A_IFNAME, PText name)]
          @ (case c_private_key cfg of None \<Rightarrow> [] | Some k \<Rightarrow> [(WGDEVICE_A_PRIVATE_KEY, PBytes k)])
          @ (case c_listen_port cfg of None \<Rightarrow> [] | Some p \<Rightarrow> [(WGDEVICE_A_LISTEN_PORT, PU16 (to_uint 16 p))])
          @ (case c_firewall_mark cfg of None \<Rightarrow> [] | Some m \<Rightarrow> [(WGDEVICE_A_FWMARK, PU32 (to_uint 32 m))])
          @ (if c_replace_peers cfg then [(WGDEVICE_A_FLAGS, PU32 1)] else [])
          @ peers))"

section \<open>Decoding a device\<close>

definition nl_parse_addr :: "byte list \<Rightarrow> ip res" where
  "nl_parse_addr b =
     (if length b = 4 \<or> length b = 16 then Inr b else Inl (ErrText ''wglinux: unexpected IP address size''))"

definition un_le16 :: "byte list \<Rightarrow> nat" where
  "un_le16 b = unat (b ! 0) + 256 * unat (b ! 1)"

definition parse_sockaddr :: "byte list \<Rightarrow> udp_addr res" where
  "parse_sockaddr b =
     (if length b = 16 then
        Inr \<lparr>ua_ip = take 4 (drop 4 b), ua_port = int (sockaddr_port (int (un_le16 (drop 2 b)))), ua_zone = []\<rparr>
      else if length b = 28 then
        Inr \<lparr>ua_ip = take 16 (drop 8 b), ua_port = int (sockaddr_port (int (un_le16 (drop 2 b)))), ua_zone = []\<rparr>
      else Inl (ErrText ''wglinux: unexpected sockaddr size''))"

text \<open>A native signed integer in memory.\<close>

fun le_nat :: "byte list \<Rightarrow> nat" where
  "le_nat [] = 0"
| "le_nat (b # bs) = unat b + 256 * le_nat bs"

definition le_int :: "byte list \<Rightarrow> int" where
  "le_int bs = (let n = int (le_nat bs); w = 8 * length bs in if 2 ^ (w - 1) \<le> n then n - 2 ^ w else n)"

text \<open>The time a \<open>timespec\<close> of 32-bit or 64-bit integers sets, if it sets one.\<close>

definition parse_timespec :: "byte list \<Rightarrow> go_time option res" where
  "parse_timespec b =
     (let time = (\<lambda>sec nsec. if 0 < sec \<or> 0 < nsec then Some (time_Unix sec nsec) else None)
      in if length b = 8 then Inr (time (le_int (take 4 b)) (le_int (drop 4 b)))
         else if length b = 16 then Inr (time (le_int (take 8 b)) (le_int (drop 8 b)))
         else Inl (ErrText ''wglinux: unexpected timespec size''))"

record ip_decoding =
  id_net :: ip_net
  id_mask :: nat
  id_family :: nat

definition parse_allowed_ip_attr :: "'p decoder \<Rightarrow> nat \<times> 'p \<Rightarrow> ip_decoding \<Rightarrow> ip_decoding res" where
  "parse_allowed_ip_attr D a st =
     (if fst a = WGALLOWEDIP_A_IPADDR then
        bind_res (dec_bytes D (snd a)) (\<lambda>b. bind_res (nl_parse_addr b)
          (\<lambda>i. Inr (st\<lparr>id_net := (id_net st)\<lparr>net_ip := i\<rparr>\<rparr>)))
      else if fst a = WGALLOWEDIP_A_CIDR_MASK then
        bind_res (dec_u8 D (snd a)) (\<lambda>n. Inr (st\<lparr>id_mask := n\<rparr>))
      else if fst a = WGALLOWEDIP_A_FAMILY then
        bind_res (dec_u16 D (snd a)) (\<lambda>n. Inr (st\<lparr>id_family := n\<rparr>))
      else Inr st)"

definition nl_parse_allowed_ip :: "'p decoder \<Rightarrow> nat \<times> 'p \<Rightarrow> ip_net res" where
  "nl_parse_allowed_ip D a =
     bind_res (dec_attrs D (snd a)) (\<lambda>as.
       bind_res (fold_res (parse_allowed_ip_attr D) as
                   \<lparr>id_net = \<lparr>net_ip = [], net_mask = []\<rparr>, id_mask = 0, id_family = 0\<rparr>)
         (\<lambda>st. Inr (if id_family st = AF_INET then (id_net st)\<lparr>net_mask := cidr_mask (int (id_mask st)) 32\<rparr>
                    else if id_family st = AF_INET6 then (id_net st)\<lparr>net_mask := cidr_mask (int (id_mask st)) 128\<rparr>
                    else id_net st)))"

definition nl_parse_allowed_ips :: "'p decoder \<Rightarrow> 'p \<Rightarrow> ip_net list res" where
  "nl_parse_allowed_ips D p = bind_res (dec_attrs D p) (map_res (nl_parse_allowed_ip D))"

definition int64_of :: "nat \<Rightarrow> int" where
  "int64_of n = wrap64 (int n)"

definition parse_peer_attr :: "'p decoder \<Rightarrow> nat \<times> 'p \<Rightarrow> peer \<Rightarrow> peer res" where
  "parse_peer_attr D a p =
     (let t = fst a; v = snd a; bytes = (\<lambda>f. bind_res (dec_bytes D v) f)
      in if t = WGPEER_A_PUBLIC_KEY then
           bytes (\<lambda>b. bind_res (new_key b) (\<lambda>k. Inr (p\<lparr>p_public_key := k\<rparr>)))
         else if t = WGPEER_A_PRESHARED_KEY then
           bytes (\<lambda>b. bind_res (new_key b) (\<lambda>k. Inr (p\<lparr>p_preshared_key := k, p_has_preshared_key := True\<rparr>)))
         else if t = WGPEER_A_ENDPOINT then
           bytes (\<lambda>b. bind_res (parse_sockaddr b) (\<lambda>e. Inr (p\<lparr>p_endpoint := Some e, p_has_endpoint := True\<rparr>)))
         else if t = WGPEER_A_KEEPALIVE then
           bind_res (dec_u16 D v) (\<lambda>n. Inr (p\<lparr>p_keepalive := int n * second, p_has_keepalive := True\<rparr>))
         else if t = WGPEER_A_LAST_HANDSHAKE_TIME then
           bytes (\<lambda>b. bind_res (parse_timespec b) (\<lambda>t. Inr (case t of None \<Rightarrow> p | Some t \<Rightarrow> p\<lparr>p_last_handshake := t\<rparr>)))
         else if t = WGPEER_A_RX_BYTES then bind_res (dec_u64 D v) (\<lambda>n. Inr (p\<lparr>p_receive_bytes := int64_of n\<rparr>))
         else if t = WGPEER_A_TX_BYTES then bind_res (dec_u64 D v) (\<lambda>n. Inr (p\<lparr>p_transmit_bytes := int64_of n\<rparr>))
         else if t = WGPEER_A_ALLOWEDIPS then
           bind_res (nl_parse_allowed_ips D v) (\<lambda>ns. Inr (p\<lparr>p_allowed_ips := ns\<rparr>))
         else if t = WGPEER_A_PROTOCOL_VERSION then bind_res (dec_u32 D v) (\<lambda>n. Inr (p\<lparr>p_protocol_version := int n\<rparr>))
         else Inr p)"

definition nl_parse_peer :: "'p decoder \<Rightarrow> nat \<times> 'p \<Rightarrow> peer res" where
  "nl_parse_peer D a = bind_res (dec_attrs D (snd a)) (\<lambda>as. fold_res (parse_peer_attr D) as zero_peer)"

definition parse_device_attr :: "'p decoder \<Rightarrow> nat \<times> 'p \<Rightarrow> device \<Rightarrow> device res" where
  "parse_device_attr D a d =
     (let t = fst a; v = snd a
      in if t = WGDEVICE_A_IFNAME then bind_res (dec_text D v) (\<lambda>s. Inr (d\<lparr>d_name := s\<rparr>))
         else if t = WGDEVICE_A_PRIVATE_KEY then
           bind_res (dec_bytes D v) (\<lambda>b. bind_res (new_key b)
             (\<lambda>k. Inr (d\<lparr>d_private_key := k, d_has_private_key := True\<rparr>)))
         else if t = WGDEVICE_A_PUBLIC_KEY then
           bind_res (dec_bytes D v) (\<lambda>b. bind_res (new_key b)
             (\<lambda>k. Inr (d\<lparr>d_public_key := k, d_has_public_key := True\<rparr>)))
         else if t = WGDEVICE_A_LISTEN_PORT then
           bind_res (dec_u16 D v) (\<lambda>n. Inr (d\<lparr>d_listen_port := int n, d_has_listen_port := True\<rparr>))
         else if t = WGDEVICE_A_FWMARK then
           bind_res (dec_u32 D v) (\<lambda>n. Inr (d\<lparr>d_firewall_mark := int n, d_has_firewall_mark := True\<rparr>))
         else if t = WGDEVICE_A_PEERS then
           bind_res (dec_attrs D v) (\<lambda>as. bind_res (map_res (nl_parse_peer D) as) (\<lambda>ps. Inr (d\<lparr>d_peers := ps\<rparr>)))
         else Inr d)"

definition parse_device_loop :: "'p decoder \<Rightarrow> 'p \<Rightarrow> device res" where
  "parse_device_loop D m =
     bind_res (dec_attrs D m) (\<lambda>as. fold_res (parse_device_attr D) as (zero_device\<lparr>d_type := LinuxKernel\<rparr>))"

text \<open>
  \<open>mergeDevices\<close>: the target's peers and the known peers, a map from their keys to their
  indices.
\<close>

definition merge_peer :: "peer \<Rightarrow> peer list \<times> (key \<Rightarrow> nat option) \<Rightarrow> peer list \<times> (key \<Rightarrow> nat option)" where
  "merge_peer p st =
     (case st of (ps, known) \<Rightarrow>
        (case known (p_public_key p) of
           Some i \<Rightarrow> (ps[i := (ps ! i)\<lparr>p_allowed_ips := p_allowed_ips (ps ! i) @ p_allowed_ips p\<rparr>], known)
         | None \<Rightarrow> (ps @ [p], known(p_public_key p \<mapsto> length ps))))"

definition merge_devices :: "device \<Rightarrow> peer list \<times> (key \<Rightarrow> nat option) \<Rightarrow> peer list \<times> (key \<Rightarrow> nat option)" where
  "merge_devices d st = fold merge_peer (d_peers d) st"

fun known_from :: "nat \<Rightarrow> peer list \<Rightarrow> (key \<Rightarrow> nat option) \<Rightarrow> key \<Rightarrow> nat option" where
  "known_from i [] m = m"
| "known_from i (p # ps) m = known_from (Suc i) ps (m(p_public_key p \<mapsto> i))"

definition nl_parse_device :: "'p decoder \<Rightarrow> 'p list \<Rightarrow> device res" where
  "nl_parse_device D msgs =
     (case msgs of
        [] \<Rightarrow> Inr zero_device
      | m # ms \<Rightarrow>
          bind_res (parse_device_loop D m) (\<lambda>first.
            bind_res (fold_res (\<lambda>m st. bind_res (parse_device_loop D m) (\<lambda>d. Inr (merge_devices d st))) ms
                        (d_peers first, known_from 0 (d_peers first) Map.empty))
              (\<lambda>st. Inr (first\<lparr>d_peers := fst st\<rparr>))))"

section \<open>Socket addresses\<close>

lemma un_le16_le16: "n < 65536 \<Longrightarrow> un_le16 (le16 n @ r) = n"
proof -
  assume n: "n < 65536"
  have "unat (word_of_nat (n mod 256) :: byte) = n mod 256" "unat (word_of_nat (n div 256) :: byte) = n div 256"
    using n by (simp_all add: unsigned_of_nat take_bit_nat_eq_self less_mult_imp_div_less)
  then show ?thesis by (simp add: un_le16_def le16_def)
qed

lemma sockaddr_port_bound: "sockaddr_port i < 65536"
proof -
  have "to_uint 16 i < 65536" by (simp add: to_uint_def nat_less_iff)
  then have "to_uint 16 i div 256 < 256" by (simp add: less_mult_imp_div_less)
  moreover have "to_uint 16 i mod 256 < 256" by simp
  ultimately show ?thesis unfolding sockaddr_port_def Let_def by linarith
qed

lemma sockaddr_port_twice: "0 \<le> i \<Longrightarrow> i < 65536 \<Longrightarrow> int (sockaddr_port (int (sockaddr_port i))) = i"
proof -
  assume i: "0 \<le> i" "i < 65536"
  define v where "v = nat i"
  have v: "i = int v" "v < 65536" using i by (simp_all add: v_def)
  have hi: "v div 256 < 256" using v by (simp add: less_mult_imp_div_less)
  have u: "to_uint 16 i = v" using v by (simp add: to_uint_def)
  define w where "w = v mod 256 * 256 + v div 256"
  have "v mod 256 < 256" by simp
  with hi have "w < 65536" unfolding w_def by linarith
  moreover have "w mod 256 = v div 256" "w div 256 = v mod 256"
    using hi by (simp_all add: w_def)
  moreover have "sockaddr_port i = w" by (simp add: sockaddr_port_def u w_def)
  moreover have "to_uint 16 (int w) = w" using \<open>w < 65536\<close> by (simp add: to_uint_def)
  ultimately have "sockaddr_port (int (sockaddr_port i)) = v div 256 * 256 + v mod 256"
    by (simp add: sockaddr_port_def Let_def)
  then show ?thesis using v(1) by simp
qed

text \<open>The address a socket address holds: the four bytes of an IPv4 address, or the sixteen.\<close>

definition short_ip :: "ip \<Rightarrow> ip" where
  "short_ip i = (case to4 i of Some j \<Rightarrow> j | None \<Rightarrow> i)"

lemma parse_sockaddr_encode:
  assumes "length (ua_ip a) = 4 \<or> length (ua_ip a) = 16" and "0 \<le> ua_port a" and "ua_port a \<le> 65535"
  shows "bind_res (encode_sockaddr a) parse_sockaddr = Inr (a\<lparr>ua_ip := short_ip (ua_ip a), ua_zone := []\<rparr>)"
proof -
  have valid: "is_valid_ip (ua_ip a)" using assms(1) by (auto simp: is_valid_ip_def to16_def)
  have port: "int (sockaddr_port (int (un_le16 (le16 (sockaddr_port (ua_port a)) @ r)))) = ua_port a" for r
    using assms by (simp add: un_le16_le16 sockaddr_port_bound sockaddr_port_twice)
  have len: "length (le16 n) = 2" for n by (simp add: le16_def)
  show ?thesis
  proof (cases "to4 (ua_ip a)")
    case None
    then have six: "length (ua_ip a) = 16" "to16 (ua_ip a) = Some (ua_ip a)"
      using assms(1) by (auto simp: to4_def to16_def)
    have v6: "is_ipv6 (ua_ip a)" using None valid by (simp add: is_ipv6_def)
    have drop: "drop 2 (le16 AF_INET6 @ s) = s" for s by (simp add: len)
    show ?thesis using valid v6 six None port
      by (simp add: encode_sockaddr_def parse_sockaddr_def len drop short_ip_def)
  next
    case (Some j)
    then have j: "length j = 4" by (auto simp: to4_def split: if_splits)
    have v4: "\<not> is_ipv6 (ua_ip a)" using Some by (simp add: is_ipv6_def)
    have drop: "drop 2 (le16 AF_INET @ s) = s" for s by (simp add: len)
    show ?thesis using valid v4 Some j port
      by (simp add: encode_sockaddr_def parse_sockaddr_def len drop short_ip_def)
  qed
qed


section \<open>A codec\<close>

text \<open>
  What the code relies on of the netlink library: a payload written by a method of the encoder
  (\<open>emb\<close> is its form on the wire) is read back by the corresponding method of the decoder.
\<close>

locale netlink_codec =
  fixes D :: "'p decoder" and emb :: "payload \<Rightarrow> 'p"
  assumes dec_nested: "dec_attrs D (emb (PNested as)) = Inr (map (apsnd emb) as)"
    and dec_PBytes: "dec_bytes D (emb (PBytes b)) = Inr b"
    and dec_PText: "CHR 0x00 \<notin> set s \<Longrightarrow> dec_text D (emb (PText s)) = Inr s"
    and dec_PU8: "n < 2 ^ 8 \<Longrightarrow> dec_u8 D (emb (PU8 n)) = Inr n"
    and dec_PU16: "n < 2 ^ 16 \<Longrightarrow> dec_u16 D (emb (PU16 n)) = Inr n"
    and dec_PU32: "n < 2 ^ 32 \<Longrightarrow> dec_u32 D (emb (PU32 n)) = Inr n"

text \<open>What a peer configuration says of the peer the kernel then reports.\<close>

definition nl_peer :: "peer_config \<Rightarrow> peer" where
  "nl_peer p = zero_peer
     \<lparr>p_public_key := pc_public_key p,
      p_preshared_key := (case pc_preshared_key p of None \<Rightarrow> zero_key | Some k \<Rightarrow> k),
      p_has_preshared_key := pc_preshared_key p \<noteq> None,
      p_endpoint := map_option (\<lambda>a. a\<lparr>ua_ip := short_ip (ua_ip a), ua_zone := []\<rparr>) (pc_endpoint p),
      p_has_endpoint := pc_endpoint p \<noteq> None,
      p_keepalive := (case pc_keepalive p of None \<Rightarrow> 0 | Some d \<Rightarrow> int (to_uint 16 (int_seconds d)) * second),
      p_has_keepalive := pc_keepalive p \<noteq> None,
      p_allowed_ips := pc_allowed_ips p @ map aip_net (pc_allowed_ip_ops p)\<rparr>"

definition nl_device :: "string \<Rightarrow> config \<Rightarrow> device" where
  "nl_device name cfg = zero_device
     \<lparr>d_name := name, d_type := LinuxKernel,
      d_private_key := (case c_private_key cfg of None \<Rightarrow> zero_key | Some k \<Rightarrow> k),
      d_has_private_key := c_private_key cfg \<noteq> None,
      d_listen_port := (case c_listen_port cfg of None \<Rightarrow> 0 | Some p \<Rightarrow> int (to_uint 16 p)),
      d_has_listen_port := c_listen_port cfg \<noteq> None,
      d_firewall_mark := (case c_firewall_mark cfg of None \<Rightarrow> 0 | Some p \<Rightarrow> int (to_uint 32 p)),
      d_has_firewall_mark := c_firewall_mark cfg \<noteq> None,
      d_peers := map nl_peer (c_peers cfg)\<rparr>"

definition nl_peer_ok :: "peer_config \<Rightarrow> bool" where
  "nl_peer_ok p \<longleftrightarrow> wf_key (pc_public_key p) \<and> opt_all wf_key (pc_preshared_key p)
     \<and> opt_all (\<lambda>a. (length (ua_ip a) = 4 \<or> length (ua_ip a) = 16) \<and> 0 \<le> ua_port a \<and> ua_port a \<le> 65535)
         (pc_endpoint p)
     \<and> list_all canonical_net (pc_allowed_ips p)
     \<and> list_all (\<lambda>a. canonical_net (aip_net a)) (pc_allowed_ip_ops p)"

definition nl_config_ok :: "config \<Rightarrow> bool" where
  "nl_config_ok cfg \<longleftrightarrow> opt_all wf_key (c_private_key cfg) \<and> list_all nl_peer_ok (c_peers cfg)"

lemma to_uint_less [simp]: "to_uint w i < 2 ^ w"
  by (simp add: to_uint_def nat_less_iff)

lemma encode_array_Inr:
  assumes "\<And>i x. x \<in> set xs \<Longrightarrow> f i x = Inr (t i, g x)"
  shows "encode_array f n xs = Inr (map (\<lambda>(j, x). (t (n + j), g x)) (zip [0..<length xs] xs))"
  using assms
proof (induction xs arbitrary: n)
  case (Cons x xs)
  have "zip [0..<length (x # xs)] (x # xs) = (0, x) # map (\<lambda>(j, y). (Suc j, y)) (zip [0..<length xs] xs)"
    by (simp add: upt_conv_Cons map_Suc_upt [symmetric] zip_map1 del: upt_Suc)
  then show ?case using Cons by (simp add: case_prod_beta comp_def)
qed simp

context netlink_codec
begin

lemmas decode = dec_nested dec_PBytes dec_PText dec_PU8 dec_PU16 dec_PU32

lemma allowed_ip:
  assumes n: "canonical_net n"
  shows "\<exists>as. encode_allowed_ip i n rm = Inr (to_uint 16 (int i), PNested as) \<and>
    nl_parse_allowed_ip D (ty, emb (PNested as)) = Inr n"
proof -
  let ?v6 = "is_ipv6 (net_ip n)"
  let ?a = "if ?v6 then net_ip n else the (to4 (net_ip n))"
  have len: "length (net_ip n) = 4 \<or> length (net_ip n) = 16 \<and> to4 (net_ip n) = None"
    and le: "net_len n \<le> 8 * length (net_ip n)"
    and mask: "net_mask n = mask_bytes (length (net_ip n)) (net_len n)"
    using n by (auto simp: canonical_net_def)
  have valid: "is_valid_ip (net_ip n)" using len by (auto simp: is_valid_ip_def to16_def)
  have v6: "?v6 \<longleftrightarrow> length (net_ip n) = 16" using len valid by (auto simp: is_ipv6_def to4_def)
  have a: "?a = net_ip n" using v6 len by (auto simp: to4_def)
  have size: "to_uint 8 (fst (mask_size (net_mask n))) = net_len n"
    using le len unfolding mask by (auto simp: mask_size_def to_uint_def)
  have mask': "net_mask n = cidr_mask (int (net_len n)) (if ?v6 then 128 else 32)"
    using len le unfolding mask v6 by (auto simp: cidr_mask_nat)
  have ip: "nl_parse_addr (net_ip n) = Inr (net_ip n)" using len by (auto simp: nl_parse_addr_def)
  have nl: "net_len n < 2 ^ 8" using le len by auto
  have fam: "AF_INET < 2 ^ 16" "AF_INET6 < 2 ^ 16" "AF_INET \<noteq> AF_INET6" by (simp_all add: wg_constants)
  have eta: "\<lparr>net_ip = net_ip n, net_mask = net_mask n\<rparr> = n" by (cases n) simp
  have m: "?v6 \<Longrightarrow> cidr_mask (int (net_len n)) 128 = net_mask n"
      "\<not> ?v6 \<Longrightarrow> cidr_mask (int (net_len n)) 32 = net_mask n" using mask' by simp_all
  have "nl_parse_allowed_ip D (ty, emb (PNested
      ([(WGALLOWEDIP_A_FAMILY, PU16 (if ?v6 then AF_INET6 else AF_INET)),
        (WGALLOWEDIP_A_IPADDR, PBytes (net_ip n)), (WGALLOWEDIP_A_CIDR_MASK, PU8 (net_len n))]
       @ (if rm then [(WGALLOWEDIP_A_FLAGS, PU32 1)] else [])))) = Inr n"
    using fam nl m by (cases ?v6; cases rm) (simp_all add: nl_parse_allowed_ip_def decode
        parse_allowed_ip_attr_def ip eta wg_constants)
  then show ?thesis unfolding encode_allowed_ip_def using valid by (auto simp: Let_def a size)
qed

lemma map_res_array:
  assumes "\<And>i x. x \<in> set xs \<Longrightarrow> f (i, emb (g x)) = Inr (h x)"
  shows "map_res f (map (apsnd emb) (map (\<lambda>(j, x). (t (n + j), g x)) (zip [0..<length xs] xs))) = Inr (map h xs)"
proof -
  have "map_res f (map (apsnd emb) (map (\<lambda>(j, x). (t (n + j), g x)) (zip js xs))) = Inr (map h xs)"
    if "length js = length xs" for js
    using that assms by (induction js xs rule: list_induct2) auto
  then show ?thesis by simp
qed

lemma allowed_ips:
  assumes "list_all canonical_net ns" and "list_all (\<lambda>a. canonical_net (aip_net a)) ops"
  shows "\<exists>as. encode_allowed_ips ns ops = Inr as \<and>
    nl_parse_allowed_ips D (emb (PNested as)) = Inr (ns @ map aip_net ops)"
proof -
  let ?all = "map (\<lambda>n. \<lparr>aip_net = n, aip_op = AllowedIPAdd\<rparr>) ns @ ops"
  have can: "canonical_net (aip_net e)" if "e \<in> set ?all" for e
    using assms that by (auto simp: list_all_iff)
  let ?enc = "\<lambda>i (e :: allowed_ip_config). encode_allowed_ip i (aip_net e) (aip_op e = AllowedIPRemove)"
  have "\<exists>as. ?enc 0 e = Inr (to_uint 16 (int 0), PNested as)" if "e \<in> set ?all" for e
    using allowed_ip [OF can [OF that]] by blast
  define g where "g (e :: allowed_ip_config) = snd (projr (?enc 0 e))" for e
  have enc: "?enc i e = Inr (to_uint 16 (int i), g e)" if "e \<in> set ?all" for i e
  proof -
    note e = that
    have key: "encode_allowed_ip i n rm = Inr (to_uint 16 (int i), PNested as) \<Longrightarrow>
        snd (projr (encode_allowed_ip 0 n rm)) = PNested as" for n rm as
      by (auto simp: encode_allowed_ip_def Let_def split: if_splits)
    obtain as where as: "?enc i e = Inr (to_uint 16 (int i), PNested as)"
      using allowed_ip [OF can [OF e]] by blast
    show ?thesis using key [OF as] as by (simp add: g_def)
  qed
  have dec: "nl_parse_allowed_ip D (i, emb (g e)) = Inr (aip_net e)" if "e \<in> set ?all" for i e
    using allowed_ip [OF can [OF that], where i = 0 and rm = "aip_op e = AllowedIPRemove" and ty = i]
      enc [OF that, of 0] by auto
  have "encode_allowed_ips ns ops = Inr (map (\<lambda>(j, e). (to_uint 16 (int (0 + j)), g e)) (zip [0..<length ?all] ?all))"
    unfolding encode_allowed_ips_def by (rule encode_array_Inr) (rule enc)
  moreover have "map_res (nl_parse_allowed_ip D) (map (apsnd emb)
      (map (\<lambda>(j, e). (to_uint 16 (int (0 + j)), g e)) (zip [0..<length ?all] ?all))) = Inr (map aip_net ?all)"
    by (rule map_res_array [where t = "\<lambda>j. to_uint 16 (int j)"]) (rule dec)
  ultimately show ?thesis by (simp add: nl_parse_allowed_ips_def decode comp_def)
qed

lemma key_attr: "wf_key k \<Longrightarrow> new_key k = Inr k"
  by (simp add: new_key_def wf_key_def)

lemma peer_attrs:
  assumes p: "nl_peer_ok p"
  shows "\<exists>as. encode_peer_attrs p = Inr as \<and> nl_parse_peer D (ty, emb (PNested as)) = Inr (nl_peer p)"
proof -
  have wf: "wf_key (pc_public_key p)" "list_all canonical_net (pc_allowed_ips p)"
      "list_all (\<lambda>a. canonical_net (aip_net a)) (pc_allowed_ip_ops p)"
    using p by (simp_all add: nl_peer_ok_def)
  let ?f = "parse_peer_attr D"
  let ?flags = "if peer_flags p \<noteq> 0 then [(WGPEER_A_FLAGS, PU32 (peer_flags p))] else []"
  let ?psk = "case pc_preshared_key p of None \<Rightarrow> [] | Some k \<Rightarrow> [(WGPEER_A_PRESHARED_KEY, PBytes k)]"
  let ?ka = "case pc_keepalive p of None \<Rightarrow> [] | Some d \<Rightarrow> [(WGPEER_A_KEEPALIVE, PU16 (to_uint 16 (int_seconds d)))]"
  let ?p1 = "zero_peer\<lparr>p_public_key := pc_public_key p\<rparr>"
  let ?p2 = "?p1\<lparr>p_preshared_key := (case pc_preshared_key p of None \<Rightarrow> zero_key | Some k \<Rightarrow> k),
     p_has_preshared_key := pc_preshared_key p \<noteq> None\<rparr>"
  let ?p3 = "?p2\<lparr>p_endpoint := map_option (\<lambda>a. a\<lparr>ua_ip := short_ip (ua_ip a), ua_zone := []\<rparr>) (pc_endpoint p),
     p_has_endpoint := pc_endpoint p \<noteq> None\<rparr>"
  let ?p4 = "?p3\<lparr>p_keepalive := (case pc_keepalive p of None \<Rightarrow> 0 | Some d \<Rightarrow> int (to_uint 16 (int_seconds d)) * second),
     p_has_keepalive := pc_keepalive p \<noteq> None\<rparr>"
  have flags: "fold_res ?f (map (apsnd emb) ?flags) q = Inr q" for q
    by (simp add: parse_peer_attr_def wg_constants)
  have psk: "fold_res ?f (map (apsnd emb) ?psk) ?p1 = Inr ?p2"
    using p by (cases "pc_preshared_key p")
      (simp_all add: nl_peer_ok_def parse_peer_attr_def wg_constants decode key_attr zero_peer_def)
  obtain ep where ep: "(case pc_endpoint p of None \<Rightarrow> Inr []
         | Some a \<Rightarrow> bind_res (encode_sockaddr a) (\<lambda>b. Inr [(WGPEER_A_ENDPOINT, PBytes b)])) = Inr ep"
      "fold_res ?f (map (apsnd emb) ep) ?p2 = Inr ?p3"
  proof (cases "pc_endpoint p")
    case None
    then show ?thesis using that [of "[]"] by (simp add: zero_peer_def)
  next
    case (Some a)
    then obtain b where b: "encode_sockaddr a = Inr b"
        "parse_sockaddr b = Inr (a\<lparr>ua_ip := short_ip (ua_ip a), ua_zone := []\<rparr>)"
      using p parse_sockaddr_encode [of a] by (auto simp: nl_peer_ok_def bind_res_Inr_iff)
    show ?thesis using Some b that [of "[(WGPEER_A_ENDPOINT, PBytes b)]"]
      by (simp add: parse_peer_attr_def wg_constants decode)
  qed
  have ka: "fold_res ?f (map (apsnd emb) ?ka) ?p3 = Inr ?p4"
    by (cases "pc_keepalive p")
       (simp_all add: parse_peer_attr_def wg_constants decode dec_PU16 [OF to_uint_less] zero_peer_def)
  obtain ips where ips: "(if pc_allowed_ips p \<noteq> [] \<or> pc_allowed_ip_ops p \<noteq> [] then
        bind_res (encode_allowed_ips (pc_allowed_ips p) (pc_allowed_ip_ops p))
          (\<lambda>as. Inr [(WGPEER_A_ALLOWEDIPS, PNested as)]) else Inr []) = Inr ips"
      "fold_res ?f (map (apsnd emb) ips) ?p4 = Inr (nl_peer p)"
  proof -
    obtain as where "encode_allowed_ips (pc_allowed_ips p) (pc_allowed_ip_ops p) = Inr as"
        "nl_parse_allowed_ips D (emb (PNested as)) = Inr (pc_allowed_ips p @ map aip_net (pc_allowed_ip_ops p))"
      using allowed_ips [OF wf(2,3)] by blast
    then show ?thesis
      by (intro that [of "if pc_allowed_ips p \<noteq> [] \<or> pc_allowed_ip_ops p \<noteq> []
            then [(WGPEER_A_ALLOWEDIPS, PNested as)] else []"])
         (auto simp: parse_peer_attr_def wg_constants nl_peer_def zero_peer_def)
  qed
  let ?as = "[(WGPEER_A_PUBLIC_KEY, PBytes (pc_public_key p))] @ ?flags @ ?psk @ ep @ ?ka @ ips"
  have pk: "fold_res ?f (map (apsnd emb) [(WGPEER_A_PUBLIC_KEY, PBytes (pc_public_key p))]) zero_peer = Inr ?p1"
    using wf(1) by (simp add: parse_peer_attr_def wg_constants decode key_attr)
  have "encode_peer_attrs p = Inr ?as" unfolding encode_peer_attrs_def ep(1) ips(1) bind_res_simps ..
  moreover have "nl_parse_peer D (ty, emb (PNested ?as)) = Inr (nl_peer p)"
    unfolding nl_parse_peer_def snd_conv dec_nested bind_res_simps map_append fold_res_append pk flags psk ep(2) ka ips(2) ..
  ultimately show ?thesis by blast
qed

lemma config_attrs_read:
  assumes c: "nl_config_ok cfg" and name: "CHR 0x00 \<notin> set name"
  shows "bind_res (config_attrs name cfg) (\<lambda>as. parse_device_loop D (emb (PNested as))) = Inr (nl_device name cfg)"
proof -
  have ok: "list_all nl_peer_ok (c_peers cfg)" and pk: "opt_all wf_key (c_private_key cfg)"
    using c by (simp_all add: nl_config_ok_def)
  let ?enc = "\<lambda>i p. bind_res (encode_peer_attrs p) (\<lambda>as. Inr (to_uint 16 (int i), PNested as))"
  define g where "g (p :: peer_config) = PNested (projr (encode_peer_attrs p))" for p
  have enc: "?enc i p = Inr (to_uint 16 (int i), g p)" and dec: "nl_parse_peer D (j, emb (g p)) = Inr (nl_peer p)"
    if "p \<in> set (c_peers cfg)" for i j p
    using peer_attrs [of p j] ok that by (auto simp: g_def list_all_iff)
  have arr: "encode_array ?enc 0 (c_peers cfg) =
      Inr (map (\<lambda>(j, p). (to_uint 16 (int (0 + j)), g p)) (zip [0..<length (c_peers cfg)] (c_peers cfg)))"
    by (rule encode_array_Inr) (rule enc)
  let ?as = "map (\<lambda>(j, p). (to_uint 16 (int (0 + j)), g p)) (zip [0..<length (c_peers cfg)] (c_peers cfg))"
  have peers: "map_res (nl_parse_peer D) (map (apsnd emb) ?as) = Inr (map nl_peer (c_peers cfg))"
    by (rule map_res_array [where t = "\<lambda>j. to_uint 16 (int j)"]) (rule dec)
  let ?peers = "if c_peers cfg \<noteq> [] then [(WGDEVICE_A_PEERS, PNested ?as)] else []"
  let ?f = "parse_device_attr D"
  let ?d0 = "(zero_device\<lparr>d_type := LinuxKernel\<rparr>)\<lparr>d_name := name\<rparr>"
  let ?d1 = "?d0\<lparr>d_private_key := (case c_private_key cfg of None \<Rightarrow> zero_key | Some k \<Rightarrow> k),
      d_has_private_key := c_private_key cfg \<noteq> None\<rparr>"
  let ?d2 = "?d1\<lparr>d_listen_port := (case c_listen_port cfg of None \<Rightarrow> 0 | Some p \<Rightarrow> int (to_uint 16 p)),
      d_has_listen_port := c_listen_port cfg \<noteq> None\<rparr>"
  let ?d3 = "?d2\<lparr>d_firewall_mark := (case c_firewall_mark cfg of None \<Rightarrow> 0 | Some p \<Rightarrow> int (to_uint 32 p)),
      d_has_firewall_mark := c_firewall_mark cfg \<noteq> None\<rparr>"
  have s0: "fold_res ?f (map (apsnd emb) [(WGDEVICE_A_IFNAME, PText name)]) (zero_device\<lparr>d_type := LinuxKernel\<rparr>) = Inr ?d0"
    by (simp add: parse_device_attr_def dec_PText [OF name] wg_constants)
  have s1: "fold_res ?f (map (apsnd emb) (case c_private_key cfg of None \<Rightarrow> []
        | Some k \<Rightarrow> [(WGDEVICE_A_PRIVATE_KEY, PBytes k)])) ?d0 = Inr ?d1"
    using pk by (cases "c_private_key cfg")
      (simp_all add: parse_device_attr_def wg_constants decode key_attr zero_device_def)
  have s2: "fold_res ?f (map (apsnd emb) (case c_listen_port cfg of None \<Rightarrow> []
        | Some p \<Rightarrow> [(WGDEVICE_A_LISTEN_PORT, PU16 (to_uint 16 p))])) ?d1 = Inr ?d2"
    by (cases "c_listen_port cfg")
      (simp_all add: parse_device_attr_def wg_constants dec_PU16 [OF to_uint_less] zero_device_def)
  have s3: "fold_res ?f (map (apsnd emb) (case c_firewall_mark cfg of None \<Rightarrow> []
        | Some p \<Rightarrow> [(WGDEVICE_A_FWMARK, PU32 (to_uint 32 p))])) ?d2 = Inr ?d3"
    by (cases "c_firewall_mark cfg")
      (simp_all add: parse_device_attr_def wg_constants dec_PU32 [OF to_uint_less] zero_device_def)
  have s4: "fold_res ?f (map (apsnd emb) (if c_replace_peers cfg then [(WGDEVICE_A_FLAGS, PU32 1)] else [])) d = Inr d" for d
    by (simp add: parse_device_attr_def wg_constants)
  have s5: "fold_res ?f (map (apsnd emb) ?peers) ?d3 = Inr (nl_device name cfg)"
    using peers by (cases "c_peers cfg = []")
      (simp_all add: parse_device_attr_def wg_constants dec_nested nl_device_def zero_device_def)
  have "config_attrs name cfg = Inr ([(WGDEVICE_A_IFNAME, PText name)]
          @ (case c_private_key cfg of None \<Rightarrow> [] | Some k \<Rightarrow> [(WGDEVICE_A_PRIVATE_KEY, PBytes k)])
          @ (case c_listen_port cfg of None \<Rightarrow> [] | Some p \<Rightarrow> [(WGDEVICE_A_LISTEN_PORT, PU16 (to_uint 16 p))])
          @ (case c_firewall_mark cfg of None \<Rightarrow> [] | Some m \<Rightarrow> [(WGDEVICE_A_FWMARK, PU32 (to_uint 32 m))])
          @ (if c_replace_peers cfg then [(WGDEVICE_A_FLAGS, PU32 1)] else []) @ ?peers)"
    unfolding config_attrs_def arr by (cases "c_peers cfg = []") simp_all
  then show ?thesis
    unfolding parse_device_loop_def
    by (simp only: bind_res_simps dec_nested map_append fold_res_append s0 s1 s2 s3 s4 s5)
qed

end

text \<open>The decoder of the recorded attributes themselves.\<close>

definition wrong_type :: go_error where
  "wrong_type = ErrText ''netlink: attribute of another size''"

definition tree_decoder :: "payload decoder" where
  "tree_decoder =
     \<lparr>dec_attrs = (\<lambda>p. case p of PNested as \<Rightarrow> Inr as | _ \<Rightarrow> Inl wrong_type),
      dec_bytes = (\<lambda>p. case p of PBytes b \<Rightarrow> Inr b | _ \<Rightarrow> Inl wrong_type),
      dec_text = (\<lambda>p. case p of PText s \<Rightarrow> Inr s | _ \<Rightarrow> Inl wrong_type),
      dec_u8 = (\<lambda>p. case p of PU8 n \<Rightarrow> Inr n | _ \<Rightarrow> Inl wrong_type),
      dec_u16 = (\<lambda>p. case p of PU16 n \<Rightarrow> Inr n | _ \<Rightarrow> Inl wrong_type),
      dec_u32 = (\<lambda>p. case p of PU32 n \<Rightarrow> Inr n | _ \<Rightarrow> Inl wrong_type),
      dec_u64 = (\<lambda>p. Inl wrong_type)\<rparr>"

interpretation tree: netlink_codec tree_decoder id
  by unfold_locales (simp_all add: tree_decoder_def)

section \<open>Merging the messages of a dump\<close>

definition merge_inv :: "peer list \<times> (key \<Rightarrow> nat option) \<Rightarrow> bool" where
  "merge_inv st \<longleftrightarrow> distinct (map p_public_key (fst st))
     \<and> (\<forall>k i. snd st k = Some i \<longleftrightarrow> i < length (fst st) \<and> p_public_key (fst st ! i) = k)"

lemma known_from_iff:
  "distinct (map p_public_key ps) \<Longrightarrow>
   known_from n ps m k = Some i \<longleftrightarrow>
     (if k \<in> p_public_key ` set ps then n \<le> i \<and> i < n + length ps \<and> p_public_key (ps ! (i - n)) = k
      else m k = Some i)"
proof (induction ps arbitrary: n m)
  case (Cons p ps)
  show ?case
  proof (cases "k = p_public_key p")
    case True
    then have "k \<notin> p_public_key ` set ps" using Cons.prems by auto
    moreover have "i = n" if "n \<le> i" "i < n + length (p # ps)" "p_public_key ((p # ps) ! (i - n)) = k"
    proof (rule ccontr)
      assume "i \<noteq> n"
      with that have "(p # ps) ! (i - n) = ps ! (i - Suc n)" "i - Suc n < length ps"
        by (auto simp: nth_Cons' Suc_diff_Suc)
      with that \<open>k \<notin> p_public_key ` set ps\<close> show False by (metis imageI nth_mem)
    qed
    ultimately show ?thesis using Cons True by auto
  next
    case False
    have "(n \<le> i \<and> i < n + length (p # ps) \<and> p_public_key ((p # ps) ! (i - n)) = k) \<longleftrightarrow>
        (Suc n \<le> i \<and> i < Suc n + length ps \<and> p_public_key (ps ! (i - Suc n)) = k)"
      using False by (cases "i = n") (auto simp: nth_Cons' Suc_diff_Suc)
    then show ?thesis using Cons False by auto
  qed
qed simp

lemma merge_inv_start: "distinct (map p_public_key ps) \<Longrightarrow> merge_inv (ps, known_from 0 ps Map.empty)"
  by (auto simp: merge_inv_def known_from_iff)


definition ips_of :: "key \<Rightarrow> peer list \<Rightarrow> ip_net list" where
  "ips_of k ps = concat (map p_allowed_ips (filter (\<lambda>p. p_public_key p = k) ps))"

lemma ips_of_append [simp]: "ips_of k (ps @ qs) = ips_of k ps @ ips_of k qs"
  by (simp add: ips_of_def)

lemma ips_of_Cons: "ips_of k (q # qs) = ips_of k [q] @ ips_of k qs"
  by (simp add: ips_of_def)

lemma ips_of_none: "k \<notin> p_public_key ` set ps \<Longrightarrow> ips_of k ps = []"
  by (auto simp: ips_of_def filter_empty_conv)

lemma merge_peer_new:
  assumes inv: "merge_inv (ps, known)" and None: "known (p_public_key p) = None"
  shows "merge_inv (ps @ [p], known(p_public_key p \<mapsto> length ps))"
proof -
  have dist: "distinct (map p_public_key ps)"
    and known: "\<And>k i. known k = Some i \<longleftrightarrow> i < length ps \<and> p_public_key (ps ! i) = k"
    using inv by (auto simp: merge_inv_def)
  have new: "p_public_key p \<notin> p_public_key ` set ps"
  proof
    assume "p_public_key p \<in> p_public_key ` set ps"
    then obtain i where "i < length ps" "p_public_key (ps ! i) = p_public_key p" by (auto simp: in_set_conv_nth)
    then show False using known [of "p_public_key p" i] None by simp
  qed
  have "(known(p_public_key p \<mapsto> length ps)) k = Some i \<longleftrightarrow>
      i < length (ps @ [p]) \<and> p_public_key ((ps @ [p]) ! i) = k" for k i
  proof (cases "i < length ps")
    case True
    then have "p_public_key (ps ! i) \<noteq> p_public_key p" using new by (metis imageI nth_mem)
    with True show ?thesis using known [of k i] by (auto simp: nth_append)
  next
    case False
    then show ?thesis using known [of k i] by (auto simp: nth_append less_Suc_eq)
  qed
  then show ?thesis using dist new by (simp add: merge_inv_def)
qed

lemma merge_peer_known:
  assumes inv: "merge_inv (ps, known)" and i: "known (p_public_key p) = Some i"
    and q: "p_public_key q = p_public_key p" "p_allowed_ips q = p_allowed_ips (ps ! i) @ p_allowed_ips p"
  shows "merge_inv (ps[i := q], known)" and "ips_of k (ps[i := q]) = ips_of k (ps @ [p])"
    and "p_public_key ` set (ps[i := q]) = insert (p_public_key p) (p_public_key ` set ps)"
proof -
  have dist: "distinct (map p_public_key ps)"
    and known: "\<And>k i. known k = Some i \<longleftrightarrow> i < length ps \<and> p_public_key (ps ! i) = k"
    using inv by (auto simp: merge_inv_def)
  have il: "i < length ps" "p_public_key (ps ! i) = p_public_key p" using known [of "p_public_key p" i] i by auto
  have keys: "map p_public_key (ps[i := q]) = map p_public_key ps"
    using il q(1) by (simp add: map_update list_update_same_conv)
  have nth: "p_public_key (ps[i := q] ! j) = p_public_key (ps ! j)" if "j < length ps" for j
    using keys that by (metis length_list_update nth_map)
  show "merge_inv (ps[i := q], known)"
    using dist known keys nth by (auto simp: merge_inv_def)
  have "p_public_key p \<in> p_public_key ` set ps" using il by (metis imageI nth_mem)
  moreover have "p_public_key ` set (ps[i := q]) = p_public_key ` set ps" using keys by (metis set_map)
  ultimately show "p_public_key ` set (ps[i := q]) = insert (p_public_key p) (p_public_key ` set ps)" by auto
  define a b where "a = take i ps" and "b = drop (Suc i) ps"
  have split: "ps = a @ ps ! i # b" using il by (simp add: a_def b_def id_take_nth_drop [symmetric])
  have upd: "ps[i := q] = a @ q # b" using il by (simp add: a_def b_def upd_conv_take_nth_drop)
  have "distinct (map p_public_key (a @ ps ! i # b))" using dist split by metis
  then have b: "ips_of (p_public_key p) b = []" using il by (intro ips_of_none) auto
  have one: "ips_of k [q] = ips_of k [ps ! i] @ ips_of k [p]" using q il by (simp add: ips_of_def)
  have "ips_of k b = [] \<or> ips_of k [p] = []" using b by (cases "k = p_public_key p") (simp_all add: ips_of_def)
  then have "ips_of k (a @ q # b) = ips_of k (a @ ps ! i # b) @ ips_of k [p]"
    unfolding ips_of_append ips_of_Cons [of k q b] ips_of_Cons [of k "ps ! i" b] one by auto
  then show "ips_of k (ps[i := q]) = ips_of k (ps @ [p])"
    by (simp only: upd ips_of_append [of k ps] split [symmetric])
qed

lemma merge_peer_step:
  assumes inv: "merge_inv (ps, known)" and st: "merge_peer p (ps, known) = (ps', known')"
  shows "merge_inv (ps', known')" and "ips_of k ps' = ips_of k (ps @ [p])"
    and "p_public_key ` set ps' = insert (p_public_key p) (p_public_key ` set ps)"
proof -
  have "merge_inv (ps', known') \<and> ips_of k ps' = ips_of k (ps @ [p]) \<and>
      p_public_key ` set ps' = insert (p_public_key p) (p_public_key ` set ps)"
  proof (cases "known (p_public_key p)")
    case None
    then have "ps' = ps @ [p]" "known' = known(p_public_key p \<mapsto> length ps)" using st by (auto simp: merge_peer_def)
    then show ?thesis using merge_peer_new [OF inv None] by simp
  next
    case (Some i)
    then have "ps' = ps[i := (ps ! i)\<lparr>p_allowed_ips := p_allowed_ips (ps ! i) @ p_allowed_ips p\<rparr>]" "known' = known"
      using st by (auto simp: merge_peer_def)
    moreover have "p_public_key (ps ! i) = p_public_key p" using inv Some by (auto simp: merge_inv_def)
    ultimately show ?thesis using merge_peer_known [OF inv Some] by simp
  qed
  then show "merge_inv (ps', known')" "ips_of k ps' = ips_of k (ps @ [p])"
      "p_public_key ` set ps' = insert (p_public_key p) (p_public_key ` set ps)" by blast+
qed

lemma merge_peers_fold:
  assumes "merge_inv st"
  shows "merge_inv (fold merge_peer qs st) \<and> ips_of k (fst (fold merge_peer qs st)) = ips_of k (fst st @ qs)
    \<and> p_public_key ` set (fst (fold merge_peer qs st)) = p_public_key ` set (fst st @ qs)"
  using assms
proof (induction qs arbitrary: st)
  case (Cons q qs)
  obtain ps known where st: "st = (ps, known)" by (cases st)
  obtain ps' known' where st': "merge_peer q (ps, known) = (ps', known')" by (cases "merge_peer q (ps, known)")
  note step = merge_peer_step [OF Cons.prems [unfolded st] st']
  show ?case using Cons.IH [OF step(1)] step(2) [of k] step(3) by (auto simp: st st' ips_of_Cons [of k q qs])
qed simp

lemma merge_devices_fold: "fold merge_devices ds st = fold merge_peer (concat (map d_peers ds)) st"
  by (induction ds arbitrary: st) (simp_all add: merge_devices_def)


section \<open>Properties\<close>

text \<open>
  C2. What the kernel is told is what is asked: the attributes \<open>configAttrs\<close> encodes for a
  configuration, read by \<open>parseDeviceLoop\<close>, give the device with exactly the configured
  values: keys, port and mark in their kernel widths, peers in order, endpoints with their address
  and port (not their zone), keepalives in whole seconds, networks with their prefix lengths.
  The hypotheses on the third-party codec are those of \<open>netlink_codec\<close>.
\<close>

theorem config_attrs_round_trip:
  assumes "netlink_codec D emb" and "nl_config_ok cfg" and "CHR 0x00 \<notin> set name"
  shows "bind_res (config_attrs name cfg) (\<lambda>as. parse_device_loop D (emb (PNested as))) = Inr (nl_device name cfg)"
  using assms by (intro netlink_codec.config_attrs_read)

definition nl_sample :: config where
  "nl_sample = \<lparr>c_private_key = Some (replicate 32 1), c_listen_port = Some 51820, c_firewall_mark = Some 0,
     c_replace_peers = True,
     c_peers = [zero_peer_config\<lparr>pc_public_key := replicate 32 2, pc_replace_allowed_ips := True,
         pc_endpoint := Some \<lparr>ua_ip = [192, 0, 2, 1], ua_port = 7, ua_zone = []\<rparr>,
         pc_keepalive := Some (25 * second),
         pc_allowed_ips := [\<lparr>net_ip = [10, 0, 0, 0], net_mask = mask_bytes 4 8\<rparr>]\<rparr>]\<rparr>"

theorem config_attrs_round_trip_witness:
  "bind_res (config_attrs ''wg0'' nl_sample) (\<lambda>as. parse_device_loop tree_decoder (PNested as))
     = Inr (nl_device ''wg0'' nl_sample)"
proof -
  have "nl_config_ok nl_sample" by code_simp
  from config_attrs_round_trip [OF tree.netlink_codec_axioms this, of "''wg0''"] show ?thesis by simp
qed

text \<open>
  Endpoints survive the kernel's socket addresses: what \<open>encodeSockaddr\<close> writes,
  \<open>parseSockaddr\<close> reads as the same address, in its short form, and the same port in
  network order. The zone of an IPv6 address does not survive: it is not written at all.
\<close>

theorem sockaddr_round_trip:
  assumes "length (ua_ip a) = 4 \<or> length (ua_ip a) = 16" and "0 \<le> ua_port a" and "ua_port a \<le> 65535"
  shows "bind_res (encode_sockaddr a) parse_sockaddr = Inr (a\<lparr>ua_ip := short_ip (ua_ip a), ua_zone := []\<rparr>)"
  using assms by (rule parse_sockaddr_encode)

theorem sockaddr_round_trip_witness:
  "bind_res (encode_sockaddr \<lparr>ua_ip = 0xFE # 0x80 # replicate 13 0 @ [1], ua_port = 51820, ua_zone = ''eth0''\<rparr>)
     parse_sockaddr = Inr \<lparr>ua_ip = 0xFE # 0x80 # replicate 13 0 @ [1], ua_port = 51820, ua_zone = []\<rparr>"
proof -
  have "short_ip (0xFE # 0x80 # replicate 13 0 @ [1]) = 0xFE # 0x80 # replicate 13 0 @ [1]" by code_simp
  then show ?thesis
    using sockaddr_round_trip [of "\<lparr>ua_ip = 0xFE # 0x80 # replicate 13 0 @ [1], ua_port = 51820, ua_zone = ''eth0''\<rparr>"]
    by simp
qed


definition dump_peer :: "nat \<Rightarrow> byte \<Rightarrow> peer" where
  "dump_peer k n = zero_peer\<lparr>p_public_key := replicate 32 (word_of_nat k),
     p_allowed_ips := [\<lparr>net_ip = [10, 0, 0, n], net_mask = mask_bytes 4 32\<rparr>]\<rparr>"


end
