(* ===== verification/WgLinux.thy ===== *)
theory WgLinux
  imports WgBatch WgNetlink
begin

text \<open>
  internal/wglinux/client_linux.go: the client of the Linux kernel, over generic netlink, and
  the search for WireGuard interfaces over rtnetlink.
\<close>

section \<open>Requests\<close>

text \<open>
  The error of a netlink request: an \<open>OpError\<close> around an error number, of which the client
  tells \<open>ENODEV\<close> and \<open>ENOTSUP\<close> apart, or an error of another type.
\<close>

datatype errno = ENODEV | ENOTSUP | OtherErrno go_error

datatype netlink_error = OpError errno | NoOpError

text \<open>The two commands of the family, each with its flags.\<close>

datatype wg_command = WG_CMD_GET_DEVICE | WG_CMD_SET_DEVICE

text \<open>
  The system, with the kernel's state \<open>'s\<close>. \<open>le_execute\<close> is \<open>genetlink.Conn.Execute\<close>;
  its reply is the payloads \<open>'p\<close> of the messages, which \<open>le_decoder\<close> reads.
  \<open>le_encode\<close> is the encoder's last step, which fails when an attribute is too long.
\<close>

record ('s, 'p) linux_env =
  le_interfaces :: "'s \<Rightarrow> string list res"
  le_encode :: "(nat \<times> payload) list \<Rightarrow> (nat \<times> payload) list res"
  le_execute :: "wg_command \<Rightarrow> (nat \<times> payload) list \<Rightarrow> 's \<Rightarrow> (netlink_error + 'p list) \<times> 's"
  le_decoder :: "'p decoder"
  le_close :: "'s \<Rightarrow> unit res \<times> 's"

definition linux_error :: "netlink_error \<Rightarrow> go_error" where
  "linux_error e =
     (case e of
        NoOpError \<Rightarrow> ErrText ''wglinux: netlink operation returned non-netlink error''
      | OpError ENODEV \<Rightarrow> ErrNotExist
      | OpError ENOTSUP \<Rightarrow> ErrNotExist
      | OpError (OtherErrno g) \<Rightarrow> g)"

definition linux_execute ::
  "('s, 'p) linux_env \<Rightarrow> wg_command \<Rightarrow> (nat \<times> payload) list \<Rightarrow> 's \<Rightarrow> 'p list res \<times> 's" where
  "linux_execute env cmd as s =
     (case le_execute env cmd as s of
        (Inr msgs, s') \<Rightarrow> (Inr msgs, s')
      | (Inl e, s') \<Rightarrow> (Inl (linux_error e), s'))"

definition linux_device :: "('s, 'p) linux_env \<Rightarrow> string \<Rightarrow> 's \<Rightarrow> device res \<times> 's" where
  "linux_device env name s =
     (if name = [] then (Inl ErrNotExist, s)
      else case le_encode env [(WGDEVICE_A_IFNAME, PText name)] of
        Inl e \<Rightarrow> (Inl e, s)
      | Inr b \<Rightarrow>
          (case linux_execute env WG_CMD_GET_DEVICE b s of
             (Inl e, s') \<Rightarrow> (Inl e, s')
           | (Inr msgs, s') \<Rightarrow> (nl_parse_device (le_decoder env) msgs, s')))"

fun linux_get_all :: "('s, 'p) linux_env \<Rightarrow> string list \<Rightarrow> 's \<Rightarrow> device list res \<times> 's" where
  "linux_get_all env [] s = (Inr [], s)"
| "linux_get_all env (i # is) s =
     (case linux_device env i s of
        (Inl e, s1) \<Rightarrow> (Inl e, s1)
      | (Inr d, s1) \<Rightarrow>
          (case linux_get_all env is s1 of
             (Inl e, s2) \<Rightarrow> (Inl e, s2)
           | (Inr ds, s2) \<Rightarrow> (Inr (d # ds), s2)))"

definition linux_devices :: "('s, 'p) linux_env \<Rightarrow> 's \<Rightarrow> device list res \<times> 's" where
  "linux_devices env s =
     (case le_interfaces env s of Inl e \<Rightarrow> (Inl e, s) | Inr ifis \<Rightarrow> linux_get_all env ifis s)"

text \<open>The loop of \<open>ConfigureDevice\<close> over the batches.\<close>

fun linux_send :: "('s, 'p) linux_env \<Rightarrow> string \<Rightarrow> config list \<Rightarrow> 's \<Rightarrow> unit res \<times> 's" where
  "linux_send env name [] s = (Inr (), s)"
| "linux_send env name (b # bs) s =
     (case bind_res (config_attrs name b) (le_encode env) of
        Inl e \<Rightarrow> (Inl e, s)
      | Inr as \<Rightarrow>
          (case linux_execute env WG_CMD_SET_DEVICE as s of
             (Inl e, s') \<Rightarrow> (Inl e, s')
           | (Inr _, s') \<Rightarrow> linux_send env name bs s'))"

definition linux_configure :: "('s, 'p) linux_env \<Rightarrow> string \<Rightarrow> config \<Rightarrow> 's \<Rightarrow> unit res \<times> 's" where
  "linux_configure env name cfg s = linux_send env name (build_batches cfg) s"

definition linux_client :: "('s, 'p) linux_env \<Rightarrow> 's client" where
  "linux_client env = \<lparr>cl_close = le_close env, cl_devices = linux_devices env,
     cl_device = linux_device env, cl_configure = linux_configure env\<rparr>"

text \<open>
  \<open>initClient\<close>, with the outcome of \<open>GetFamily\<close>: no client and no error when the generic
  netlink family does not exist; the connection is closed unless there is a client.
\<close>

definition linux_init ::
  "unit res \<Rightarrow> ('s, 'p) linux_env \<Rightarrow> 's \<Rightarrow> 's client option res \<times> 's" where
  "linux_init family env s =
     (case family of
        Inl e \<Rightarrow> (if errors_Is e ErrNotExist then Inr None else Inl e, snd (le_close env s))
      | Inr _ \<Rightarrow> (Inr (Some (linux_client env)), s))"

section \<open>Finding interfaces\<close>

definition RTM_NEWLINK :: nat where "RTM_NEWLINK = 16"
definition IFLA_IFNAME :: nat where "IFLA_IFNAME = 3"
definition IFLA_LINKINFO :: nat where "IFLA_LINKINFO = 18"
definition IFLA_INFO_KIND :: nat where "IFLA_INFO_KIND = 1"
definition sizeof_if_infomsg :: nat where "sizeof_if_infomsg = 16"

definition wg_kind :: string where "wg_kind = ''wireguard''"

text \<open>The loop of \<open>isWGKind\<close>: whether it sets the flag; it stops at the first match.\<close>

fun wg_kind_loop :: "byte list decoder \<Rightarrow> (nat \<times> byte list) list \<Rightarrow> bool res" where
  "wg_kind_loop D [] = Inr False"
| "wg_kind_loop D (a # as) =
     (if fst a \<noteq> IFLA_INFO_KIND then wg_kind_loop D as
      else bind_res (dec_text D (snd a)) (\<lambda>t. if t = wg_kind then Inr True else wg_kind_loop D as))"

definition is_wg_kind :: "byte list decoder \<Rightarrow> byte list \<Rightarrow> bool res" where
  "is_wg_kind D b = bind_res (dec_attrs D b) (wg_kind_loop D)"

definition link_attr :: "byte list decoder \<Rightarrow> nat \<times> byte list \<Rightarrow> string \<times> bool \<Rightarrow> (string \<times> bool) res" where
  "link_attr D a st =
     (if fst a = IFLA_IFNAME then bind_res (dec_text D (snd a)) (\<lambda>n. Inr (n, snd st))
      else if fst a = IFLA_LINKINFO then
        bind_res (bind_res (dec_bytes D (snd a)) (is_wg_kind D)) (\<lambda>w. Inr (fst st, w \<or> snd st))
      else Inr st)"

fun parse_rtnl_interfaces :: "byte list decoder \<Rightarrow> (nat \<times> byte list) list \<Rightarrow> string list res" where
  "parse_rtnl_interfaces D [] = Inr []"
| "parse_rtnl_interfaces D ((ty, data) # ms) =
     (if ty \<noteq> RTM_NEWLINK then parse_rtnl_interfaces D ms
      else if length data < sizeof_if_infomsg then Inl (ErrText ''wglinux: rtnetlink message is too short for ifinfomsg'')
      else bind_res (bind_res (dec_attrs D (drop sizeof_if_infomsg data)) (\<lambda>as. fold_res (link_attr D) as ([], False)))
        (\<lambda>(ifi, is_wg). bind_res (parse_rtnl_interfaces D ms) (\<lambda>rest. Inr (if is_wg then ifi # rest else rest))))"

definition rtnl_interfaces :: "byte list decoder \<Rightarrow> (nat \<times> byte list) list res \<Rightarrow> string list res" where
  "rtnl_interfaces D table =
     (case table of
        Inl e \<Rightarrow> Inl (ErrText ''wglinux: failed to get list of interfaces from rtnetlink'')
      | Inr msgs \<Rightarrow> parse_rtnl_interfaces D msgs)"

section \<open>Properties\<close>

text \<open>
  Hypothesis on the kernel: every message of these batches can be encoded, and the kernel applies
  it as the reference semantics says, without an error.
\<close>

definition kernel_applies :: "(kernel, 'p) linux_env \<Rightarrow> string \<Rightarrow> config list \<Rightarrow> bool" where
  "kernel_applies env name bs \<longleftrightarrow>
     (\<forall>b \<in> set bs. \<exists>as. bind_res (config_attrs name b) (le_encode env) = Inr as
        \<and> (\<forall>s. \<exists>msgs. le_execute env WG_CMD_SET_DEVICE as s = (Inr msgs, apply_config b s)))"

lemma linux_send_applies:
  "kernel_applies env name bs \<Longrightarrow> linux_send env name bs s = (Inr (), fold apply_config bs s)"
proof (induction bs arbitrary: s)
  case (Cons b bs)
  then obtain as where as: "bind_res (config_attrs name b) (le_encode env) = Inr as"
      "\<And>s. \<exists>msgs. le_execute env WG_CMD_SET_DEVICE as s = (Inr msgs, apply_config b s)"
    by (auto simp: kernel_applies_def)
  obtain msgs where "le_execute env WG_CMD_SET_DEVICE as s = (Inr msgs, apply_config b s)" using as(2) by blast
  moreover have "kernel_applies env name bs" using Cons.prems by (simp add: kernel_applies_def)
  ultimately show ?case using Cons.IH as(1) by (simp add: linux_execute_def)
qed simp


definition sample_linux_env :: "config \<Rightarrow> (kernel, payload) linux_env" where
  "sample_linux_env cfg = \<lparr>le_interfaces = (\<lambda>_. Inr [''wg0'']), le_encode = Inr,
     le_execute = (\<lambda>_ _ s. (Inr [], apply_config cfg s)), le_decoder = tree_decoder, le_close = (\<lambda>s. (Inr (), s))\<rparr>"


text \<open>
  No such device, one error: the kernel's "no such device" and "not a WireGuard device" both
  reach the caller of \<open>Device\<close> as \<open>os.ErrNotExist\<close>; the empty name does so without a request.
\<close>

theorem linux_device_not_exist:
  assumes "name = [] \<or> (\<exists>b. le_encode env [(WGDEVICE_A_IFNAME, PText name)] = Inr b
    \<and> fst (le_execute env WG_CMD_GET_DEVICE b s) \<in> {Inl (OpError ENODEV), Inl (OpError ENOTSUP)})"
  shows "fst (linux_device env name s) = Inl ErrNotExist"
proof (cases "name = []")
  case False
  with assms obtain b where "le_encode env [(WGDEVICE_A_IFNAME, PText name)] = Inr b"
      "fst (le_execute env WG_CMD_GET_DEVICE b s) \<in> {Inl (OpError ENODEV), Inl (OpError ENOTSUP)}" by blast
  then show ?thesis using False
    by (cases "le_execute env WG_CMD_GET_DEVICE b s") (auto simp: linux_device_def linux_execute_def linux_error_def)
qed (simp add: linux_device_def)

theorem linux_device_not_exist_witness:
  "fst (linux_device \<lparr>le_interfaces = (\<lambda>_. Inr []), le_encode = Inr, le_execute = (\<lambda>_ _ s. (Inl (OpError ENODEV), s)),
     le_decoder = tree_decoder, le_close = (\<lambda>s. (Inr (), s))\<rparr> ''wg9'' ()) = Inl ErrNotExist"
  by (rule linux_device_not_exist) simp

end
