(* ===== verification/WgCtrl.thy ===== *)
theory WgCtrl
  imports WgUser WgLinux
begin

text \<open>
  client.go and os_linux.go: the public client, which asks a list of backends in turn, and the
  two backends of a Linux system, the kernel first.
\<close>

section \<open>The client\<close>

text \<open>The field \<open>cs\<close> of \<open>Client\<close>.\<close>

type_synonym 's clients = "'s client list"

fun ctrl_close :: "'s clients \<Rightarrow> 's \<Rightarrow> unit res \<times> 's" where
  "ctrl_close [] s = (Inr (), s)"
| "ctrl_close (c # cs) s =
     (case cl_close c s of
        (Inl e, s') \<Rightarrow> (Inl e, s')
      | (Inr _, s') \<Rightarrow> ctrl_close cs s')"

fun ctrl_devices :: "'s clients \<Rightarrow> 's \<Rightarrow> device list res \<times> 's" where
  "ctrl_devices [] s = (Inr [], s)"
| "ctrl_devices (c # cs) s =
     (case cl_devices c s of
        (Inl e, s1) \<Rightarrow> (Inl e, s1)
      | (Inr devs, s1) \<Rightarrow>
          (case ctrl_devices cs s1 of
             (Inl e, s2) \<Rightarrow> (Inl e, s2)
           | (Inr out, s2) \<Rightarrow> (Inr (devs @ out), s2)))"

fun ctrl_device :: "'s clients \<Rightarrow> string \<Rightarrow> 's \<Rightarrow> device res \<times> 's" where
  "ctrl_device [] name s = (Inl ErrNotExist, s)"
| "ctrl_device (c # cs) name s =
     (case cl_device c name s of
        (Inr d, s') \<Rightarrow> (Inr d, s')
      | (Inl e, s') \<Rightarrow> if errors_Is e ErrNotExist then ctrl_device cs name s' else (Inl e, s'))"

fun ctrl_configure :: "'s clients \<Rightarrow> string \<Rightarrow> config \<Rightarrow> 's \<Rightarrow> unit res \<times> 's" where
  "ctrl_configure [] name cfg s = (Inl ErrNotExist, s)"
| "ctrl_configure (c # cs) name cfg s =
     (case cl_configure c name cfg s of
        (Inr _, s') \<Rightarrow> (Inr (), s')
      | (Inl e, s') \<Rightarrow> if errors_Is e ErrNotExist then ctrl_configure cs name cfg s' else (Inl e, s'))"

text \<open>A list of clients is a client again.\<close>

definition ctrl_client :: "'s clients \<Rightarrow> 's client" where
  "ctrl_client cs = \<lparr>cl_close = ctrl_close cs, cl_devices = ctrl_devices cs,
     cl_device = ctrl_device cs, cl_configure = ctrl_configure cs\<rparr>"

text \<open>
  \<open>newClients\<close> of os_linux.go, with the outcomes of \<open>wglinux.New\<close>, whose flag says whether
  the kernel's interface exists, and of \<open>wguser.New\<close>.
\<close>

definition new_clients :: "'s client option res \<Rightarrow> 's client res \<Rightarrow> 's clients res" where
  "new_clients linux user =
     (case linux of
        Inl e \<Rightarrow> Inl e
      | Inr kc \<Rightarrow>
          (let clients = (case kc of None \<Rightarrow> [] | Some c \<Rightarrow> [c])
           in case user of
                Inl e \<Rightarrow> Inl e
              | Inr uc \<Rightarrow> Inr (clients @ [uc])))"

definition ctrl_new :: "'s client option res \<Rightarrow> 's client res \<Rightarrow> 's clients res" where
  "ctrl_new linux user = (case new_clients linux user of Inl e \<Rightarrow> Inl e | Inr cs \<Rightarrow> Inr cs)"

section \<open>What a backend promises\<close>

text \<open>
  The contract the client relies on: a backend that does not have an interface says so, and
  leaves the system as it was, for every configuration it can send.
\<close>

locale backend =
  fixes c :: "'s client"
    and absent :: "'s \<Rightarrow> string \<Rightarrow> bool"
    and sendable :: "string \<Rightarrow> config \<Rightarrow> bool"
  assumes device_absent: "absent s n \<Longrightarrow> cl_device c n s = (Inl ErrNotExist, s)"
    and configure_absent: "absent s n \<Longrightarrow> sendable n cfg \<Longrightarrow> cl_configure c n cfg s = (Inl ErrNotExist, s)"
begin

lemma device_next: "absent s n \<Longrightarrow> ctrl_device (c # cs) n s = ctrl_device cs n s"
  by (simp add: device_absent)

lemma configure_next:
  "absent s n \<Longrightarrow> sendable n cfg \<Longrightarrow> ctrl_configure (c # cs) n cfg s = ctrl_configure cs n cfg s"
  by (simp add: configure_absent)

end

text \<open>Two backends in turn have what either has, so they are a backend again.\<close>

locale two_backends = one: backend c1 a1 s1 + two: backend c2 a2 s2
  for c1 :: "'s client" and a1 s1 and c2 :: "'s client" and a2 s2
begin

lemma device_nowhere: "a1 s n \<Longrightarrow> a2 s n \<Longrightarrow> ctrl_device [c1, c2] n s = (Inl ErrNotExist, s)"
  by (simp add: one.device_absent two.device_absent)

lemma configure_nowhere:
  "a1 s n \<Longrightarrow> a2 s n \<Longrightarrow> s1 n cfg \<Longrightarrow> s2 n cfg \<Longrightarrow> ctrl_configure [c1, c2] n cfg s = (Inl ErrNotExist, s)"
  by (simp add: one.configure_absent two.configure_absent)

end

sublocale two_backends \<subseteq> both: backend "ctrl_client [c1, c2]" "\<lambda>s n. a1 s n \<and> a2 s n" "\<lambda>n cfg. s1 n cfg \<and> s2 n cfg"
  by unfold_locales (simp_all only: ctrl_client_def client.simps device_nowhere configure_nowhere)

text \<open>
  The two backends: no socket has the name; the kernel refuses every request, as it does
  when the name is not that of a WireGuard interface.
\<close>

definition user_absent :: "'s user_env \<Rightarrow> 's \<Rightarrow> string \<Rightarrow> bool" where
  "user_absent env s n \<longleftrightarrow>
     (case ue_find env s of Inl e \<Rightarrow> False | Inr ds \<Rightarrow> find (\<lambda>d. n = device_name d) ds = None)"

definition kernel_absent :: "('s, 'p) linux_env \<Rightarrow> 's \<Rightarrow> string \<Rightarrow> bool" where
  "kernel_absent env s n \<longleftrightarrow> is_ok (le_encode env [(WGDEVICE_A_IFNAME, PText n)])
     \<and> (\<forall>cmd as. le_execute env cmd as s \<in> {(Inl (OpError ENODEV), s), (Inl (OpError ENOTSUP), s)})"

definition linux_sendable :: "('s, 'p) linux_env \<Rightarrow> string \<Rightarrow> config \<Rightarrow> bool" where
  "linux_sendable env n cfg \<longleftrightarrow> is_ok (bind_res (config_attrs n (hd (build_batches cfg))) (le_encode env))"

lemma linux_execute_absent: "kernel_absent env s n \<Longrightarrow> linux_execute env cmd as s = (Inl ErrNotExist, s)"
proof -
  assume "kernel_absent env s n"
  then have "le_execute env cmd as s \<in> {(Inl (OpError ENODEV), s), (Inl (OpError ENOTSUP), s)}"
    by (simp add: kernel_absent_def)
  then show ?thesis by (auto simp: linux_execute_def linux_error_def)
qed

lemma build_batches_not_Nil: "build_batches cfg \<noteq> []"
proof (cases "should_batch cfg")
  case True
  then have "c_peers cfg \<noteq> []" by (auto simp: should_batch_def)
  then show ?thesis
    by (cases "c_peers cfg") (auto simp: build_batches_def clear_replace_def batch_peer_chunks chunks_not_Nil split: list.splits)
qed (simp add: build_batches_def)

interpretation user: backend "user_client env" "user_absent env" "\<lambda>_ _. True" for env :: "'s user_env"
  by unfold_locales
    (auto simp: user_client_def user_absent_def user_device_def user_configure_def split: sum.splits)

interpretation linux: backend "linux_client env" "kernel_absent env" "linux_sendable env"
  for env :: "('s, 'p) linux_env"
proof
  fix s n
  assume a: "kernel_absent env s n"
  then obtain b where "le_encode env [(WGDEVICE_A_IFNAME, PText n)] = Inr b"
    by (cases "le_encode env [(WGDEVICE_A_IFNAME, PText n)]") (auto simp: kernel_absent_def)
  with a show "cl_device (linux_client env) n s = (Inl ErrNotExist, s)"
    by (simp add: linux_client_def linux_device_def linux_execute_absent)
  fix cfg
  assume "linux_sendable env n cfg"
  then obtain as where "bind_res (config_attrs n (hd (build_batches cfg))) (le_encode env) = Inr as"
    by (cases "bind_res (config_attrs n (hd (build_batches cfg))) (le_encode env)") (auto simp: linux_sendable_def)
  with a show "cl_configure (linux_client env) n cfg s = (Inl ErrNotExist, s)"
    using build_batches_not_Nil [of cfg]
    by (cases "build_batches cfg") (simp_all add: linux_client_def linux_configure_def linux_execute_absent)
qed

interpretation system: two_backends "linux_client le" "kernel_absent le" "linux_sendable le"
    "user_client ue" "user_absent ue" "\<lambda>_ _. True"
  for le :: "('s, 'p) linux_env" and ue :: "'s user_env"
  by unfold_locales

section \<open>Properties\<close>

text \<open>
  The first backend that has an interface answers for it: as long as the backends before
  it report \<open>os.ErrNotExist\<close>, wrapped or not, \<open>Device\<close> is the answer of the next one, a device
  or an error; no later backend is asked.
\<close>

theorem ctrl_device_first:
  assumes "\<forall>p \<in> set pre. \<exists>e. cl_device p name s = (Inl e, s) \<and> errors_Is e ErrNotExist"
    and "cl_device c name s = (r, s')" and "\<forall>e. r = Inl e \<longrightarrow> \<not> errors_Is e ErrNotExist"
  shows "ctrl_device (pre @ c # post) name s = (r, s')"
  using assms(1)
proof (induction pre)
  case Nil
  then show ?case using assms(2,3) by (cases r) simp_all
qed auto

definition no_client :: "unit client" where
  "no_client = \<lparr>cl_close = (\<lambda>s. (Inr (), s)), cl_devices = (\<lambda>s. (Inr [], s)),
     cl_device = (\<lambda>n s. (Inl (ErrWrap ''stat'' ErrNotExist), s)), cl_configure = (\<lambda>n c s. (Inl ErrNotExist, s))\<rparr>"

definition some_client :: "unit client" where
  "some_client = no_client\<lparr>cl_device := (\<lambda>n s. (Inr (zero_device\<lparr>d_name := n\<rparr>), s))\<rparr>"

theorem ctrl_device_first_witness:
  "ctrl_device ([no_client] @ some_client # [no_client]) ''wg0'' () = (Inr (zero_device\<lparr>d_name := ''wg0''\<rparr>), ())"
  by (rule ctrl_device_first) (simp_all add: no_client_def some_client_def)


definition no_kernel :: "(unit, payload) linux_env" where
  "no_kernel = \<lparr>le_interfaces = (\<lambda>_. Inr []), le_encode = Inr,
     le_execute = (\<lambda>_ _ s. (Inl (OpError ENODEV), s)), le_decoder = tree_decoder, le_close = (\<lambda>s. (Inr (), s))\<rparr>"

definition no_sockets :: "unit user_env" where
  "no_sockets = \<lparr>ue_find = (\<lambda>_. Inr [''/var/run/wireguard/wg1.sock'']), ue_dial = (\<lambda>_ _. Inr ()),
     ue_get = (\<lambda>_ _ s. (Inl (ErrText ''closed''), s)), ue_set = (\<lambda>_ _ s. (Inr ''errno=0'', s)),
     ue_resolver = \<lparr>lookup_service = (\<lambda>_. Inl (ErrText ''service'')), lookup_host = (\<lambda>_. Inl (ErrText ''lookup''))\<rparr>,
     ue_base_mult = id\<rparr>"


end
