(* ===== verification/GoJsonDoc.thy ===== *)
theory GoJsonDoc
  imports GoJson
begin

text \<open>
  JSON documents as \<open>encoding/json\<close> reads them into Go values: the text is checked and
  parsed as a whole before a value is set from it.
\<close>

section \<open>Documents\<close>

datatype json =
    JNull
  | JBool bool
  | JNum string
  | JStr string
  | JArr "json list"
  | JObj "(string \<times> json) list"

definition digit :: "char \<Rightarrow> bool" where
  "digit c = between 48 57 c"

text \<open>A number is kept as its text: an integer part, a fraction, an exponent.\<close>

definition json_int :: "string \<Rightarrow> (string \<times> string) option" where
  "json_int s =
     (case s of
        [] \<Rightarrow> None
      | c # t \<Rightarrow>
          if c = CHR ''0'' then Some ([c], t)
          else if digit c then Some (takeWhile digit s, dropWhile digit s)
          else None)"

definition json_frac :: "string \<Rightarrow> (string \<times> string) option" where
  "json_frac s =
     (case s of
        [] \<Rightarrow> Some ([], s)
      | c # t \<Rightarrow>
          if c \<noteq> CHR ''.'' then Some ([], s)
          else if takeWhile digit t = [] then None
          else Some (c # takeWhile digit t, dropWhile digit t))"

definition json_exp :: "string \<Rightarrow> (string \<times> string) option" where
  "json_exp s =
     (case s of
        [] \<Rightarrow> Some ([], s)
      | c # t \<Rightarrow>
          if c \<noteq> CHR ''e'' \<and> c \<noteq> CHR ''E'' then Some ([], s)
          else (let sign = (if prefix ''+'' t \<or> prefix ''-'' t then [hd t] else []);
                    u = drop (length sign) t
                in if takeWhile digit u = [] then None
                   else Some (c # sign @ takeWhile digit u, dropWhile digit u)))"

definition json_number :: "string \<Rightarrow> (string \<times> string) option" where
  "json_number s =
     (let sign = (if prefix ''-'' s then ''-'' else [])
      in case json_int (drop (length sign) s) of
           None \<Rightarrow> None
         | Some (i, t) \<Rightarrow>
             (case json_frac t of
                None \<Rightarrow> None
              | Some (f, u) \<Rightarrow>
                  (case json_exp u of
                     None \<Rightarrow> None
                   | Some (e, v) \<Rightarrow> Some (sign @ i @ f @ e, v))))"

definition json_skip :: "string \<Rightarrow> string" where
  "json_skip s = dropWhile json_space s"

text \<open>
  One value, the values of an array, the members of an object, each with what follows it. The
  second argument is how deep the value may still be nested; the first bounds the steps, of
  which a text needs at most two for each of its characters.
\<close>

fun json_val :: "nat \<Rightarrow> nat \<Rightarrow> string \<Rightarrow> (json \<times> string) option"
  and json_elems :: "nat \<Rightarrow> nat \<Rightarrow> string \<Rightarrow> (json list \<times> string) option"
  and json_members :: "nat \<Rightarrow> nat \<Rightarrow> string \<Rightarrow> ((string \<times> json) list \<times> string) option"
where
  "json_val 0 d s = None"
| "json_val (Suc n) d s =
     (case json_skip s of
        [] \<Rightarrow> None
      | c # t \<Rightarrow>
          if c = CHR 0x22 then map_option (\<lambda>(r, u). (JStr r, u)) (json_body t)
          else if c = CHR ''['' then
            (if d = 0 then None
             else if prefix '']'' (json_skip t) then Some (JArr [], tl (json_skip t))
             else map_option (\<lambda>(vs, u). (JArr vs, u)) (json_elems n (d - 1) t))
          else if c = CHR ''{'' then
            (if d = 0 then None
             else if prefix ''}'' (json_skip t) then Some (JObj [], tl (json_skip t))
             else map_option (\<lambda>(ms, u). (JObj ms, u)) (json_members n (d - 1) t))
          else if prefix ''null'' (c # t) then Some (JNull, drop 4 (c # t))
          else if prefix ''true'' (c # t) then Some (JBool True, drop 4 (c # t))
          else if prefix ''false'' (c # t) then Some (JBool False, drop 5 (c # t))
          else map_option (\<lambda>(r, u). (JNum r, u)) (json_number (c # t)))"
| "json_elems 0 d s = None"
| "json_elems (Suc n) d s =
     (case json_val n d s of
        None \<Rightarrow> None
      | Some (v, u) \<Rightarrow>
          (case json_skip u of
             [] \<Rightarrow> None
           | c # w \<Rightarrow>
               if c = CHR '','' then map_option (\<lambda>(vs, x). (v # vs, x)) (json_elems n d w)
               else if c = CHR '']'' then Some ([v], w)
               else None))"
| "json_members 0 d s = None"
| "json_members (Suc n) d s =
     (case json_skip s of
        [] \<Rightarrow> None
      | q # t \<Rightarrow>
          if q \<noteq> CHR 0x22 then None
          else (case json_body t of
            None \<Rightarrow> None
          | Some (k, u) \<Rightarrow>
              (case json_skip u of
                 [] \<Rightarrow> None
               | c # w \<Rightarrow>
                   if c \<noteq> CHR '':'' then None
                   else (case json_val n d w of
                     None \<Rightarrow> None
                   | Some (v, x) \<Rightarrow>
                       (case json_skip x of
                          [] \<Rightarrow> None
                        | e # y \<Rightarrow>
                            if e = CHR '','' then map_option (\<lambda>(ms, z). ((k, v) # ms, z)) (json_members n d y)
                            else if e = CHR ''}'' then Some ([(k, v)], y)
                            else None)))))"

definition json_parse :: "string \<Rightarrow> json res" where
  "json_parse s =
     (case json_val (2 * length s + 2) 10000 s of
        None \<Rightarrow> Inl (ErrText ''json'')
      | Some (v, u) \<Rightarrow> if json_skip u = [] then Inr v else Inl (ErrText ''json''))"

text \<open>
  The name of a struct field matches a member's name up to case, as \<open>strings.EqualFold\<close> has it:
  U+017F folds to \<open>s\<close> and U+212A to \<open>k\<close>.
\<close>

definition fold_rune :: "string \<Rightarrow> string" where
  "fold_rune r =
     (if r = [CHR 0xC5, CHR 0xBF] then ''s''
      else if r = [CHR 0xE2, CHR 0x84, CHR 0xAA] then ''k'' else r)"

definition equal_fold_ascii :: "string \<Rightarrow> string \<Rightarrow> bool" where
  "equal_fold_ascii s t \<longleftrightarrow> equal_fold (strings_Map fold_rune s) t"

section \<open>What the routines do on written text\<close>

lemma json_skip_simps [simp]:
  "json_skip [] = []"
  "json_skip (CHR 0x20 # s) = json_skip s"
  "json_skip (CHR 0x0A # s) = json_skip s"
  "\<not> json_space c \<Longrightarrow> json_skip (c # s) = c # s"
  by (simp_all add: json_skip_def json_space_def)

lemma json_space_simps [simp]:
  "\<not> json_space (CHR 0x22)" "\<not> json_space (CHR ''{'')" "\<not> json_space (CHR ''}'')"
  "\<not> json_space (CHR '':'')" "\<not> json_space (CHR '','')"
  by (simp_all add: json_space_def)

lemma json_quote_cons:
  "json_quote s @ t = CHR 0x22 # concat (map json_esc (runes s)) @ CHR 0x22 # t"
  by (simp add: json_quote_def)

lemma json_val_quote: "valid_string s \<Longrightarrow> json_val (Suc n) d (json_quote s @ t) = Some (JStr s, t)"
  by (simp add: json_quote_cons json_body_quote)

lemma length_json_quote: "2 \<le> length (json_quote s)"
  by (simp add: json_quote_def)

text \<open>An object of strings, one member on a line.\<close>

definition string_member :: "string \<Rightarrow> string \<times> string \<Rightarrow> string" where
  "string_member indent kv = indent @ json_quote (fst kv) @ '': '' @ json_quote (snd kv)"

definition blanks :: "nat \<Rightarrow> string" where
  "blanks n = replicate n (CHR 0x20)"

lemma json_skip_blanks [simp]: "json_skip (blanks n @ s) = json_skip s"
  by (induction n) (simp_all add: blanks_def)

definition comma_lines :: "string list \<Rightarrow> string" where
  "comma_lines = join ('','' @ [CHR 0x0A])"

lemma comma_lines_simps [simp]:
  "comma_lines [x] = x"
  "comma_lines (x # y # zs) = x @ CHR '','' # CHR 0x0A # comma_lines (y # zs)"
  by (simp_all add: comma_lines_def)

lemma json_members_strings:
  assumes "ms \<noteq> []" and "\<forall>(k, v) \<in> set ms. valid_string k \<and> valid_string v" and "length ms < n"
  shows "json_members n d (CHR 0x0A # comma_lines (map (string_member (blanks i)) ms) @ CHR 0x0A # blanks j @ CHR ''}'' # t) =
    Some (map (\<lambda>(k, v). (k, JStr v)) ms, t)"
  using assms
proof (induction ms arbitrary: n)
  case (Cons m ms)
  obtain k v where m: "m = (k, v)" by (cases m)
  obtain n' where n: "n = Suc (Suc n')" using Cons.prems(3) by (cases n; cases "n - 1") auto
  have kv: "valid_string k" "valid_string v" using Cons.prems(2) m by auto
  have body: "json_body (concat (map json_esc (runes k)) @ CHR 0x22 # w) = Some (k, w)" for w
    using kv(1) by (rule json_body_quote)
  have val: "json_val (Suc n') d (CHR 0x20 # json_quote v @ w) = Some (JStr v, w)" for w
    using kv(2) by (simp add: json_quote_cons json_body_quote)
  show ?case
  proof (cases ms)
    case Nil
    then show ?thesis
      by (simp add: m n string_member_def json_quote_cons [of k] body val del: json_val.simps)
  next
    case (Cons m' ms')
    have IH: "json_members (Suc n') d (CHR 0x0A # comma_lines (map (string_member (blanks i)) ms) @ CHR 0x0A # blanks j @ CHR ''}'' # t) =
        Some (map (\<lambda>(k, v). (k, JStr v)) ms, t)"
      using Cons.IH [of "Suc n'"] Cons.prems Cons n by simp
    have "comma_lines (map (string_member (blanks i)) (m # ms)) =
        string_member (blanks i) m @ CHR '','' # CHR 0x0A # comma_lines (map (string_member (blanks i)) ms)"
      by (simp add: Cons)
    then show ?thesis
      unfolding n by (subst json_members.simps(2))
        (simp add: m string_member_def json_quote_cons [of k] body val IH del: json_val.simps json_members.simps list.map, simp)
  qed
qed simp

end
