(* ===== verification/WgMeta.thy ===== *)
theory WgMeta
  imports WgTypes OsFiles GoJsonDoc "HOL-Library.AList" "HOL-Library.List_Lexorder" "HOL-Library.Char_ord"
begin

text \<open>
  internal/wgmeta: the friendly names of peers, one JSON document for each interface beside its
  configuration file (path.go), read and replaced as a whole under a lock file (store.go,
  lock_unix.go). A Go map is an association list without duplicate keys, in the order in which
  a \<open>range\<close> visits it.
\<close>

section \<open>Where the names are\<close>

datatype goos = Windows | Darwin | OtherOS

definition stat_ok :: "os_env \<Rightarrow> string \<Rightarrow> fs \<Rightarrow> bool" where
  "stat_ok env p s = is_ok (os_stat env p s)"

text \<open>
  \<open>DefaultPath\<close>. On Windows the separator is another one: \<open>win_join\<close> is its
  \<open>filepath.Join\<close>.
\<close>

definition default_path :: "os_env \<Rightarrow> goos \<Rightarrow> (string list \<Rightarrow> string) \<Rightarrow> fs \<Rightarrow> string" where
  "default_path env os win_join s =
     (if os_getenv env ''WGCTRL_PEER_METADATA_DIR'' \<noteq> [] then os_getenv env ''WGCTRL_PEER_METADATA_DIR''
      else case os of
        Windows \<Rightarrow> win_join [os_getenv env ''ProgramFiles'', ''WireGuard'', ''Data'', ''Configurations'']
      | Darwin \<Rightarrow>
          if stat_ok env ''/opt/homebrew/etc/wireguard'' s then ''/opt/homebrew/etc/wireguard''
          else ''/usr/local/etc/wireguard''
      | OtherOS \<Rightarrow>
          if stat_ok env ''/etc/wireguard'' s then ''/etc/wireguard''
          else if stat_ok env ''/opt/wireguard'' s then ''/opt/wireguard''
          else ''/etc/wireguard'')"

definition metadata_file_name_for :: "string \<Rightarrow> string" where
  "metadata_file_name_for iface =
     (let name = trim_space iface
      in (if name = [] then ''unknown'' else name) @ ''.names.json'')"

definition default_file_for :: "os_env \<Rightarrow> string \<Rightarrow> fs \<Rightarrow> string" where
  "default_file_for env iface s = path_join [default_path env OtherOS path_join s, metadata_file_name_for iface]"

definition is_likely_dir :: "os_env \<Rightarrow> string \<Rightarrow> fs \<Rightarrow> bool" where
  "is_likely_dir env p s =
     (case os_stat env p s of
        Inr n \<Rightarrow> n = Dir
      | Inl _ \<Rightarrow> \<not> equal_fold_ascii (path_ext p) ''.json'')"

definition resolve_file :: "os_env \<Rightarrow> string \<Rightarrow> string \<Rightarrow> fs \<Rightarrow> string" where
  "resolve_file env base_path iface s =
     (let base = trim_space base_path
      in if base = [] then default_file_for env iface s
         else if is_likely_dir env base s then path_join [base, metadata_file_name_for iface]
         else base)"

section \<open>The document\<close>

record file_data =
  fd_version :: int
  fd_names :: "(string \<times> string) list"

text \<open>
  \<open>json.Unmarshal\<close> into a \<open>fileData\<close> that has values already: members that match no
  field are skipped, \<open>null\<close> leaves a number and empties a map, a value of another type is an
  error. The map is added to; an element that is \<open>null\<close> is the empty string.
\<close>

fun json_int_field :: "json \<Rightarrow> int \<Rightarrow> int res" where
  "json_int_field (JNum t) i = parse_int64 t"
| "json_int_field JNull i = Inr i"
| "json_int_field v i = Inl (ErrText ''json'')"

fun json_string_elem :: "string \<times> json \<Rightarrow> (string \<times> string) list \<Rightarrow> (string \<times> string) list res" where
  "json_string_elem (k, JStr v) m = Inr (AList.update k v m)"
| "json_string_elem (k, JNull) m = Inr (AList.update k [] m)"
| "json_string_elem (k, v) m = Inl (ErrText ''json'')"

fun json_names_field :: "json \<Rightarrow> (string \<times> string) list \<Rightarrow> (string \<times> string) list res" where
  "json_names_field (JObj ms) m = fold_res json_string_elem ms m"
| "json_names_field JNull m = Inr []"
| "json_names_field v m = Inl (ErrText ''json'')"

definition json_data_member :: "string \<times> json \<Rightarrow> file_data \<Rightarrow> file_data res" where
  "json_data_member kv d =
     (if equal_fold_ascii (fst kv) ''version'' then
        bind_res (json_int_field (snd kv) (fd_version d)) (\<lambda>i. Inr (d\<lparr>fd_version := i\<rparr>))
      else if equal_fold_ascii (fst kv) ''names'' then
        bind_res (json_names_field (snd kv) (fd_names d)) (\<lambda>m. Inr (d\<lparr>fd_names := m\<rparr>))
      else Inr d)"

fun json_data :: "json \<Rightarrow> file_data \<Rightarrow> file_data res" where
  "json_data (JObj ms) d = fold_res json_data_member ms d"
| "json_data JNull d = Inr d"
| "json_data v d = Inl (ErrText ''json'')"

definition unmarshal_data :: "string \<Rightarrow> file_data \<Rightarrow> file_data res" where
  "unmarshal_data b d = bind_res (json_parse b) (\<lambda>v. json_data v d)"

text \<open>\<open>json.MarshalIndent(data, "", "  ")\<close> writes the keys of a map in their order as bytes.\<close>

definition marshal_names :: "(string \<times> string) list \<Rightarrow> string" where
  "marshal_names m =
     (if m = [] then ''{}''
      else ''{'' @ [CHR 0x0A] @ comma_lines (map (string_member (blanks 4)) (sort_key fst m))
           @ CHR 0x0A # blanks 2 @ ''}'')"

definition marshal_data :: "file_data \<Rightarrow> string" where
  "marshal_data d =
     ''{'' @ [CHR 0x0A] @ blanks 2 @ json_quote ''version'' @ '': '' @ itoa (fd_version d) @ '','' @ [CHR 0x0A]
     @ blanks 2 @ json_quote ''names'' @ '': '' @ marshal_names (fd_names d) @ [CHR 0x0A] @ ''}''"

type_synonym peer_names = "(key \<times> string) list"

definition encode_names :: "peer_names \<Rightarrow> (string \<times> string) list" where
  "encode_names names = map (\<lambda>(k, n). (key_str k, n)) (filter (\<lambda>(k, n). n \<noteq> []) names)"

definition decode_name :: "string \<times> string \<Rightarrow> peer_names \<Rightarrow> peer_names res" where
  "decode_name e names =
     (case parse_key (fst e) of
        Inl err \<Rightarrow> Inl (ErrWrap ''parse peer key'' err)
      | Inr k \<Rightarrow> Inr (AList.update k (snd e) names))"

definition decode_names :: "(string \<times> string) list \<Rightarrow> peer_names res" where
  "decode_names encoded = fold_res decode_name encoded []"

section \<open>Reading and writing\<close>

definition meta_read :: "os_env \<Rightarrow> string \<Rightarrow> fs \<Rightarrow> file_data res" where
  "meta_read env path s =
     (let data = \<lparr>fd_version = 1, fd_names = []\<rparr>
      in case os_read_file env path s of
           Inl e \<Rightarrow> if errors_Is e ErrNotExist then Inr data else Inl (ErrWrap ''read metadata'' e)
         | Inr b \<Rightarrow>
             (case unmarshal_data b data of
                Inl e \<Rightarrow> Inl (ErrWrap ''parse metadata'' e)
              | Inr d \<Rightarrow>
                  if fd_version d \<noteq> 1 then Inl (ErrText ''unsupported metadata version'') else Inr d))"

text \<open>
  The steps on the temporary file; whatever they give, the deferred \<open>os.Remove\<close> runs, and
  its error is dropped.
\<close>

definition atomic_steps :: "os_env \<Rightarrow> string \<Rightarrow> string \<Rightarrow> string \<Rightarrow> fs \<Rightarrow> unit res \<times> fs" where
  "atomic_steps env path tmp b s =
     and_then (attempt env OpChmod tmp s (Inr (), s)) (\<lambda>s.
       and_then (os_write env tmp b s) (\<lambda>s.
         and_then (attempt env OpSync tmp s (Inr (), s)) (\<lambda>s.
           and_then (attempt env OpClose tmp s (Inr (), s)) (os_rename env tmp path))))"

definition atomic_write_file :: "os_env \<Rightarrow> string \<Rightarrow> string \<Rightarrow> fs \<Rightarrow> unit res \<times> fs" where
  "atomic_write_file env path b s =
     (case os_create_temp env (path_dir path) (''.'' @ path_base path @ ''-'') s of
        (Inl e, s1) \<Rightarrow> (Inl e, s1)
      | (Inr tmp, s1) \<Rightarrow>
          (case atomic_steps env path tmp b s1 of
             (r, s2) \<Rightarrow> (r, snd (os_remove env tmp s2))))"

definition meta_write :: "os_env \<Rightarrow> string \<Rightarrow> file_data \<Rightarrow> fs \<Rightarrow> unit res \<times> fs" where
  "meta_write env path data s =
     and_then (os_mkdir_all env (path_dir path) s) (atomic_write_file env path (marshal_data data))"

text \<open>\<open>lockFile\<close> of lock_unix.go; releasing the lock leaves the file, and its errors are dropped.\<close>

definition lock_file :: "os_env \<Rightarrow> string \<Rightarrow> fs \<Rightarrow> unit res \<times> fs" where
  "lock_file env path s =
     and_then (os_mkdir_all env (path_dir path) s) (\<lambda>s.
       and_then (os_create env False path s) (\<lambda>s. attempt env OpLock path s (Inr (), s)))"

definition store_names :: "os_env \<Rightarrow> string \<Rightarrow> string \<Rightarrow> fs \<Rightarrow> peer_names res" where
  "store_names env base_path iface s =
     bind_res (meta_read env (resolve_file env base_path iface s) s) (\<lambda>data. decode_names (fd_names data))"

definition store_update ::
  "os_env \<Rightarrow> string \<Rightarrow> string \<Rightarrow> (peer_names \<Rightarrow> peer_names) \<Rightarrow> fs \<Rightarrow> unit res \<times> fs" where
  "store_update env base_path iface update s =
     (let path = resolve_file env base_path iface s
      in and_then (lock_file env (path @ ''.lock'') s) (\<lambda>s1.
        case meta_read env path s1 of
          Inl e \<Rightarrow> (Inl e, s1)
        | Inr data \<Rightarrow>
            (case decode_names (fd_names data) of
               Inl e \<Rightarrow> (Inl e, s1)
             | Inr names \<Rightarrow> meta_write env path (data\<lparr>fd_names := encode_names (update names)\<rparr>) s1)))"

section \<open>Replacing a file\<close>

lemma temp_loop_Inl: "temp_loop env st k t s = (Inl e, s') \<Longrightarrow> s' = s"
  by (induction env st k t s rule: temp_loop.induct) (auto simp: Let_def split: option.splits if_splits)

lemma temp_loop_Inr:
  "temp_loop env st k t s = (Inr name, s') \<Longrightarrow>
   s name = None \<and> s' = s(name \<mapsto> File []) \<and> (\<exists>i. name = st @ nat_str 10 (os_random env i))"
  by (induction env st k t s rule: temp_loop.induct) (auto simp: Let_def split: option.splits if_splits)

text \<open>After the steps, only the temporary file and, when they succeed, the target have changed.\<close>

lemma atomic_steps_result:
  assumes "atomic_steps env path tmp b s = (r, s')" and "tmp \<noteq> path"
  shows "(r = Inr () \<and> s' = (s(tmp := None))(path \<mapsto> File b)) \<or> (\<exists>e. r = Inl e \<and> (\<forall>p. p \<noteq> tmp \<longrightarrow> s' p = s p))"
  using assms
  by (auto simp: atomic_steps_def attempt_def os_write_def os_rename_def fun_upd_twist split: option.splits if_splits)

lemma os_remove_result: "snd (os_remove env p s) = s \<or> snd (os_remove env p s) = s(p := None)"
  by (auto simp: os_remove_def attempt_def split: option.splits)

lemma os_remove_ok: "os_fault env OpRemove p = None \<Longrightarrow> snd (os_remove env p s) = s(p := None)"
  by (auto simp: os_remove_def attempt_def)

lemma atomic_write_file_cases:
  assumes d: "clean_dir d" and n: "file_name n"
    and w: "atomic_write_file env (d @ ''/'' @ n) b s = (r, s')"
  shows "(r = Inr () \<and> s' = s(d @ ''/'' @ n \<mapsto> File b))
    \<or> (\<exists>e. r = Inl e \<and> (s' = s \<or> (\<exists>tmp i. s tmp = None \<and> (\<forall>p. p \<noteq> tmp \<longrightarrow> s' p = s p)
         \<and> os_fault env OpRemove tmp \<noteq> None \<and> tmp = dir_slash d @ ''.'' @ n @ ''-'' @ nat_str 10 i)))"
proof -
  let ?path = "d @ ''/'' @ n" and ?st = "dir_slash d @ ''.'' @ n @ ''-''"
  obtain t s1 where t: "os_create_temp env d (''.'' @ n @ ''-'') s = (t, s1)" by fastforce
  note paths = path_dir_join [OF d n] path_base_join [OF n, of d]
  show ?thesis
  proof (cases t)
    case (Inl e)
    then show ?thesis
      using w t temp_loop_Inl unfolding atomic_write_file_def paths os_create_temp_def by auto
  next
    case (Inr tmp)
    then obtain i where tmp: "s tmp = None" "s1 = s(tmp \<mapsto> File [])" "tmp = ?st @ nat_str 10 i"
      using t temp_loop_Inr [of env ?st 0 10000 s tmp s1] unfolding os_create_temp_def by auto
    have ne: "tmp \<noteq> ?path"
    proof
      assume "tmp = ?path"
      then have "length tmp = length ?path" by simp
      then show False unfolding tmp(3) dir_slash_def by (auto split: if_splits)
    qed
    obtain r2 s2 where s2: "atomic_steps env ?path tmp b s1 = (r2, s2)" by fastforce
    have w': "r = r2" "s' = snd (os_remove env tmp s2)"
      using w t Inr s2 unfolding atomic_write_file_def paths by simp_all
    from atomic_steps_result [OF s2 ne] show ?thesis
    proof
      assume "r2 = Inr () \<and> s2 = (s1(tmp := None))(?path \<mapsto> File b)"
      moreover from this have "s2 tmp = None" "s2 = s(?path \<mapsto> File b)" using ne tmp(1,2) by auto
      moreover from this have "snd (os_remove env tmp s2) = s2"
        using os_remove_result [of env tmp s2] fun_upd_idem [of s2 tmp None] by metis
      ultimately have "r = Inr ()" "s' = s(?path \<mapsto> File b)" using w' by simp_all
      then show ?thesis by simp
    next
      assume "\<exists>e. r2 = Inl e \<and> (\<forall>p. p \<noteq> tmp \<longrightarrow> s2 p = s1 p)"
      then obtain e where e: "r2 = Inl e" "\<And>p. p \<noteq> tmp \<Longrightarrow> s2 p = s p" using tmp(2) by auto
      show ?thesis
      proof (cases "os_fault env OpRemove tmp")
        case None
        then have "s' = s2(tmp := None)" using w' os_remove_ok by blast
        also have "\<dots> = s" using e(2) tmp(1) by auto
        finally show ?thesis using w'(1) e(1) by auto
      next
        case (Some x)
        then have "\<forall>p. p \<noteq> tmp \<longrightarrow> s' p = s p" using w'(2) e(2) os_remove_result [of env tmp s2] by auto
        then show ?thesis using w'(1) e(1) tmp Some by auto
      qed
    qed
  qed
qed

section \<open>The document round-trips\<close>

lemma json_member_step:
  assumes "valid_string k" and "json_val n d w = Some (v, CHR '','' # y)"
  shows "json_members (Suc n) d (CHR 0x0A # blanks i @ json_quote k @ CHR '':'' # w) =
    map_option (\<lambda>(ms, z). ((k, v) # ms, z)) (json_members n d y)"
  using assms by (subst json_members.simps(2)) (simp add: json_quote_cons json_body_quote)

lemma json_member_last:
  assumes "valid_string k" and "json_val n d w = Some (v, CHR 0x0A # blanks j @ CHR ''}'' # y)"
  shows "json_members (Suc n) d (CHR 0x0A # blanks i @ json_quote k @ CHR '':'' # w) = Some ([(k, v)], y)"
  using assms by (subst json_members.simps(2)) (simp add: json_quote_cons json_body_quote)

definition names_json :: "(string \<times> string) list \<Rightarrow> json" where
  "names_json m = JObj (map (\<lambda>(k, v). (k, JStr v)) (sort_key fst m))"

lemma json_val_names:
  assumes "\<forall>(k, v) \<in> set m. valid_string k \<and> valid_string v" and "length m < n" and "0 < d"
  shows "json_val (Suc n) d (marshal_names m @ t) = Some (names_json m, t)"
proof (cases "m = []")
  case True
  then show ?thesis using assms(3) by (simp add: marshal_names_def names_json_def)
next
  case False
  let ?ms = "sort_key fst m"
  have "?ms \<noteq> []" using False by (metis length_0_conv length_sort)
  then have mem: "json_members n (d - 1) (CHR 0x0A # comma_lines (map (string_member (blanks 4)) ?ms) @ CHR 0x0A # blanks 2 @ CHR ''}'' # t) =
      Some (map (\<lambda>(k, v). (k, JStr v)) ?ms, t)"
    using assms by (intro json_members_strings) auto
  obtain w where w: "comma_lines (map (string_member (blanks 4)) ?ms) = blanks 4 @ CHR 0x22 # w"
    using \<open>?ms \<noteq> []\<close> by (cases ?ms rule: remdups_adj.cases) (simp_all add: string_member_def json_quote_def)
  show ?thesis
    using False assms(3) mem unfolding marshal_names_def names_json_def w by simp
qed

lemma comma_lines_length: "length ms \<le> length (comma_lines (map (string_member b) ms))"
proof (induction ms rule: induct_list012)
  case (2 x)
  then show ?case using length_json_quote [of "fst x"] by (simp add: string_member_def)
next
  case (3 x y zs)
  then show ?case by simp
qed simp

lemma marshal_names_length: "length m \<le> length (marshal_names m)"
  using comma_lines_length [of "sort_key fst m" "blanks 4"] by (simp add: marshal_names_def)

lemma json_parse_marshal:
  assumes v: "fd_version d = 1" and m: "\<forall>(k, v) \<in> set (fd_names d). valid_string k \<and> valid_string v"
  shows "json_parse (marshal_data d) = Inr (JObj [(''version'', JNum ''1''), (''names'', names_json (fd_names d))])"
proof -
  let ?m = "fd_names d"
  let ?names = "CHR 0x0A # blanks 2 @ json_quote ''names'' @ CHR '':'' # CHR 0x20 # marshal_names ?m @ CHR 0x0A # blanks 0 @ ''}''"
  have "itoa 1 = ''1''" by code_simp
  then have doc: "marshal_data d =
      CHR ''{'' # CHR 0x0A # blanks 2 @ json_quote ''version'' @ CHR '':'' # CHR 0x20 # CHR ''1'' # CHR '','' # ?names"
    by (simp add: marshal_data_def v blanks_def)
  define n where "n = 2 * length (marshal_data d) - 2"
  have n: "2 * length (marshal_data d) + 2 = Suc (Suc (Suc (Suc n)))" and fuel: "length ?m < n"
    using marshal_names_length [of ?m] by (simp_all add: n_def doc)
  have valid: "valid_string ''version''" "valid_string ''names''" by code_simp+
  have "json_number (CHR ''1'' # CHR '','' # w) = Some (''1'', CHR '','' # w)" for w
    by (simp add: json_number_def json_int_def json_frac_def json_exp_def digit_def between_def)
  then have one: "json_val (Suc k) e (CHR 0x20 # CHR ''1'' # CHR '','' # w) = Some (JNum ''1'', CHR '','' # w)" for k e w
    by (simp add: json_space_def)
  have val: "json_val (Suc n) 9999 (CHR 0x20 # marshal_names ?m @ CHR 0x0A # blanks 0 @ ''}'') =
      Some (names_json ?m, CHR 0x0A # blanks 0 @ CHR ''}'' # [])"
    using json_val_names [OF m fuel, of 9999] by simp
  have "json_members (Suc (Suc n)) 9999 ?names = Some ([(''names'', names_json ?m)], [])"
    using json_member_last [OF valid(2) val] by simp
  then have members: "json_members (Suc (Suc (Suc n))) 9999 (tl (marshal_data d)) =
      Some ([(''version'', JNum ''1''), (''names'', names_json ?m)], [])"
    unfolding doc list.sel json_member_step [OF valid(1) one] by simp
  have "json_val (Suc (Suc (Suc (Suc n)))) 10000 (marshal_data d) =
      Some (JObj [(''version'', JNum ''1''), (''names'', names_json ?m)], [])"
    using members unfolding doc list.sel
    by (subst json_val.simps(2)) (simp add: json_quote_cons del: json_val.simps json_members.simps)
  then show ?thesis unfolding json_parse_def n by simp
qed

text \<open>The document of names that can be stored, read back.\<close>

definition storable :: "peer_names \<Rightarrow> bool" where
  "storable m \<longleftrightarrow> distinct (map fst m) \<and> list_all (\<lambda>(k, n). wf_key k \<and> valid_string n) m"

definition kept :: "peer_names \<Rightarrow> key \<Rightarrow> string option" where
  "kept m k = (case map_of m k of None \<Rightarrow> None | Some n \<Rightarrow> if n = [] then None else Some n)"

lemma key_str_ascii: "ascii (key_str k)"
  using key_str_graph [of _ k] by (fastforce simp: ascii_def graph_def between_def)

lemma ascii_valid: "ascii s \<Longrightarrow> valid_string s"
  by (simp add: valid_string_def runes_ascii list_all_iff ascii_def)

lemma encode_names_props:
  assumes "storable m"
  shows "distinct (map fst (encode_names m))"
    and "\<forall>(k, v) \<in> set (encode_names m). valid_string k \<and> valid_string v"
    and "(v, n) \<in> set (encode_names m) \<Longrightarrow> \<exists>k. wf_key k \<and> v = key_str k"
proof -
  have wf: "\<And>k n. (k, n) \<in> set m \<Longrightarrow> wf_key k \<and> valid_string n" and d: "distinct (map fst m)"
    using assms by (auto simp: storable_def list_all_iff)
  have "distinct (map fst (filter (\<lambda>(k, n). n \<noteq> []) m))" using d by (rule distinct_map_filter)
  moreover have "inj_on key_str (set (map fst (filter (\<lambda>(k, n). n \<noteq> []) m)))"
    using wf key_str_inj by (intro inj_onI) auto
  ultimately have "distinct (map key_str (map fst (filter (\<lambda>(k, n). n \<noteq> []) m)))"
    by (simp only: distinct_map [of key_str])
  moreover have "map key_str (map fst (filter (\<lambda>(k, n). n \<noteq> []) m)) = map fst (encode_names m)"
    by (auto simp: encode_names_def)
  ultimately show "distinct (map fst (encode_names m))" by (simp only:)
  show "\<forall>(k, v) \<in> set (encode_names m). valid_string k \<and> valid_string v"
    using wf ascii_valid [OF key_str_ascii] by (auto simp: encode_names_def)
  show "(v, n) \<in> set (encode_names m) \<Longrightarrow> \<exists>k. wf_key k \<and> v = key_str k"
    using wf by (auto simp: encode_names_def)
qed

lemma map_of_encode_names:
  assumes "storable m" and "wf_key k"
  shows "map_of (encode_names m) (key_str k) = kept m k"
proof -
  have wf: "list_all (\<lambda>(k, n). wf_key k) m" and d: "distinct (map fst m)"
    using assms(1) by (auto simp: storable_def list_all_iff)
  then show ?thesis
  proof (induction m)
    case (Cons e m)
    obtain a n where e: "e = (a, n)" by (cases e)
    have IH: "map_of (encode_names m) (key_str k) = kept m k" using Cons by simp
    have "key_str a = key_str k \<longleftrightarrow> a = k" using Cons.prems(1) e key_str_inj [of a k] assms(2) by auto
    moreover have "map_of m a = None" using Cons.prems(2) e by (simp add: map_of_eq_None_iff)
    ultimately show ?case using IH by (auto simp: e encode_names_def kept_def)
  qed (simp add: encode_names_def kept_def)
qed

definition decoded_key :: "string \<Rightarrow> key" where
  "decoded_key v = (case parse_key v of Inl _ \<Rightarrow> [] | Inr k \<Rightarrow> k)"

lemma decoded_key_str [simp]: "wf_key k \<Longrightarrow> decoded_key (key_str k) = k"
  by (simp add: decoded_key_def)

lemma update_fresh: "k \<notin> fst ` set m \<Longrightarrow> AList.update k v m = m @ [(k, v)]"
  by (induction m) auto

lemma decode_names_keys:
  assumes "distinct (map fst xs)" and "\<forall>(v, n) \<in> set xs. \<exists>k. wf_key k \<and> v = key_str k"
  shows "decode_names xs = Inr (map (\<lambda>(v, n). (decoded_key v, n)) xs)"
proof -
  let ?f = "map (\<lambda>(v, n). (decoded_key v, n))"
  have "fold_res decode_name xs (?f ys) = Inr (?f (ys @ xs))"
    if "distinct (map fst (ys @ xs))" "\<forall>(v, n) \<in> set (ys @ xs). \<exists>k. wf_key k \<and> v = key_str k" for ys
    using that
  proof (induction xs arbitrary: ys)
    case (Cons x xs)
    obtain v n where x: "x = (v, n)" by (cases x)
    obtain k where k: "wf_key k" "v = key_str k" using Cons.prems(2) x by auto
    have "k \<notin> fst ` set (?f ys)"
    proof
      assume "k \<in> fst ` set (?f ys)"
      then obtain w u where w: "(w, u) \<in> set ys" "decoded_key w = k" by auto
      then have "case (w, u) of (v, n) \<Rightarrow> \<exists>k. wf_key k \<and> v = key_str k"
        using Cons.prems(2) by (intro bspec [OF Cons.prems(2)]) simp
      then obtain j where "wf_key j" "w = key_str j" by auto
      then have "w = v" using w k by simp
      then show False using Cons.prems(1) w x by force
    qed
    then have "decode_name x (?f ys) = Inr (?f (ys @ [x]))"
      by (simp add: decode_name_def x k update_fresh)
    then show ?case using Cons.IH [of "ys @ [x]"] Cons.prems by simp
  qed simp
  from this [of "[]"] show ?thesis using assms by (simp add: decode_names_def)
qed

lemma map_of_decoded:
  assumes "\<forall>(v, n) \<in> set xs. \<exists>k. wf_key k \<and> v = key_str k"
  shows "map_of (map (\<lambda>(v, n). (decoded_key v, n)) xs) k = (if wf_key k then map_of xs (key_str k) else None)"
  using assms
proof (induction xs)
  case (Cons x xs)
  obtain v n where x: "x = (v, n)" by (cases x)
  obtain j where j: "wf_key j" "v = key_str j" using Cons.prems x by auto
  have "wf_key k \<Longrightarrow> key_str j = key_str k \<longleftrightarrow> j = k" using key_str_inj [of j k] j(1) by auto
  then show ?case using Cons j by (auto simp: x)
qed simp

lemma kept_wf: "storable m \<Longrightarrow> \<not> wf_key k \<Longrightarrow> kept m k = None"
  by (auto simp: kept_def storable_def list_all_iff dest!: map_of_SomeD split: option.splits)

lemma decode_stored:
  assumes "storable m"
  shows "\<exists>m'. decode_names (sort_key fst (encode_names m)) = Inr m' \<and> map_of m' = kept m"
proof -
  let ?xs = "sort_key fst (encode_names m)"
  note props = encode_names_props [OF assms]
  have d: "distinct (map fst ?xs)"
    using props(1) by (simp add: distinct_map)
  have k: "\<forall>(v, n) \<in> set ?xs. \<exists>k. wf_key k \<and> v = key_str k" using props(3) by auto
  have same: "map_of ?xs = map_of (encode_names m)"
    using d props(1) by (subst map_of_inject_set) simp_all
  have "map_of (map (\<lambda>(v, n). (decoded_key v, n)) ?xs) = kept m"
    using kept_wf [OF assms] map_of_encode_names [OF assms]
    by (intro ext) (simp add: map_of_decoded [OF k] same)
  then show ?thesis using decode_names_keys [OF d k] by blast
qed

lemma json_data_names:
  assumes "distinct (map fst m)"
  shows "json_data (JObj [(''version'', JNum ''1''), (''names'', names_json m)]) \<lparr>fd_version = 1, fd_names = []\<rparr>
    = Inr \<lparr>fd_version = 1, fd_names = sort_key fst m\<rparr>"
proof -
  have "fold_res json_string_elem (map (\<lambda>(k, v). (k, JStr v)) xs) ys = Inr (ys @ xs)"
    if "distinct (map fst (ys @ xs))" for xs ys :: "(string \<times> string) list"
    using that
  proof (induction xs arbitrary: ys)
    case (Cons x xs)
    then have "fst x \<notin> fst ` set ys" by (auto simp: image_iff)
    then show ?case using Cons.IH [of "ys @ [x]"] Cons.prems by (cases x) (simp add: update_fresh)
  qed simp
  from this [of "[]" "sort_key fst m"]
  have names: "json_names_field (names_json m) [] = Inr (sort_key fst m)"
    using assms by (simp add: names_json_def distinct_map)
  have fields: "equal_fold_ascii ''version'' ''version''" "equal_fold_ascii ''names'' ''names''"
    "\<not> equal_fold_ascii ''names'' ''version''" "parse_int64 ''1'' = Inr 1" by code_simp+
  then show ?thesis by (simp add: json_data_member_def names)
qed

lemma meta_read_marshal:
  assumes m: "storable m" and f: "os_fault env OpRead p = None"
    and s: "s p = Some (File (marshal_data \<lparr>fd_version = 1, fd_names = encode_names m\<rparr>))"
  shows "\<exists>m'. bind_res (meta_read env p s) (\<lambda>d. decode_names (fd_names d)) = Inr m' \<and> map_of m' = kept m"
proof -
  let ?d = "\<lparr>fd_version = 1, fd_names = encode_names m\<rparr>"
  have "json_parse (marshal_data ?d) = Inr (JObj [(''version'', JNum ''1''), (''names'', names_json (encode_names m))])"
    using json_parse_marshal [of ?d] encode_names_props(2) [OF m] by simp
  then have "meta_read env p s = Inr \<lparr>fd_version = 1, fd_names = sort_key fst (encode_names m)\<rparr>"
    using s f json_data_names [OF encode_names_props(1) [OF m]]
    by (simp add: meta_read_def os_read_file_def unmarshal_data_def del: json_data.simps)
  then show ?thesis using decode_stored [OF m] by simp
qed

section \<open>The names of an interface\<close>

text \<open>
  A base path that is a clean directory whose state can be read; a file that is there is not
  reported missing. And the name of an interface.
\<close>

definition store_dir :: "os_env \<Rightarrow> string \<Rightarrow> bool" where
  "store_dir env d \<longleftrightarrow> clean_dir d \<and> trim_space d = d \<and> os_fault env OpStat d = None
     \<and> (\<forall>p e. os_fault env OpRead p = Some e \<longrightarrow> \<not> errors_Is e ErrNotExist)"

definition iface_name :: "string \<Rightarrow> bool" where
  "iface_name i \<longleftrightarrow> CHR ''/'' \<notin> set i \<and> i \<noteq> [] \<and> trim_space i = i"

definition names_path :: "string \<Rightarrow> string \<Rightarrow> string" where
  "names_path d i = d @ ''/'' @ i @ ''.names.json''"

lemma names_file: "CHR ''/'' \<notin> set i \<Longrightarrow> file_name (i @ ''.names.json'')" "CHR ''/'' \<notin> set i \<Longrightarrow> file_name (i @ ''.names.json.lock'')"
  by (auto simp: file_name_def append_eq_Cons_conv)

lemma resolve_names_path:
  assumes d: "store_dir env d" and s: "s d = Some Dir" and i: "iface_name i"
  shows "resolve_file env d i s = names_path d i"
proof -
  have "d \<noteq> []" using d clean_dir_ne by (auto simp: store_dir_def)
  moreover have "is_likely_dir env d s"
    using d s by (simp add: is_likely_dir_def os_stat_def store_dir_def)
  moreover have "metadata_file_name_for i = i @ ''.names.json''"
    using i by (simp add: metadata_file_name_for_def Let_def iface_name_def)
  ultimately show ?thesis
    using d i path_join_two [of d "i @ ''.names.json''"] names_file(1)
    by (simp add: resolve_file_def Let_def store_dir_def names_path_def iface_name_def)
qed

lemma lock_file_cases:
  assumes "clean_dir d" and "s d = Some Dir" and "CHR ''/'' \<notin> set i"
    and "lock_file env (names_path d i @ ''.lock'') s = (r, s')"
  shows "\<forall>p. p \<noteq> names_path d i @ ''.lock'' \<longrightarrow> s' p = s p"
proof -
  have "path_dir (names_path d i @ ''.lock'') = d"
    using path_dir_join [OF assms(1) names_file(2) [OF assms(3)]] by (simp add: names_path_def)
  then show ?thesis
    using assms(2,4)
    by (auto simp: lock_file_def os_mkdir_all_def os_create_def attempt_def split: option.splits node.splits if_splits)
qed

text \<open>What an update may change, and what the file holds after it.\<close>

lemma names_path_suffix: "suffix ''.names.json'' (names_path d i)"
  by (simp add: names_path_def suffix_def)

lemma names_path_inj: "names_path d i = names_path d j \<longleftrightarrow> i = j"
  by (simp add: names_path_def)

lemma suffix_last: "suffix (s @ [c]) p \<Longrightarrow> last p = c"
  by (auto simp: suffix_def)

lemma not_names_file:
  "\<not> suffix ''.names.json'' (p @ ''.lock'')" "\<not> suffix ''.names.json'' (p @ nat_str 10 k)"
proof -
  show "\<not> suffix ''.names.json'' (p @ ''.lock'')"
    using suffix_last [of "''.names.jso''" "CHR ''n''" "p @ ''.lock''"] by auto
  have "last (nat_str 10 k) \<in> set ''0123456789''"
    using nat_str_dec_set nat_str_not_Nil last_in_set by blast
  then have "last (p @ nat_str 10 k) \<noteq> CHR ''n''" using nat_str_not_Nil [of 10 k] by auto
  then show "\<not> suffix ''.names.json'' (p @ nat_str 10 k)"
    using suffix_last [of "''.names.jso''" "CHR ''n''" "p @ nat_str 10 k"] by auto
qed

definition same_names :: "string \<Rightarrow> fs \<Rightarrow> fs \<Rightarrow> bool" where
  "same_names d s s' \<longleftrightarrow> (\<forall>p. p = d \<or> suffix ''.names.json'' p \<longrightarrow> s' p = s p)"

lemma same_namesD:
  assumes "same_names d s s'"
  shows "s' (names_path d i) = s (names_path d i)" and "s' d = s d"
  using assms names_path_suffix [of d i] unfolding same_names_def by blast+

lemma meta_read_version: "meta_read env p s = Inr data \<Longrightarrow> fd_version data = 1"
  by (auto simp: meta_read_def Let_def split: sum.splits if_splits)

lemma meta_read_cong:
  assumes "s' p = s p"
  shows "meta_read env p s' = meta_read env p s"
proof -
  have "os_read_file env p s' = os_read_file env p s" by (simp only: os_read_file_def assms)
  then show ?thesis by (simp only: meta_read_def)
qed

lemma store_update_cases:
  assumes d: "store_dir env d" and s: "s d = Some Dir" and i: "iface_name i"
    and u: "store_update env d i f s = (r, s')"
  shows "(r \<noteq> Inr () \<and> same_names d s s')
    \<or> (r = Inr () \<and> (\<exists>m. store_names env d i s = Inr m \<and>
         same_names d (s(names_path d i \<mapsto> File (marshal_data \<lparr>fd_version = 1, fd_names = encode_names (f m)\<rparr>))) s'))"
proof -
  let ?p = "names_path d i"
  have cd: "clean_dir d" and slash: "CHR ''/'' \<notin> set i" using d i by (simp_all add: store_dir_def iface_name_def)
  have dne: "d \<noteq> ?p @ ''.lock''" by (simp add: names_path_def)
  obtain l s1 where l: "lock_file env (?p @ ''.lock'') s = (l, s1)" by fastforce
  have s1: "\<And>p. p \<noteq> ?p @ ''.lock'' \<Longrightarrow> s1 p = s p"
    using lock_file_cases [OF cd s slash l] by blast
  have same1: "same_names d s s1" 
    unfolding same_names_def by (intro allI impI s1) (use dne not_names_file(1) in metis)
  have read: "meta_read env ?p s1 = meta_read env ?p s"
    by (rule meta_read_cong) (simp add: s1)
  have names: "store_names env d i s = bind_res (meta_read env ?p s) (\<lambda>data. decode_names (fd_names data))"
    by (simp add: store_names_def resolve_names_path [where s = s, OF d s i])
  note u' = u [unfolded store_update_def resolve_names_path [where s = s, OF d s i] Let_def l read]
  show ?thesis
  proof (cases "\<exists>data m. l = Inr () \<and> meta_read env ?p s = Inr data \<and> decode_names (fd_names data) = Inr m")
    case False
    then have "r \<noteq> Inr () \<and> s' = s1" using u' by (cases l) (auto simp: read split: sum.splits)
    then show ?thesis using same1 by simp
  next
    case True
    then obtain data m where m: "l = Inr ()" "meta_read env ?p s = Inr data" "decode_names (fd_names data) = Inr m" by blast
    let ?data = "\<lparr>fd_version = 1, fd_names = encode_names (f m)\<rparr>"
    have data: "data\<lparr>fd_names := encode_names (f m)\<rparr> = ?data"
      using meta_read_version [OF m(2)] by (cases data) simp
    have "s1 d = Some Dir" using s1 [OF dne] s by simp
    then have w: "atomic_write_file env (d @ ''/'' @ (i @ ''.names.json'')) (marshal_data ?data) s1 = (r, s')"
      using u' m read path_dir_join [OF cd names_file(1) [OF slash]]
      by (simp add: data meta_write_def os_mkdir_all_def names_path_def)
    from atomic_write_file_cases [OF cd names_file(1) [OF slash] w] show ?thesis
    proof (elim disjE exE conjE)
      assume "r = Inr ()" "s' = s1(d @ ''/'' @ (i @ ''.names.json'') \<mapsto> File (marshal_data ?data))"
      then show ?thesis using same1 m names
        by (intro disjI2 conjI exI [of _ m]) (simp_all add: same_names_def names_path_def)
    next
      fix e tmp k
      assume e: "r = Inl e" and tmp: "\<forall>p. p \<noteq> tmp \<longrightarrow> s' p = s1 p"
        "tmp = dir_slash d @ ''.'' @ (i @ ''.names.json'') @ ''-'' @ nat_str 10 k"
      have "\<not> suffix ''.names.json'' tmp"
        using not_names_file(2) [of "dir_slash d @ ''.'' @ i @ ''.names.json-''" k] by (simp add: tmp(2))
      moreover have "length d < length tmp" by (simp add: tmp(2) dir_slash_def)
      ultimately have "same_names d s1 s'" using tmp(1) by (auto simp: same_names_def)
      then show ?thesis using e same1 by (auto simp: same_names_def)
    qed (use same1 in auto)
  qed
qed

section \<open>The store as its clients see it\<close>

text \<open>
  The contract of the store: an update is seen by the next reading of the same interface, with
  the empty names left out; it changes no other interface; and if it fails it changes nothing.
\<close>

locale peer_name_store =
  fixes names :: "string \<Rightarrow> 's \<Rightarrow> peer_names res"
    and update :: "string \<Rightarrow> (peer_names \<Rightarrow> peer_names) \<Rightarrow> 's \<Rightarrow> unit res \<times> 's"
    and ready :: "'s \<Rightarrow> bool"
    and ok_name :: "string \<Rightarrow> bool"
  assumes ready_update: "ready s \<Longrightarrow> ok_name i \<Longrightarrow> update i f s = (r, s') \<Longrightarrow> ready s'"
    and names_update: "ready s \<Longrightarrow> ok_name i \<Longrightarrow> names i s = Inr m \<Longrightarrow> storable (f m)
      \<Longrightarrow> update i f s = (Inr (), s') \<Longrightarrow> \<exists>m'. names i s' = Inr m' \<and> map_of m' = kept (f m)"
    and readable_before: "ready s \<Longrightarrow> ok_name i \<Longrightarrow> update i f s = (Inr (), s') \<Longrightarrow> \<exists>m. names i s = Inr m"
    and names_other: "ready s \<Longrightarrow> ok_name i \<Longrightarrow> ok_name j \<Longrightarrow> i \<noteq> j \<Longrightarrow> update i f s = (r, s') \<Longrightarrow> names j s' = names j s"
    and names_failed: "ready s \<Longrightarrow> ok_name i \<Longrightarrow> ok_name j \<Longrightarrow> update i f s = (Inl e, s') \<Longrightarrow> names j s' = names j s"
begin

text \<open>An update that succeeds is a function of the names before it.\<close>

lemma update_effect:
  assumes "ready s" "ok_name i" "update i f s = (Inr (), s')"
    and "\<And>m. names i s = Inr m \<Longrightarrow> storable (f m)"
  obtains m m' where "names i s = Inr m" "names i s' = Inr m'" "map_of m' = kept (f m)" "ready s'"
    "\<And>j. ok_name j \<Longrightarrow> j \<noteq> i \<Longrightarrow> names j s' = names j s"
proof -
  obtain m where m: "names i s = Inr m" using readable_before [OF assms(1-3)] by blast
  obtain m' where "names i s' = Inr m'" "map_of m' = kept (f m)"
    using names_update [OF assms(1,2) m assms(4) [OF m] assms(3)] by blast
  then show thesis using that m ready_update [OF assms(1-3)] names_other [OF assms(1,2) _ _ assms(3)] by metis
qed

end

definition dir_ready :: "os_env \<Rightarrow> string \<Rightarrow> fs \<Rightarrow> bool" where
  "dir_ready env d s \<longleftrightarrow> store_dir env d \<and> s d = Some Dir"

lemma store_names_same:
  assumes "store_dir env d" "s d = Some Dir" "s' d = Some Dir" "iface_name j"
    and eq: "s' (names_path d j) = s (names_path d j)"
  shows "store_names env d j s' = store_names env d j s"
  using assms(1-4) by (simp add: store_names_def resolve_names_path meta_read_cong [where s = s and s' = s', OF eq])

lemma store_names_read:
  assumes "store_dir env d" "s d = Some Dir" "iface_name i" "store_names env d i s = Inr m"
  shows "os_fault env OpRead (names_path d i) = None"
proof (rule ccontr)
  assume "os_fault env OpRead (names_path d i) \<noteq> None"
  then obtain e where "os_fault env OpRead (names_path d i) = Some e" "\<not> errors_Is e ErrNotExist"
    using assms(1) by (auto simp: store_dir_def)
  then show False using assms by (simp add: store_names_def resolve_names_path meta_read_def os_read_file_def)
qed

lemma store_update_Inr:
  assumes "dir_ready env d s" "iface_name i" "store_update env d i f s = (Inr (), s')"
  obtains m where "store_names env d i s = Inr m"
    "same_names d (s(names_path d i \<mapsto> File (marshal_data \<lparr>fd_version = 1, fd_names = encode_names (f m)\<rparr>))) s'"
  using store_update_cases [of env d s i f "Inr ()" s'] assms by (auto simp: dir_ready_def)

lemma store_update_ready:
  assumes s: "dir_ready env d s" and i: "iface_name i" and u: "store_update env d i f s = (r, s')"
  shows "dir_ready env d s'" and "j \<noteq> i \<or> r \<noteq> Inr () \<Longrightarrow> s' (names_path d j) = s (names_path d j)"
proof -
  have d: "store_dir env d" "s d = Some Dir" using s by (simp_all add: dir_ready_def)
  have ne: "d \<noteq> names_path d i" by (simp add: names_path_def)
  consider "r \<noteq> Inr ()" "same_names d s s'"
    | b where "r = Inr ()" "same_names d (s(names_path d i \<mapsto> File b)) s'"
    using store_update_cases [where s = s, OF d i u] by blast
  then have "s' d = Some Dir \<and> (j \<noteq> i \<or> r \<noteq> Inr () \<longrightarrow> s' (names_path d j) = s (names_path d j))"
  proof cases
    case 1
    then show ?thesis using same_namesD [OF 1(2)] d(2) by simp
  next
    case 2
    then show ?thesis using same_namesD [OF 2(2)] d(2) ne names_path_inj [of d j i] by simp
  qed
  then show "dir_ready env d s'" "j \<noteq> i \<or> r \<noteq> Inr () \<Longrightarrow> s' (names_path d j) = s (names_path d j)"
    using d(1) by (simp_all add: dir_ready_def)
qed

lemma store_update_other:
  assumes "dir_ready env d s" "iface_name i" "store_update env d i f s = (r, s')" "iface_name j" "i \<noteq> j \<or> r \<noteq> Inr ()"
  shows "store_names env d j s' = store_names env d j s"
proof (rule store_names_same [where s = s])
  show "store_dir env d" "s d = Some Dir" "s' d = Some Dir"
    using assms(1) store_update_ready(1) [OF assms(1-3)] by (simp_all add: dir_ready_def)
  show "s' (names_path d j) = s (names_path d j)"
    by (rule store_update_ready(2) [OF assms(1-3)]) (use assms(5) in auto)
qed (rule assms(4))

lemma store_names_update:
  assumes s: "dir_ready env d s" and i: "iface_name i" and m: "store_names env d i s = Inr m" "storable (f m)"
    and u: "store_update env d i f s = (Inr (), s')"
  shows "\<exists>m'. store_names env d i s' = Inr m' \<and> map_of m' = kept (f m)"
proof -
  let ?data = "\<lparr>fd_version = 1, fd_names = encode_names (f m)\<rparr>"
  have d: "store_dir env d" "s d = Some Dir" "s' d = Some Dir"
    using s store_update_ready(1) [OF s i u] by (simp_all add: dir_ready_def)
  obtain m0 where m0: "store_names env d i s = Inr m0"
      "same_names d (s(names_path d i \<mapsto> File (marshal_data \<lparr>fd_version = 1, fd_names = encode_names (f m0)\<rparr>))) s'"
    by (rule store_update_Inr [OF s i u])
  have "m0 = m" using m(1) m0(1) by simp
  then have "s' (names_path d i) = Some (File (marshal_data ?data))"
    using same_namesD(1) [OF m0(2), of i] by simp
  moreover have "os_fault env OpRead (names_path d i) = None" by (rule store_names_read [where s = s, OF d(1,2) i m(1)])
  ultimately have "\<exists>m'. bind_res (meta_read env (names_path d i) s') (\<lambda>d. decode_names (fd_names d)) = Inr m' \<and> map_of m' = kept (f m)"
    using m(2) by (intro meta_read_marshal)
  then show ?thesis unfolding store_names_def resolve_names_path [where s = s', OF d(1,3) i] .
qed

interpretation dir_store: peer_name_store "store_names env d" "store_update env d" "dir_ready env d" iface_name
  for env d
proof
  show "dir_ready env d s'" if "dir_ready env d s" "iface_name i" "store_update env d i f s = (r, s')" for s i f r s'
    using that by (rule store_update_ready(1))
  show "\<exists>m'. store_names env d i s' = Inr m' \<and> map_of m' = kept (f m)"
    if "dir_ready env d s" "iface_name i" "store_names env d i s = Inr m" "storable (f m)"
      "store_update env d i f s = (Inr (), s')" for s i m f s'
    using that by (rule store_names_update)
  show "\<exists>m. store_names env d i s = Inr m"
    if "dir_ready env d s" "iface_name i" "store_update env d i f s = (Inr (), s')" for s i f s'
    using store_update_Inr [OF that] by blast
  show "store_names env d j s' = store_names env d j s"
    if "dir_ready env d s" "iface_name i" "iface_name j" "i \<noteq> j" "store_update env d i f s = (r, s')" for s i j f r s'
    using store_update_other [OF that(1,2,5,3)] that(4) by blast
  show "store_names env d j s' = store_names env d j s"
    if "dir_ready env d s" "iface_name i" "iface_name j" "store_update env d i f s = (Inl e, s')" for s i j f e s'
    using store_update_other [OF that(1,2,4,3)] by blast
qed

section \<open>Properties\<close>

text \<open>
  C15. All or nothing: \<open>atomicWriteFile\<close> either replaces the file by the new content and leaves
  no other trace, or reports an error and every file is as it was; only when removing the temporary
  file fails as well does one new file of a reserved name stay behind.
\<close>

theorem atomic_write_all_or_nothing:
  assumes "clean_dir d" and "file_name n" and "atomic_write_file env (d @ ''/'' @ n) b s = (r, s')"
  shows "(r = Inr () \<and> s' = s(d @ ''/'' @ n \<mapsto> File b))
    \<or> (\<exists>e. r = Inl e \<and> (s' = s \<or> (\<exists>tmp i. s tmp = None \<and> (\<forall>p. p \<noteq> tmp \<longrightarrow> s' p = s p)
         \<and> os_fault env OpRemove tmp \<noteq> None \<and> tmp = dir_slash d @ ''.'' @ n @ ''-'' @ nat_str 10 i)))"
  using assms by (rule atomic_write_file_cases)

definition full_disk :: os_env where
  "full_disk = \<lparr>os_fault = (\<lambda>op p. if op = OpWrite then Some (ErrText ''no space left on device'') else None),
     os_short = 3, os_random = (\<lambda>k. 1234567 + k), os_getenv = (\<lambda>_. [])\<rparr>"

definition some_files :: fs where
  "some_files = [''/etc/wireguard'' \<mapsto> Dir, ''/etc/wireguard/a'' \<mapsto> File ''old'']"

theorem atomic_write_all_or_nothing_witness:
  "\<exists>e. atomic_write_file full_disk (''/etc/wireguard'' @ ''/'' @ ''a'') ''new text'' some_files = (Inl e, some_files)"
proof -
  obtain r s' where w: "atomic_write_file full_disk (''/etc/wireguard'' @ ''/'' @ ''a'') ''new text'' some_files = (r, s')"
    by fastforce
  have "clean_dir ''/etc/wireguard''" "file_name ''a''" by code_simp+
  note result = atomic_write_all_or_nothing [OF this w]
  have "\<not> is_ok (fst (atomic_write_file full_disk (''/etc/wireguard'' @ ''/'' @ ''a'') ''new text'' some_files))" by code_simp
  moreover have "os_fault full_disk OpRemove p = None" for p by (simp add: full_disk_def)
  ultimately show ?thesis using result w by auto
qed

text \<open>
  C7. The names of an interface are what the last update made of them: an update that succeeds
  is given the names that a reading before it returns, and a reading after it returns the updated
  names without the empty ones, whatever their order in the file; the names of every other
  interface in the directory are as before.
\<close>

theorem store_update_then_names:
  assumes "dir_ready env d s" and "iface_name i" and "store_update env d i f s = (Inr (), s')"
    and "\<And>m. store_names env d i s = Inr m \<Longrightarrow> storable (f m)"
  shows "\<exists>m m'. store_names env d i s = Inr m \<and> store_names env d i s' = Inr m' \<and> map_of m' = kept (f m)
    \<and> (\<forall>j. iface_name j \<and> j \<noteq> i \<longrightarrow> store_names env d j s' = store_names env d j s)"
  by (rule dir_store.update_effect [where d = d and env = env, OF assms]) blast+

definition no_faults :: os_env where
  "no_faults = full_disk\<lparr>os_fault := \<lambda>op p. None\<rparr>"

theorem store_update_then_names_witness:
  "\<exists>m' s'. store_update no_faults ''/etc/wireguard'' ''wg0'' (AList.update (replicate 32 1) ''office'') some_files = (Inr (), s')
     \<and> store_names no_faults ''/etc/wireguard'' ''wg0'' s' = Inr m' \<and> map_of m' (replicate 32 1) = Some ''office''"
proof -
  let ?f = "AList.update (replicate 32 1) ''office'' :: peer_names \<Rightarrow> peer_names"
  obtain r s' where u: "store_update no_faults ''/etc/wireguard'' ''wg0'' ?f some_files = (r, s')" by fastforce
  have "is_ok (fst (store_update no_faults ''/etc/wireguard'' ''wg0'' ?f some_files))" by code_simp
  then have r: "r = Inr ()" using u by (cases r) auto
  have ready: "dir_ready no_faults ''/etc/wireguard'' some_files"
  proof -
    have "clean_dir ''/etc/wireguard''" "trim_space ''/etc/wireguard'' = ''/etc/wireguard''" by code_simp+
    then show ?thesis by (simp add: dir_ready_def store_dir_def no_faults_def some_files_def)
  qed
  have i: "iface_name ''wg0''" by code_simp
  have "store_names no_faults ''/etc/wireguard'' ''wg0'' some_files = Inr []" by code_simp
  moreover have "storable (?f [])" by code_simp
  ultimately obtain m m' where m: "store_names no_faults ''/etc/wireguard'' ''wg0'' some_files = Inr m"
      "store_names no_faults ''/etc/wireguard'' ''wg0'' s' = Inr m'" "map_of m' = kept (?f m)"
    using store_update_then_names [where f = ?f, OF ready i u [unfolded r]] by auto
  have "kept (?f []) (replicate 32 1) = Some ''office''" by code_simp
  then show ?thesis using u r m \<open>store_names no_faults _ _ some_files = Inr []\<close> by auto
qed

text \<open>
  C36. A failed update is no update: when \<open>Update\<close> returns an error, at the lock, while reading a
  damaged file or in the middle of writing, the names of all interfaces read as before.
\<close>

theorem store_update_failed:
  assumes "dir_ready env d s" and "iface_name i" and "store_update env d i f s = (Inl e, s')" and "iface_name j"
  shows "store_names env d j s' = store_names env d j s"
  using assms by (intro dir_store.names_failed)

theorem store_update_failed_witness:
  "store_names full_disk ''/etc/wireguard'' ''wg1''
       (snd (store_update full_disk ''/etc/wireguard'' ''wg0'' (\<lambda>_. []) some_files))
     = store_names full_disk ''/etc/wireguard'' ''wg1'' some_files"
proof -
  obtain r s' where u: "store_update full_disk ''/etc/wireguard'' ''wg0'' (\<lambda>_. []) some_files = (r, s')" by fastforce
  have "\<not> is_ok (fst (store_update full_disk ''/etc/wireguard'' ''wg0'' (\<lambda>_. []) some_files))" by code_simp
  then obtain e where r: "r = Inl e" using u by (cases r) auto
  have ready: "dir_ready full_disk ''/etc/wireguard'' some_files"
  proof -
    have "clean_dir ''/etc/wireguard''" "trim_space ''/etc/wireguard'' = ''/etc/wireguard''" by code_simp+
    then show ?thesis by (simp add: dir_ready_def store_dir_def full_disk_def some_files_def)
  qed
  have "iface_name ''wg0''" "iface_name ''wg1''" by code_simp+
  then show ?thesis using store_update_failed [OF ready _ u [unfolded r]] u by simp
qed

end
