(* ===== verification/WgConf.thy ===== *)
theory WgConf
  imports WgMeta WgBatch
begin

text \<open>
  internal/wgconf/conf.go: a configuration is applied to the device, and the names of its peers,
  which WireGuard does not keep, go to the store of WgMeta. The state is the system the client
  talks to and the files.
\<close>

section \<open>Applying a configuration\<close>

text \<open>\<open>Client\<close> is the two operations of \<^typ>\<open>'s client\<close> it uses.\<close>

definition native_config :: "config \<Rightarrow> config" where
  "native_config cfg = cfg\<lparr>c_peers := map (\<lambda>p. p\<lparr>pc_name := None\<rparr>) (c_peers cfg)\<rparr>"

text \<open>The function that \<open>Apply\<close> gives to \<open>Update\<close>, and one turn of its loop.\<close>

definition name_peer :: "(key \<Rightarrow> bool) \<Rightarrow> peer_config \<Rightarrow> peer_names \<Rightarrow> peer_names" where
  "name_peer exists p names =
     (if pc_remove p then AList.delete (pc_public_key p) names
      else if \<not> exists (pc_public_key p) then names
      else case pc_name p of
        None \<Rightarrow> names
      | Some n \<Rightarrow>
          if n = [] then AList.delete (pc_public_key p) names
          else AList.update (pc_public_key p) n names)"

definition name_peers :: "(key \<Rightarrow> bool) \<Rightarrow> config \<Rightarrow> peer_names \<Rightarrow> peer_names" where
  "name_peers exists cfg names =
     fold (name_peer exists) (c_peers cfg) (if c_replace_peers cfg then [] else names)"

definition conf_apply ::
  "os_env \<Rightarrow> 's client \<Rightarrow> string \<Rightarrow> config \<Rightarrow> string \<Rightarrow> 's \<times> fs \<Rightarrow> unit res \<times> 's \<times> fs" where
  "conf_apply env c iface cfg metadata_path st =
     (case cl_configure c iface (native_config cfg) (fst st) of
        (Inl e, s1) \<Rightarrow> (Inl e, s1, snd st)
      | (Inr _, s1) \<Rightarrow>
          (case cl_device c iface s1 of
             (Inl e, s2) \<Rightarrow> (Inl (ErrWrap ''configured, but the names could not be read'' e), s2, snd st)
           | (Inr d, s2) \<Rightarrow>
               (let exists = (\<lambda>k. k \<in> set (map p_public_key (d_peers d)))
                in case store_update env metadata_path iface (name_peers exists cfg) (snd st) of
                     (Inl e, fs) \<Rightarrow> (Inl (ErrWrap ''configured, but the names could not be saved'' e), s2, fs)
                   | (Inr _, fs) \<Rightarrow> (Inr (), s2, fs))))"

definition sync_peer_configs :: "device \<Rightarrow> peer_config list \<Rightarrow> peer_config list" where
  "sync_peer_configs current desired =
     (let wanted = set (map pc_public_key desired)
      in desired @ map (\<lambda>p. zero_peer_config\<lparr>pc_public_key := p_public_key p, pc_remove := True\<rparr>)
           (filter (\<lambda>p. p_public_key p \<notin> wanted) (d_peers current)))"

definition conf_sync ::
  "os_env \<Rightarrow> 's client \<Rightarrow> string \<Rightarrow> config \<Rightarrow> string \<Rightarrow> 's \<times> fs \<Rightarrow> unit res \<times> 's \<times> fs" where
  "conf_sync env c iface cfg metadata_path st =
     (case cl_device c iface (fst st) of
        (Inl e, s1) \<Rightarrow> (Inl e, s1, snd st)
      | (Inr current, s1) \<Rightarrow>
          conf_apply env c iface (cfg\<lparr>c_peers := sync_peer_configs current (c_peers cfg)\<rparr>) metadata_path (s1, snd st))"

definition attach_names :: "os_env \<Rightarrow> device \<Rightarrow> string \<Rightarrow> fs \<Rightarrow> device res" where
  "attach_names env d metadata_path s =
     bind_res (store_names env metadata_path (d_name d) s)
       (\<lambda>names. Inr (d\<lparr>d_peers := map (\<lambda>p.
          case map_of names (p_public_key p) of
            None \<Rightarrow> p
          | Some name \<Rightarrow> if name \<noteq> [] then p\<lparr>p_name := Some name\<rparr> else p) (d_peers d)\<rparr>))"

text \<open>The device with its names; where a failure to read them is only a warning, it goes on without.\<close>

definition with_names :: "os_env \<Rightarrow> device \<Rightarrow> string \<Rightarrow> fs \<Rightarrow> device" where
  "with_names env d metadata_path s =
     (case attach_names env d metadata_path s of Inl _ \<Rightarrow> d | Inr d' \<Rightarrow> d')"

section \<open>The names an update leaves\<close>

definition configured_name :: "(key \<Rightarrow> bool) \<Rightarrow> config \<Rightarrow> (key \<Rightarrow> string option) \<Rightarrow> key \<Rightarrow> string option" where
  "configured_name exists cfg old k =
     (let base = (if c_replace_peers cfg then None else old k)
      in case find (\<lambda>p. pc_public_key p = k) (c_peers cfg) of
           None \<Rightarrow> base
         | Some p \<Rightarrow>
             if pc_remove p then None
             else if \<not> exists k then base
             else case pc_name p of None \<Rightarrow> base | Some n \<Rightarrow> if n = [] then None else Some n)"

lemma map_of_name_peer:
  "map_of (name_peer exists p m) k =
     (if pc_public_key p \<noteq> k then map_of m k
      else if pc_remove p then None
      else if \<not> exists k then map_of m k
      else case pc_name p of None \<Rightarrow> map_of m k | Some n \<Rightarrow> if n = [] then None else Some n)"
  by (auto simp: name_peer_def AList.update_conv' AList.delete_conv' split: option.split)

lemma map_of_fold_name_peer_other:
  "k \<notin> set (map pc_public_key ps) \<Longrightarrow> map_of (fold (name_peer exists) ps m) k = map_of m k"
  by (induction ps arbitrary: m) (auto simp: map_of_name_peer)

lemma map_of_fold_name_peer:
  "distinct (map pc_public_key ps) \<Longrightarrow> map_of (fold (name_peer exists) ps m) k =
     (case find (\<lambda>p. pc_public_key p = k) ps of None \<Rightarrow> map_of m k | Some p \<Rightarrow> map_of (name_peer exists p m) k)"
proof (induction ps arbitrary: m)
  case (Cons p ps)
  show ?case
  proof (cases "pc_public_key p = k")
    case True
    then have "k \<notin> set (map pc_public_key ps)" using Cons.prems by auto
    then show ?thesis using True map_of_fold_name_peer_other [of k ps exists] by simp
  next
    case False
    then show ?thesis using Cons by (auto simp: map_of_name_peer split: option.split)
  qed
qed simp

lemma map_of_name_peers:
  "distinct (map pc_public_key (c_peers cfg)) \<Longrightarrow>
   map_of (name_peers exists cfg m) = configured_name exists cfg (map_of m)"
  by (rule ext) (auto simp: name_peers_def configured_name_def map_of_fold_name_peer map_of_name_peer Let_def
      dest: find_Some_iff [THEN iffD1] split: option.split)

lemma set_AList_update: "x \<in> set (AList.update k v m) \<Longrightarrow> x = (k, v) \<or> x \<in> set m"
  by (induction m) (auto split: if_splits)

lemma set_AList_delete: "x \<in> set (AList.delete k m) \<Longrightarrow> x \<in> set m"
  by (auto simp: AList.delete_eq)

definition nameable :: "peer_config \<Rightarrow> bool" where
  "nameable p \<longleftrightarrow> wf_key (pc_public_key p) \<and> opt_all valid_string (pc_name p)"

lemma name_peer_storable: "storable m \<Longrightarrow> nameable p \<Longrightarrow> storable (name_peer exists p m)"
  by (auto simp: name_peer_def storable_def nameable_def list_all_iff AList.distinct_update AList.distinct_delete
      dest!: set_AList_update set_AList_delete split: option.split)

lemma name_peers_storable:
  assumes "storable m" and "list_all nameable (c_peers cfg)"
  shows "storable (name_peers exists cfg m)"
proof -
  have "storable m \<Longrightarrow> list_all nameable ps \<Longrightarrow> storable (fold (name_peer exists) ps m)" for ps m
    by (induction ps arbitrary: m) (auto simp: name_peer_storable)
  moreover have "storable []" by (simp add: storable_def)
  ultimately show ?thesis using assms by (simp add: name_peers_def)
qed

definition named :: "string option \<Rightarrow> peer \<Rightarrow> peer" where
  "named n p = (case n of None \<Rightarrow> p | Some a \<Rightarrow> if a = [] then p else p\<lparr>p_name := Some a\<rparr>)"

lemma named_kept: "named (kept m k) p = named (map_of m k) p"
  by (auto simp: named_def kept_def split: option.split)

lemma attach_names_named:
  "store_names env path (d_name d) s = Inr m \<Longrightarrow>
   attach_names env d path s = Inr (d\<lparr>d_peers := map (\<lambda>p. named (map_of m (p_public_key p)) p) (d_peers d)\<rparr>)"
  by (auto simp: attach_names_def named_def intro!: arg_cong [of _ _ "\<lambda>ps. d\<lparr>d_peers := ps\<rparr>"] split: option.split)

section \<open>Synchronising with the kernel\<close>

lemma apply_peer_remove_dom:
  "pc_remove p \<Longrightarrow> dom (k_peers (apply_peer p s)) = dom (k_peers s) - {pc_public_key p}"
  by (auto simp: apply_peer_def Let_def split: option.split)

lemma apply_peer_add_dom:
  "\<not> pc_remove p \<Longrightarrow> \<not> pc_update_only p \<Longrightarrow> dom (k_peers (apply_peer p s)) = insert (pc_public_key p) (dom (k_peers s))"
  by (auto simp: apply_peer_def Let_def split: option.split)

lemma fold_add_dom:
  "\<forall>p \<in> set ps. \<not> pc_remove p \<and> \<not> pc_update_only p \<Longrightarrow>
   dom (k_peers (fold apply_peer ps s)) = dom (k_peers s) \<union> set (map pc_public_key ps)"
  by (induction ps arbitrary: s) (auto simp: apply_peer_add_dom)

lemma fold_remove_dom:
  "\<forall>p \<in> set ps. pc_remove p \<Longrightarrow>
   dom (k_peers (fold apply_peer ps s)) = dom (k_peers s) - set (map pc_public_key ps)"
  by (induction ps arbitrary: s) (auto simp: apply_peer_remove_dom)

lemma apply_device_peers: "k_peers (apply_device c s) = (if c_replace_peers c then \<lambda>_. None else k_peers s)"
  by (simp add: apply_device_def set_opt_def split: option.split)

section \<open>Properties\<close>


definition two_peers :: device where
  "two_peers = zero_device\<lparr>d_name := ''wg0'', d_peers := [zero_peer\<lparr>p_public_key := replicate 32 1\<rparr>,
     zero_peer\<lparr>p_public_key := replicate 32 2\<rparr>]\<rparr>"

definition two_kernel :: kernel where
  "two_kernel = empty_kernel\<lparr>k_peers := [replicate 32 1 \<mapsto> new_kernel_peer, replicate 32 2 \<mapsto> new_kernel_peer]\<rparr>"

definition named_config :: config where
  "named_config = zero_config\<lparr>c_peers := [zero_peer_config\<lparr>pc_public_key := replicate 32 2,
     pc_name := Some ''office''\<rparr>]\<rparr>"


text \<open>
  C6. Names follow the configuration: after \<open>Apply\<close> has returned without an error,
  \<open>AttachNames\<close> gives each peer of the device the name the configuration sets, no name where it
  sets the empty one, and the name it had where the configuration does not speak of it, unless all
  peers were replaced.
\<close>

theorem apply_then_attach:
  assumes "dir_ready env path fs" and "iface_name (d_name d)"
    and "cl_configure c (d_name d) (native_config cfg) s = (Inr (), s1)" and "cl_device c (d_name d) s1 = (Inr d, s2)"
    and "conf_apply env c (d_name d) cfg path (s, fs) = (Inr (), s', fs')"
    and "distinct (map pc_public_key (c_peers cfg))" and "list_all nameable (c_peers cfg)"
    and "store_names env path (d_name d) fs = Inr old" and "storable old"
  shows "attach_names env d path fs' = Inr (d\<lparr>d_peers := map (\<lambda>p. named
     (configured_name (\<lambda>k. k \<in> set (map p_public_key (d_peers d))) cfg (map_of old) (p_public_key p)) p) (d_peers d)\<rparr>)"
proof -
  let ?ex = "\<lambda>k. k \<in> set (map p_public_key (d_peers d))"
  have u: "store_update env path (d_name d) (name_peers ?ex cfg) fs = (Inr (), fs')"
    using assms(3-5) by (auto simp: conf_apply_def Let_def split: sum.splits prod.splits)
  have ok: "\<And>m. store_names env path (d_name d) fs = Inr m \<Longrightarrow> storable (name_peers ?ex cfg m)"
    using name_peers_storable assms(7-9) by simp
  obtain m m' where m: "store_names env path (d_name d) fs = Inr m" "store_names env path (d_name d) fs' = Inr m'"
      "map_of m' = kept (name_peers ?ex cfg m)"
    by (rule dir_store.update_effect [where f = "name_peers ?ex cfg", OF assms(1,2) u ok])
  then have m': "map_of m' = kept (name_peers ?ex cfg old)" using assms(8) by simp
  show ?thesis
    unfolding attach_names_named [OF m(2)] m' named_kept map_of_name_peers [OF assms(6)] ..
qed

definition demo_client :: "unit client" where
  "demo_client = \<lparr>cl_close = (\<lambda>s. (Inr (), s)), cl_devices = (\<lambda>s. (Inr [two_peers], s)),
     cl_device = (\<lambda>n s. (Inr two_peers, s)), cl_configure = (\<lambda>n cfg s. (Inr (), s))\<rparr>"

theorem apply_then_attach_witness:
  "\<exists>fs'. attach_names no_faults two_peers ''/etc/wireguard'' fs' = Inr (two_peers\<lparr>d_peers :=
     [zero_peer\<lparr>p_public_key := replicate 32 1\<rparr>,
      zero_peer\<lparr>p_public_key := replicate 32 2, p_name := Some ''office''\<rparr>]\<rparr>)"
proof -
  let ?apply = "conf_apply no_faults demo_client (d_name two_peers) named_config ''/etc/wireguard'' ((), some_files)"
  obtain r s' fs' where a: "?apply = (r, s', fs')" by (cases ?apply) auto
  have "is_ok (fst ?apply)" by code_simp
  then have r: "r = Inr ()" using a by (cases r) auto
  have ready: "dir_ready no_faults ''/etc/wireguard'' some_files"
  proof -
    have "clean_dir ''/etc/wireguard''" "trim_space ''/etc/wireguard'' = ''/etc/wireguard''" by code_simp+
    then show ?thesis by (simp add: dir_ready_def store_dir_def no_faults_def some_files_def)
  qed
  have c: "cl_configure demo_client (d_name two_peers) (native_config named_config) () = (Inr (), ())"
    "cl_device demo_client (d_name two_peers) () = (Inr two_peers, ())" by (simp_all add: demo_client_def)
  have names: "iface_name (d_name two_peers)" "distinct (map pc_public_key (c_peers named_config))"
    "list_all nameable (c_peers named_config)" "storable []"
    "store_names no_faults ''/etc/wireguard'' (d_name two_peers) some_files = Inr []" by code_simp+
  have "map (\<lambda>p. named (configured_name (\<lambda>k. k \<in> set (map p_public_key (d_peers two_peers))) named_config (map_of [])
      (p_public_key p)) p) (d_peers two_peers) = [zero_peer\<lparr>p_public_key := replicate 32 1\<rparr>,
      zero_peer\<lparr>p_public_key := replicate 32 2, p_name := Some ''office''\<rparr>]" by code_simp
  then show ?thesis
    using apply_then_attach [OF ready names(1) c a [unfolded r] names(2,3,5,4)] by auto
qed

text \<open>
  Names are not touched for a device that was not configured: when \<open>ConfigureDevice\<close> or the
  reading of the device after it fails, \<open>Apply\<close> reports it and no file has changed.
\<close>

theorem apply_failed_keeps_files:
  assumes "(\<exists>e s1. cl_configure c iface (native_config cfg) s = (Inl e, s1))
    \<or> (\<exists>u s1 e s2. cl_configure c iface (native_config cfg) s = (Inr u, s1) \<and> cl_device c iface s1 = (Inl e, s2))"
  shows "\<exists>e s'. conf_apply env c iface cfg path (s, fs) = (Inl e, s', fs)"
  using assms by (auto simp: conf_apply_def)

theorem apply_failed_keeps_files_witness:
  "\<exists>e s'. conf_apply no_faults (demo_client\<lparr>cl_configure := \<lambda>n cfg s. (Inl ErrNotExist, s)\<rparr>) ''wg0'' named_config
     ''/etc/wireguard'' ((), some_files) = (Inl e, s', some_files)"
  by (rule apply_failed_keeps_files) simp

lemma fold_apply_peer_other:
  "k \<notin> set (map pc_public_key ps) \<Longrightarrow> k_peers (fold apply_peer ps s) k = k_peers s k"
  by (induction ps arbitrary: s) (auto simp: apply_peer_def Let_def split: option.split)

lemma apply_peer_known:
  "\<not> pc_remove p \<Longrightarrow> k_peers s (pc_public_key p) = Some q \<Longrightarrow>
   k_peers (apply_peer p s) (pc_public_key p) = Some (update_kernel_peer p q)"
  by (simp add: apply_peer_def Let_def)

lemma fold_apply_peer_known:
  assumes "distinct (map pc_public_key ps)" and "p \<in> set ps" and "\<not> pc_remove p"
    and "k_peers s (pc_public_key p) = Some q"
  shows "k_peers (fold apply_peer ps s) (pc_public_key p) = Some (update_kernel_peer p q)"
proof -
  obtain as bs where ps: "ps = as @ p # bs" using assms(2) by (meson split_list)
  then have "pc_public_key p \<notin> set (map pc_public_key as)" "pc_public_key p \<notin> set (map pc_public_key bs)"
    using assms(1) by auto
  then show ?thesis
    using assms(3,4) by (simp add: ps fold_apply_peer_other apply_peer_known)
qed

text \<open>
  A peer that \<open>Sync\<close> keeps is not cleared: when the configuration names no preshared key and no
  keepalive for a peer of the interface, it has those of before afterwards.
\<close>

theorem sync_keeps_omitted:
  assumes "distinct (map pc_public_key (c_peers cfg))" and "p \<in> set (c_peers cfg)" and "\<not> pc_remove p"
    and "\<not> c_replace_peers cfg" and "k_peers s (pc_public_key p) = Some q"
    and "pc_preshared_key p = None" and "pc_keepalive p = None"
  shows "map_option (\<lambda>q. (kp_preshared_key q, kp_keepalive q))
      (k_peers (apply_config (cfg\<lparr>c_peers := sync_peer_configs current (c_peers cfg)\<rparr>) s) (pc_public_key p))
    = Some (kp_preshared_key q, kp_keepalive q)"
proof -
  let ?gone = "map (\<lambda>p. zero_peer_config\<lparr>pc_public_key := p_public_key p, pc_remove := True\<rparr>)
      (filter (\<lambda>p. p_public_key p \<notin> set (map pc_public_key (c_peers cfg))) (d_peers current))"
  let ?s = "apply_device (cfg\<lparr>c_peers := sync_peer_configs current (c_peers cfg)\<rparr>) s"
  have "pc_public_key p \<in> set (map pc_public_key (c_peers cfg))" using assms(2) by simp
  then have "pc_public_key p \<notin> set (map pc_public_key ?gone)" by fastforce
  moreover have "k_peers ?s (pc_public_key p) = Some q" using assms(4,5) by (simp add: apply_device_peers)
  ultimately have "k_peers (fold apply_peer (c_peers cfg @ ?gone) ?s) (pc_public_key p) = Some (update_kernel_peer p q)"
    using fold_apply_peer_known [OF assms(1-3)] by (simp add: fold_apply_peer_other del: set_map)
  moreover have "kp_preshared_key (update_kernel_peer p q) = kp_preshared_key q" "kp_keepalive (update_kernel_peer p q) = kp_keepalive q"
    using assms(6,7) by (simp_all add: update_kernel_peer_def set_opt_def split: option.split)
  ultimately show ?thesis by (simp add: apply_config_def sync_peer_configs_def Let_def)
qed

theorem sync_keeps_omitted_witness:
  "map_option (\<lambda>q. (kp_preshared_key q, kp_keepalive q))
      (k_peers (apply_config (named_config\<lparr>c_peers := sync_peer_configs two_peers (c_peers named_config)\<rparr>)
         (empty_kernel\<lparr>k_peers := [replicate 32 2 \<mapsto> new_kernel_peer\<lparr>kp_preshared_key := replicate 32 9\<rparr>]\<rparr>)) (replicate 32 2))
    = Some (replicate 32 9, 0)"
  using sync_keeps_omitted [of named_config "hd (c_peers named_config)" "empty_kernel\<lparr>k_peers := [replicate 32 2 \<mapsto> new_kernel_peer\<lparr>kp_preshared_key := replicate 32 9\<rparr>]\<rparr>"
    "new_kernel_peer\<lparr>kp_preshared_key := replicate 32 9\<rparr>" two_peers]
  by (simp add: named_config_def zero_peer_config_def zero_config_def new_kernel_peer_def)

end
