(* ===== verification/WgQuickConf.thy ===== *)
theory WgQuickConf
  imports WgConfig
begin

text \<open>
  internal/wgquick: the wg-quick configuration (config.go), its reader (parse.go) and its two
  writers (strip.go), and the merge with a device's state (save.go). The format is that of
  \<open>wg setconf\<close> with more interface fields; addresses keep their host bits, networks do not.
\<close>

section \<open>The configuration\<close>

definition default_table :: int where
  "default_table = 51820"

record quick_peer =
  qp_public_key :: key
  qp_preshared_key :: "key option"
  qp_allowed_ips :: "ip_net list"
  qp_endpoint :: "udp_addr option"
  qp_keepalive :: "int option"

record quick_config =
  q_name :: string
  q_private_key :: "key option"
  q_listen_port :: "int option"
  q_firewall_mark :: "int option"
  q_addresses :: "ip_net list"
  q_dns :: "ip list"
  q_mtu :: int
  q_table :: string
  q_pre_up :: "string list"
  q_post_up :: "string list"
  q_pre_down :: "string list"
  q_post_down :: "string list"
  q_save_config :: bool
  q_peers :: "quick_peer list"

definition zero_quick_peer :: quick_peer where
  "zero_quick_peer = \<lparr>qp_public_key = zero_key, qp_preshared_key = None, qp_allowed_ips = [],
     qp_endpoint = None, qp_keepalive = None\<rparr>"

definition zero_quick :: quick_config where
  "zero_quick = \<lparr>q_name = [], q_private_key = None, q_listen_port = None, q_firewall_mark = None,
     q_addresses = [], q_dns = [], q_mtu = 0, q_table = [], q_pre_up = [], q_post_up = [],
     q_pre_down = [], q_post_down = [], q_save_config = False, q_peers = []\<rparr>"

definition wire_guard_peer :: "quick_peer \<Rightarrow> peer_config" where
  "wire_guard_peer p = zero_peer_config\<lparr>pc_public_key := qp_public_key p,
     pc_replace_allowed_ips := True, pc_allowed_ips := qp_allowed_ips p,
     pc_preshared_key := qp_preshared_key p, pc_endpoint := qp_endpoint p,
     pc_keepalive := qp_keepalive p\<rparr>"

definition wire_guard_config :: "quick_config \<Rightarrow> config" where
  "wire_guard_config c = zero_config\<lparr>c_replace_peers := True, c_private_key := q_private_key c,
     c_listen_port := q_listen_port c, c_firewall_mark := q_firewall_mark c,
     c_peers := map wire_guard_peer (q_peers c)\<rparr>"

definition route_table :: "quick_config \<Rightarrow> int" where
  "route_table c =
     (case (if q_table c \<noteq> [] \<and> q_table c \<noteq> ''auto'' \<and> q_table c \<noteq> ''off''
            then parse_int64 (q_table c) else Inl (ErrText ''no table'')) of
        Inr n \<Rightarrow> n
      | Inl _ \<Rightarrow>
          (case q_firewall_mark c of
             Some m \<Rightarrow> m
           | None \<Rightarrow> default_table))"

text \<open>The three strings \<open>routeMode\<close> returns.\<close>

datatype route_mode = RouteOff | RouteExplicit | RouteAuto

definition route_mode :: "quick_config \<Rightarrow> route_mode" where
  "route_mode c =
     (if q_table c = ''off'' then RouteOff
      else if q_table c \<noteq> [] \<and> q_table c \<noteq> ''auto'' then RouteExplicit
      else RouteAuto)"

definition is_default_route :: "ip_net \<Rightarrow> bool" where
  "is_default_route n =
     (case mask_size (net_mask n) of (ones, bits) \<Rightarrow> ones = 0 \<and> (bits = 32 \<or> bits = 128))"

definition has_default_route :: "quick_config \<Rightarrow> bool" where
  "has_default_route c = list_ex (\<lambda>p. list_ex is_default_route (qp_allowed_ips p)) (q_peers c)"

section \<open>Parsing values\<close>

definition quick_clean_line :: "string \<Rightarrow> string" where
  "quick_clean_line line0 =
     (let line = trim_space line0
      in if line = [] then []
         else (case cut_at (CHR ''#'') line of
           None \<Rightarrow> line
         | Some (a, b) \<Rightarrow> trim_space a))"

definition quick_parse_uint :: "string \<Rightarrow> nat \<Rightarrow> nat res" where
  "quick_parse_uint value mx =
     (case parse_uint 10 64 value of
        Inl e \<Rightarrow> Inl e
      | Inr n \<Rightarrow> if mx < n then Inl (ErrText ''value exceeds maximum'') else Inr n)"

definition quick_parse_fwmark :: "string \<Rightarrow> nat res" where
  "quick_parse_fwmark value =
     (if value = ''off'' then Inr 0
      else if prefix ''0x'' value \<or> prefix ''0X'' value then parse_uint 16 32 (drop 2 value)
      else parse_uint 10 32 value)"

text \<open>The non-empty parts of a list separated by commas, each parsed.\<close>

definition parse_list :: "(string \<Rightarrow> 'a res) \<Rightarrow> string \<Rightarrow> 'a list res" where
  "parse_list f value =
     map_res f (filter (\<lambda>p. p \<noteq> []) (map trim_space (split_on (CHR '','') value)))"

definition parse_addresses :: "string \<Rightarrow> ip_net list res" where
  "parse_addresses value =
     parse_list (\<lambda>p. bind_res (parse_cidr p) (\<lambda>(i, n). Inr \<lparr>net_ip = i, net_mask = net_mask n\<rparr>)) value"

definition parse_networks :: "string \<Rightarrow> ip_net list res" where
  "parse_networks value = parse_list (\<lambda>p. bind_res (parse_cidr p) (\<lambda>(i, n). Inr n)) value"

definition parse_ips :: "string \<Rightarrow> ip list res" where
  "parse_ips value =
     parse_list (\<lambda>p. case parse_ip p of None \<Rightarrow> Inl (ErrText ''invalid IP'') | Some i \<Rightarrow> Inr i) value"

definition parse_keepalive :: "string \<Rightarrow> int res" where
  "parse_keepalive value =
     (if value = ''off'' then Inr 0
      else case quick_parse_uint value 65535 of
        Inl e \<Rightarrow> Inl e
      | Inr n \<Rightarrow> Inr (int n * second))"

section \<open>Parsing a file\<close>

definition quick_field :: "string \<Rightarrow> 'a res \<Rightarrow> ('a \<Rightarrow> 'b) \<Rightarrow> 'b res" where
  "quick_field name r f = (case r of Inl e \<Rightarrow> Inl (ErrWrap (''parse '' @ name) e) | Inr v \<Rightarrow> Inr (f v))"

definition quick_parse_interface :: "string \<Rightarrow> string \<Rightarrow> quick_config \<Rightarrow> quick_config res" where
  "quick_parse_interface key value c =
     (if key = ''privatekey'' then
        quick_field ''PrivateKey'' (parse_key value) (\<lambda>k. c\<lparr>q_private_key := Some k\<rparr>)
      else if key = ''listenport'' then
        quick_field ''ListenPort'' (quick_parse_uint value 65535) (\<lambda>n. c\<lparr>q_listen_port := Some (int n)\<rparr>)
      else if key = ''fwmark'' then
        quick_field ''FwMark'' (quick_parse_fwmark value) (\<lambda>n. c\<lparr>q_firewall_mark := Some (int n)\<rparr>)
      else if key = ''address'' then
        quick_field ''Address'' (parse_addresses value) (\<lambda>as. c\<lparr>q_addresses := q_addresses c @ as\<rparr>)
      else if key = ''dns'' then
        quick_field ''DNS'' (parse_ips value) (\<lambda>is. c\<lparr>q_dns := q_dns c @ is\<rparr>)
      else if key = ''mtu'' then
        quick_field ''MTU'' (quick_parse_uint value 65535) (\<lambda>n. c\<lparr>q_mtu := int n\<rparr>)
      else if key = ''table'' then Inr (c\<lparr>q_table := value\<rparr>)
      else if key = ''preup'' then Inr (c\<lparr>q_pre_up := q_pre_up c @ [value]\<rparr>)
      else if key = ''postup'' then Inr (c\<lparr>q_post_up := q_post_up c @ [value]\<rparr>)
      else if key = ''predown'' then Inr (c\<lparr>q_pre_down := q_pre_down c @ [value]\<rparr>)
      else if key = ''postdown'' then Inr (c\<lparr>q_post_down := q_post_down c @ [value]\<rparr>)
      else if key = ''saveconfig'' then
        quick_field ''SaveConfig'' (parse_bool value) (\<lambda>b. c\<lparr>q_save_config := b\<rparr>)
      else Inl (ErrText ''unknown interface field''))"

definition quick_parse_peer :: "resolver \<Rightarrow> string \<Rightarrow> string \<Rightarrow> quick_peer \<Rightarrow> quick_peer res" where
  "quick_parse_peer rs key value p =
     (if key = ''publickey'' then
        quick_field ''PublicKey'' (parse_key value) (\<lambda>k. p\<lparr>qp_public_key := k\<rparr>)
      else if key = ''presharedkey'' then
        quick_field ''PresharedKey'' (parse_key value) (\<lambda>k. p\<lparr>qp_preshared_key := Some k\<rparr>)
      else if key = ''allowedips'' then
        quick_field ''AllowedIPs'' (parse_networks value) (\<lambda>ns. p\<lparr>qp_allowed_ips := qp_allowed_ips p @ ns\<rparr>)
      else if key = ''endpoint'' then
        quick_field ''Endpoint'' (resolve_udp_addr rs value) (\<lambda>a. p\<lparr>qp_endpoint := Some a\<rparr>)
      else if key = ''persistentkeepalive'' then
        quick_field ''PersistentKeepalive'' (parse_keepalive value) (\<lambda>d. p\<lparr>qp_keepalive := Some d\<rparr>)
      else Inl (ErrText ''unknown peer field''))"

text \<open>
  The local variables of \<open>Parse\<close>. The pointer \<open>peer\<close> is nil or addresses the last element
  of \<open>cfg.Peers\<close>; \<open>qs_peer\<close> says which.
\<close>

record quick_state =
  qs_cfg :: quick_config
  qs_section :: string
  qs_peer :: bool

definition quick_init :: quick_state where
  "quick_init = \<lparr>qs_cfg = zero_quick, qs_section = [], qs_peer = False\<rparr>"

definition quick_section :: "nat \<Rightarrow> string \<Rightarrow> quick_state \<Rightarrow> quick_state res" where
  "quick_section n line st =
     (let name = to_lower (trim_space (butlast (tl line)))
      in if name = ''interface'' then Inr (st\<lparr>qs_section := ''interface'', qs_peer := False\<rparr>)
         else if name = ''peer'' then
           Inr (st\<lparr>qs_cfg := (qs_cfg st)\<lparr>q_peers := q_peers (qs_cfg st) @ [zero_quick_peer]\<rparr>,
                   qs_peer := True, qs_section := ''peer''\<rparr>)
         else Inl (ErrLine n (ErrText ''unknown section'')))"

definition quick_parse_field :: "resolver \<Rightarrow> nat \<Rightarrow> string \<Rightarrow> string \<Rightarrow> quick_state \<Rightarrow> quick_state res" where
  "quick_parse_field rs n key value st =
     (if qs_section st = ''interface'' then
        map_err (ErrLine n)
          (bind_res (quick_parse_interface key value (qs_cfg st)) (\<lambda>c. Inr (st\<lparr>qs_cfg := c\<rparr>)))
      else if qs_section st = ''peer'' then
        (if \<not> qs_peer st then Inl (ErrLine n (ErrText ''peer field outside a Peer section''))
         else map_err (ErrLine n)
           (bind_res (quick_parse_peer rs key value (last (q_peers (qs_cfg st))))
             (\<lambda>p. Inr (st\<lparr>qs_cfg := (qs_cfg st)\<lparr>q_peers := butlast (q_peers (qs_cfg st)) @ [p]\<rparr>\<rparr>))))
      else Inl (ErrLine n (ErrText ''field outside a section'')))"

definition quick_parse_line :: "resolver \<Rightarrow> nat \<Rightarrow> string \<Rightarrow> quick_state \<Rightarrow> quick_state res" where
  "quick_parse_line rs n raw st =
     (let line = quick_clean_line raw
      in if line = [] then Inr st
         else if prefix ''['' line \<and> suffix '']'' line then quick_section n line st
         else case cut_at (CHR ''='') line of
           None \<Rightarrow> Inl (ErrLine n (ErrText ''invalid configuration line''))
         | Some (key, value) \<Rightarrow>
             quick_parse_field rs n (to_lower (trim_space key)) (trim_space value) st)"

fun quick_parse_lines :: "resolver \<Rightarrow> nat \<Rightarrow> string list \<Rightarrow> quick_state \<Rightarrow> quick_state res" where
  "quick_parse_lines rs n [] st = Inr st"
| "quick_parse_lines rs n (l # ls) st =
     bind_res (quick_parse_line rs n l st) (quick_parse_lines rs (Suc n) ls)"

definition quick_finish :: "go_error option \<Rightarrow> quick_config \<Rightarrow> quick_config res" where
  "quick_finish err c =
     (case err of
        Some e \<Rightarrow> Inl (ErrWrap ''read configuration'' e)
      | None \<Rightarrow>
          if list_ex (\<lambda>p. qp_public_key p = zero_key) (q_peers c) then Inl (ErrText ''peer missing PublicKey'')
          else if q_private_key c = None \<and> q_listen_port c = None \<and> q_firewall_mark c = None
                  \<and> q_addresses c = [] \<and> q_peers c = []
            then Inl (ErrText ''no usable configuration found'')
          else Inr c)"

definition quick_parse :: "resolver \<Rightarrow> reader \<Rightarrow> quick_config res" where
  "quick_parse rs r =
     (case scan_lines max_line r of
        (ls, err) \<Rightarrow>
          bind_res (quick_parse_lines rs 1 ls quick_init) (\<lambda>st. quick_finish err (qs_cfg st)))"

section \<open>Writing\<close>

text \<open>The writer is assumed not to fail, so that the result is what has been written.\<close>

definition opt_field :: "string \<Rightarrow> ('a \<Rightarrow> string) \<Rightarrow> 'a option \<Rightarrow> string list" where
  "opt_field f str v = (case v of None \<Rightarrow> [] | Some x \<Rightarrow> [kv f (str x)])"

definition write_interface_crypto :: "quick_config \<Rightarrow> string list" where
  "write_interface_crypto c =
     opt_field ''PrivateKey'' key_str (q_private_key c)
     @ opt_field ''ListenPort'' (int_str 10) (q_listen_port c)
     @ opt_field ''FwMark'' (int_str 10) (q_firewall_mark c)"

definition write_ip_net_list :: "string \<Rightarrow> ip_net list \<Rightarrow> string list" where
  "write_ip_net_list f ns = [kv f (join '', '' (map ip_net_str ns))]"

definition keepalive_str :: "int \<Rightarrow> string" where
  "keepalive_str d = (if d = 0 then ''off'' else int_str 10 (int_seconds d))"

definition write_peer :: "quick_peer \<Rightarrow> string list" where
  "write_peer p =
     [[], ''[Peer]'', kv ''PublicKey'' (key_str (qp_public_key p))]
     @ opt_field ''PresharedKey'' key_str (qp_preshared_key p)
     @ (if qp_allowed_ips p \<noteq> [] then write_ip_net_list ''AllowedIPs'' (qp_allowed_ips p) else [])
     @ opt_field ''Endpoint'' udp_addr_str (qp_endpoint p)
     @ opt_field ''PersistentKeepalive'' keepalive_str (qp_keepalive p)"

text \<open>The lines that \<open>Strip\<close> and \<open>Encode\<close> write, and their text.\<close>

definition strip_lines :: "quick_config \<Rightarrow> string list" where
  "strip_lines c =
     (if q_private_key c \<noteq> None \<or> q_listen_port c \<noteq> None \<or> q_firewall_mark c \<noteq> None
      then ''[Interface]'' # write_interface_crypto c else [])
     @ concat (map write_peer (q_peers c))"

definition quick_strip :: "quick_config \<Rightarrow> string" where
  "quick_strip c = unlines (strip_lines c)"

definition quick_lines :: "quick_config \<Rightarrow> string list" where
  "quick_lines c =
     [''[Interface]''] @ write_interface_crypto c
     @ (if q_addresses c \<noteq> [] then write_ip_net_list ''Address'' (q_addresses c) else [])
     @ (if q_dns c \<noteq> [] then [kv ''DNS'' (join '', '' (map ip_str (q_dns c)))] else [])
     @ (if 0 < q_mtu c then [kv ''MTU'' (int_str 10 (q_mtu c))] else [])
     @ (if q_table c \<noteq> [] then [kv ''Table'' (q_table c)] else [])
     @ map (kv ''PreUp'') (q_pre_up c) @ map (kv ''PostUp'') (q_post_up c)
     @ map (kv ''PreDown'') (q_pre_down c) @ map (kv ''PostDown'') (q_post_down c)
     @ (if q_save_config c then [kv ''SaveConfig'' ''true''] else [])
     @ concat (map write_peer (q_peers c))"

definition quick_encode :: "quick_config \<Rightarrow> string" where
  "quick_encode c = unlines (quick_lines c)"

section \<open>Merging a device's state\<close>

definition peer_from_device :: "peer \<Rightarrow> quick_peer" where
  "peer_from_device p = zero_quick_peer\<lparr>qp_public_key := p_public_key p, qp_allowed_ips := p_allowed_ips p,
     qp_preshared_key := (if p_preshared_key p \<noteq> zero_key then Some (p_preshared_key p) else None),
     qp_endpoint := p_endpoint p,
     qp_keepalive := (if p_keepalive p \<noteq> 0 then Some (p_keepalive p) else None)\<rparr>"

definition peers_from_device :: "device \<Rightarrow> quick_peer list" where
  "peers_from_device d = map peer_from_device (d_peers d)"

definition quick_apply_device :: "quick_config \<Rightarrow> device \<Rightarrow> quick_config" where
  "quick_apply_device c d =
     c\<lparr>q_private_key := (if d_has_private_key d then Some (d_private_key d) else None),
       q_listen_port := (if d_listen_port d \<noteq> 0 then Some (d_listen_port d) else None),
       q_firewall_mark := (if d_firewall_mark d \<noteq> 0 then Some (d_firewall_mark d) else None),
       q_peers := peers_from_device d\<rparr>"

section \<open>Lines and values\<close>

text \<open>A value that survives trimming and comments: it begins and ends with a graphic character.\<close>

definition plain_value :: "string \<Rightarrow> bool" where
  "plain_value v \<longleftrightarrow> value_text v \<and> graph (hd v)"

lemma plain_valueI:
  assumes "v \<noteq> []" and "\<And>c. c \<in> set v \<Longrightarrow> graph c \<and> c \<noteq> CHR ''#''"
  shows "plain_value v"
  using value_text_graph(1) [OF assms] assms by (auto simp: plain_value_def)

lemma plain_value_trim: "plain_value v \<Longrightarrow> trim_space v = v"
  by (auto simp: plain_value_def value_text_def intro: trim_space_graph)

lemma trim_space_snoc:
  assumes "f \<noteq> []" and "\<And>c. c \<in> set f \<Longrightarrow> graph c"
  shows "trim_space (f @ '' '') = f"
proof -
  have sp: "\<forall>p \<in> set unicode_spaces. p \<noteq> [] \<and> \<not> graph (hd p)"
    "\<forall>p \<in> set (map rev unicode_spaces). p \<noteq> [] \<and> \<not> graph (hd p)"
    by (simp_all add: unicode_spaces_def graph_def between_def)
  have "trim_left (f @ '' '') = f @ '' ''"
    unfolding trim_left_def using assms by (intro strip_any_graph [OF sp(1)]) (cases f; simp)
  moreover have "strip_any (map rev unicode_spaces) (CHR 0x20 # rev f) = strip_any (map rev unicode_spaces) (rev f)"
    by (subst strip_any.simps) (simp add: unicode_spaces_def)
  moreover have "strip_any (map rev unicode_spaces) (rev f) = rev f"
    using assms by (intro strip_any_graph [OF sp(2)]) (auto simp: hd_rev)
  ultimately show ?thesis by (simp add: trim_space_def trim_right_def)
qed

lemma quick_parse_line_field:
  assumes f: "field_name f" and v: "plain_value v"
  shows "quick_parse_line rs n (kv f v) st = quick_parse_field rs n (to_lower f) v st"
proof -
  have f': "f \<noteq> []" "\<And>c. c \<in> set f \<Longrightarrow> graph c" "CHR ''#'' \<notin> set f" "CHR ''='' \<notin> set f" "hd f \<noteq> CHR ''[''"
    using f by (auto simp: field_name_def list_all_iff)
  have vt: "v \<noteq> []" "graph (last v)" "CHR ''#'' \<notin> set v"
    using v by (auto simp: plain_value_def value_text_def list_all_iff)
  have "trim_space (kv f v) = kv f v"
    using f'(1,2) vt by (intro trim_space_graph) (simp add: kv_def)
  moreover have "CHR ''#'' \<notin> set (kv f v)" using f'(3) vt(3) by (simp add: kv_def)
  ultimately have clean: "quick_clean_line (kv f v) = kv f v"
    by (simp add: quick_clean_line_def Let_def)
  have cut: "cut_at (CHR ''='') (kv f v) = Some (f @ '' '', CHR 0x20 # v)"
    using cut_at_append [of "CHR ''=''" "f @ '' ''" "CHR 0x20 # v"] f'(4) by (simp add: kv_def)
  have "\<not> prefix ''['' (kv f v)" "kv f v \<noteq> []" using f'(1,5) by (cases f; simp add: kv_def)+
  then show ?thesis
    by (simp add: quick_parse_line_def clean cut trim_space_snoc [OF f'(1,2)] trim_space_lead plain_value_trim [OF v])
qed

lemma quick_parse_lines_append:
  "quick_parse_lines rs n (xs @ ys) st =
     bind_res (quick_parse_lines rs n xs st) (quick_parse_lines rs (n + length xs) ys)"
  by (induction xs arbitrary: n st) (auto simp: bind_res_def split: sum.split)

lemma quick_parse_lines_one [simp]: "quick_parse_lines rs n [l] st = quick_parse_line rs n l st"
  by (simp add: bind_res_def split: sum.split)

text \<open>The states inside a section.\<close>

definition qin_interface :: "quick_config \<Rightarrow> quick_state" where
  "qin_interface c = \<lparr>qs_cfg = c, qs_section = ''interface'', qs_peer = False\<rparr>"

definition qin_peer :: "quick_config \<Rightarrow> quick_peer list \<Rightarrow> quick_peer \<Rightarrow> quick_state" where
  "qin_peer c ps p = \<lparr>qs_cfg = c\<lparr>q_peers := ps @ [p]\<rparr>, qs_section = ''peer'', qs_peer = True\<rparr>"

lemma quick_interface_line:
  assumes "field_name f" and "plain_value v" and "quick_parse_interface (to_lower f) v c = Inr c'"
  shows "quick_parse_line rs n (kv f v) (qin_interface c) = Inr (qin_interface c')"
  using assms by (simp add: quick_parse_line_field quick_parse_field_def qin_interface_def)

lemma quick_peer_line:
  assumes "field_name f" and "plain_value v" and "quick_parse_peer rs (to_lower f) v p = Inr p'"
  shows "quick_parse_line rs n (kv f v) (qin_peer c ps p) = Inr (qin_peer c ps p')"
  using assms by (simp add: quick_parse_line_field quick_parse_field_def qin_peer_def)

lemma quick_section_lines:
  "quick_parse_line rs n ''[Interface]'' st = Inr (st\<lparr>qs_section := ''interface'', qs_peer := False\<rparr>)"
  "quick_parse_line rs n ''[Peer]'' st =
     Inr (st\<lparr>qs_cfg := (qs_cfg st)\<lparr>q_peers := q_peers (qs_cfg st) @ [zero_quick_peer]\<rparr>,
             qs_peer := True, qs_section := ''peer''\<rparr>)"
  "quick_parse_line rs n [] st = Inr st"
proof -
  have cl: "quick_clean_line ''[Interface]'' = ''[Interface]''" "quick_clean_line ''[Peer]'' = ''[Peer]''"
    "quick_clean_line [] = []" by code_simp+
  have low: "to_lower (trim_space ''Interface'') = ''interface''" "to_lower (trim_space ''Peer'') = ''peer''"
    by code_simp+
  show "quick_parse_line rs n ''[Interface]'' st = Inr (st\<lparr>qs_section := ''interface'', qs_peer := False\<rparr>)"
    "quick_parse_line rs n ''[Peer]'' st =
     Inr (st\<lparr>qs_cfg := (qs_cfg st)\<lparr>q_peers := q_peers (qs_cfg st) @ [zero_quick_peer]\<rparr>,
             qs_peer := True, qs_section := ''peer''\<rparr>)"
    "quick_parse_line rs n [] st = Inr st"
    by (simp_all add: quick_parse_line_def cl quick_section_def low suffix_def)
qed

text \<open>Lists of values.\<close>

definition list_item :: "string \<Rightarrow> bool" where
  "list_item x \<longleftrightarrow> x \<noteq> [] \<and> list_all (\<lambda>c. graph c \<and> c \<noteq> CHR ''#'' \<and> c \<noteq> CHR '','') x"

lemma list_item_trim: "list_item x \<Longrightarrow> trim_space x = x"
  by (rule trim_space_graph) (simp add: list_item_def list_all_iff)

lemma parse_list_join:
  assumes "list_all list_item xs"
  shows "parse_list f (join '', '' xs) = map_res f xs"
proof (cases xs)
  case Nil
  then show ?thesis by (simp add: parse_list_def)
next
  case (Cons x ys)
  have "split_on (CHR '','') (join '', '' xs) = hd xs # map (\<lambda>x. '' '' @ x) (tl xs)"
    using assms Cons by (intro split_on_join) (auto simp: list_all_iff list_item_def)
  moreover have "map trim_space (hd xs # map (\<lambda>x. '' '' @ x) (tl xs)) = xs"
    using assms Cons by (simp add: list_item_trim trim_space_lead list_all_iff map_idI)
  moreover have "filter (\<lambda>p. p \<noteq> []) xs = xs"
    using assms by (auto simp: filter_id_conv list_all_iff list_item_def)
  ultimately show ?thesis by (simp only: parse_list_def)
qed

lemma join_plain:
  assumes "xs \<noteq> []" and "list_all list_item xs"
  shows "plain_value (join '', '' xs)"
proof -
  have each: "graph c \<and> c \<noteq> CHR ''#''" if "x \<in> set xs" "c \<in> set x" for x c
    using assms that by (auto simp: list_all_iff list_item_def)
  have ne: "x \<noteq> []" if "x \<in> set xs" for x using assms that by (auto simp: list_all_iff list_item_def)
  have last: "last xs \<in> set xs" using assms by simp
  have "join '', '' xs \<noteq> [] \<and> last (join '', '' xs) = last (last xs)"
    using join_last [of xs "'', ''"] assms(1) ne [OF last] by blast
  moreover have "graph (last (last xs))" using each [OF last] ne [OF last] by simp
  moreover have "\<forall>c \<in> set (join '', '' xs). (graph c \<or> c = CHR 0x20) \<and> c \<noteq> CHR ''#''"
    using join_set [of "'', ''" xs] each by (fastforce simp: graph_def between_def)
  moreover have "hd (join '', '' xs) = hd (hd xs)"
    using assms(1) ne by (cases xs rule: remdups_adj.cases) auto
  moreover have "graph (hd (hd xs))" using each [of "hd xs"] ne [of "hd xs"] assms(1) by simp
  ultimately show ?thesis by (simp add: plain_value_def value_text_def list_all_iff)
qed

lemma net_item: "canonical_net n \<Longrightarrow> list_item (ip_net_str n)"
  using ip_net_str_not_Nil [of n] ip_net_str_set [of n] plain_graph
  by (auto simp: list_item_def list_all_iff)

lemma ip_item:
  assumes "length i = 4 \<or> length i = 16"
  shows "list_item (ip_str i)"
proof -
  have "list_all (\<lambda>c. graph c \<and> c \<noteq> CHR ''#'' \<and> c \<noteq> CHR '','') ''.:0123456789abcdef''" by code_simp
  then have "\<forall>c \<in> set ''.:0123456789abcdef''. graph c \<and> c \<noteq> CHR ''#'' \<and> c \<noteq> CHR '',''"
    by (simp only: list_all_iff)
  then show ?thesis
    using ip_str_set [OF assms] ip_str_hd [OF assms] unfolding list_item_def list_all_iff by blast
qed

lemma key_plain: "wf_key k \<Longrightarrow> plain_value (key_str k)"
  using key_str_not_Nil key_str_graph by (intro plain_valueI) auto

lemma dec_plain: "plain_value (nat_str 10 n)"
  by (intro plain_valueI nat_str_not_Nil)
     (rule plain_graph, use nat_str_dec_set plain_sets(1) in blast)

section \<open>Reading back a written configuration\<close>

text \<open>The configurations whose parts all have a text that is read back.\<close>

definition wf_quick_peer :: "quick_peer \<Rightarrow> bool" where
  "wf_quick_peer p \<longleftrightarrow> wf_key (qp_public_key p) \<and> qp_public_key p \<noteq> zero_key
     \<and> opt_all wf_key (qp_preshared_key p)
     \<and> list_all (\<lambda>n. canonical_net n \<and> ip_masked (net_ip n) (net_mask n) = net_ip n) (qp_allowed_ips p)
     \<and> opt_all (\<lambda>a. (length (ua_ip a) = 4 \<or> length (ua_ip a) = 16) \<and> 0 \<le> ua_port a \<and> ua_port a \<le> 65535
          \<and> ua_zone a = []) (qp_endpoint p)
     \<and> opt_all (\<lambda>d. 0 \<le> d \<and> d < 65536 * second \<and> d mod second = 0) (qp_keepalive p)"

definition wf_quick :: "quick_config \<Rightarrow> bool" where
  "wf_quick c \<longleftrightarrow> opt_all wf_key (q_private_key c)
     \<and> opt_all (\<lambda>p. 0 \<le> p \<and> p \<le> 65535) (q_listen_port c)
     \<and> opt_all (\<lambda>m. 0 \<le> m \<and> m < 2 ^ 32) (q_firewall_mark c)
     \<and> list_all canonical_net (q_addresses c)
     \<and> list_all (\<lambda>i. length i = 4 \<or> length i = 16) (q_dns c)
     \<and> 0 \<le> q_mtu c \<and> q_mtu c \<le> 65535
     \<and> (q_table c = [] \<or> plain_value (q_table c))
     \<and> list_all plain_value (q_pre_up c @ q_post_up c @ q_pre_down c @ q_post_down c)
     \<and> list_all wf_quick_peer (q_peers c)"

definition usable :: "quick_config \<Rightarrow> bool" where
  "usable c \<longleftrightarrow> \<not> (q_private_key c = None \<and> q_listen_port c = None \<and> q_firewall_mark c = None
     \<and> q_addresses c = [] \<and> q_peers c = [])"

text \<open>What is read back: addresses in sixteen bytes, and no name, which is not written.\<close>

definition quick_peer16 :: "quick_peer \<Rightarrow> quick_peer" where
  "quick_peer16 p = p\<lparr>qp_endpoint := map_option addr16 (qp_endpoint p)\<rparr>"

definition ip16 :: "ip \<Rightarrow> ip" where
  "ip16 i = (case to16 i of None \<Rightarrow> i | Some j \<Rightarrow> j)"

definition quick16 :: "quick_config \<Rightarrow> quick_config" where
  "quick16 c = c\<lparr>q_name := [], q_addresses := map net16 (q_addresses c), q_dns := map ip16 (q_dns c),
     q_peers := map quick_peer16 (q_peers c)\<rparr>"

lemma quick_names:
  "field_name ''ListenPort''" "field_name ''FwMark''" "field_name ''PrivateKey''" "field_name ''PublicKey''"
  "field_name ''PresharedKey''" "field_name ''AllowedIPs''" "field_name ''Endpoint''"
  "field_name ''PersistentKeepalive''" "field_name ''Address''" "field_name ''DNS''" "field_name ''MTU''"
  "field_name ''Table''" "field_name ''PreUp''" "field_name ''PostUp''" "field_name ''PreDown''"
  "field_name ''PostDown''" "field_name ''SaveConfig''"
  by code_simp+

lemma quick_keys:
  "to_lower ''Address'' = ''address''" "to_lower ''DNS'' = ''dns''" "to_lower ''MTU'' = ''mtu''"
  "to_lower ''Table'' = ''table''" "to_lower ''PreUp'' = ''preup''" "to_lower ''PostUp'' = ''postup''"
  "to_lower ''PreDown'' = ''predown''" "to_lower ''PostDown'' = ''postdown''"
  "to_lower ''SaveConfig'' = ''saveconfig''"
  by code_simp+

lemmas quick_fields = quick_names field_keys quick_keys

lemma quick_uint_nat_str: "n \<le> mx \<Longrightarrow> n < 2 ^ 64 \<Longrightarrow> quick_parse_uint (nat_str 10 n) mx = Inr n"
  by (simp add: quick_parse_uint_def parse_uint_nat_str)

lemma nat_str_not_off: "nat_str 10 n \<noteq> ''off''"
  using hd_nat_str_dec [of n] by auto

lemma quick_fwmark_nat_str:
  assumes "n < 2 ^ 32"
  shows "quick_parse_fwmark (nat_str 10 n) = Inr n"
proof -
  have "\<not> prefix (CHR ''0'' # x # []) (nat_str 10 n)" if "x \<notin> set ''0123456789''" for x
    using nat_str_no_char [OF that, of n] by (auto dest!: set_mono_prefix)
  then show ?thesis using assms nat_str_not_off [of n]
    by (simp add: quick_parse_fwmark_def parse_uint_nat_str)
qed

lemma keepalive_str:
  assumes "0 \<le> d" "d < 65536 * second" "d mod second = 0"
  shows "plain_value (keepalive_str d) \<and> parse_keepalive (keepalive_str d) = Inr d"
proof (cases "d = 0")
  case True
  have "plain_value ''off''" by code_simp
  then show ?thesis using True by (simp add: keepalive_str_def parse_keepalive_def)
next
  case False
  have s: "tdiv d second = d div second"
    using assms(1) False by (simp add: tdiv_def second_def sgn_if)
  have b: "0 \<le> d div second" "d div second \<le> 65535"
    using keepalive_seconds [OF assms(1,2)] s by auto
  have "int (nat (d div second)) * second = d"
    using b(1) assms(3) div_mult_mod_eq [of d second] by simp
  then show ?thesis
    using False b dec_plain [of "nat (d div second)"] nat_str_not_off
    by (simp add: keepalive_str_def parse_keepalive_def int_seconds_def s int_str_nat quick_uint_nat_str)
qed

lemma udp_plain:
  assumes "length (ua_ip a) = 4 \<or> length (ua_ip a) = 16" and "ua_zone a = []"
  shows "plain_value (udp_addr_str a)"
proof (rule plain_valueI)
  have ne: "ua_ip a \<noteq> []" using assms(1) by auto
  have str: "udp_addr_str a = join_host_port (ip_str (ua_ip a)) (itoa (ua_port a))"
    using ne assms(2) by (simp add: udp_addr_str_def)
  show "udp_addr_str a \<noteq> []" by (simp add: str join_host_port_def)
  have "list_all (\<lambda>c. graph c \<and> c \<noteq> CHR ''#'') ''[]:-0123456789''" by code_simp
  moreover have "set (udp_addr_str a) \<subseteq> set ''[]:-0123456789'' \<union> set (ip_str (ua_ip a))"
    unfolding str using itoa_no_char [of _ "ua_port a"]
    by (fastforce simp: join_host_port_def split: if_splits)
  moreover have "\<forall>c \<in> set (ip_str (ua_ip a)). graph c \<and> c \<noteq> CHR ''#''"
    using ip_item [OF assms(1)] by (simp add: list_item_def list_all_iff)
  ultimately show "graph c \<and> c \<noteq> CHR ''#''" if "c \<in> set (udp_addr_str a)" for c
    using that unfolding list_all_iff by blast
qed


text \<open>One segment of the text after the other.\<close>

lemma seg_opt:
  assumes "\<And>x. v = Some x \<Longrightarrow> quick_parse_line rs n (kv f (str x)) st = Inr st'"
    and "v = None \<Longrightarrow> st' = st"
  shows "quick_parse_lines rs n (opt_field f str v) st = Inr st'"
  using assms by (cases v) (simp_all add: opt_field_def)

lemma seg_if:
  "\<lbrakk>b \<Longrightarrow> quick_parse_line rs n l st = Inr st'; \<not> b \<Longrightarrow> st' = st\<rbrakk> \<Longrightarrow>
   quick_parse_lines rs n (if b then [l] else []) st = Inr st'"
  by (cases b) simp_all

lemma seg_private_key:
  "opt_all wf_key v \<Longrightarrow> quick_parse_lines rs n (opt_field ''PrivateKey'' key_str v) (qin_interface c) =
     Inr (qin_interface (if v = None then c else c\<lparr>q_private_key := v\<rparr>))"
  by (rule seg_opt; cases v)
     (auto intro!: quick_interface_line simp: quick_fields key_plain quick_parse_interface_def quick_field_def)

lemma seg_listen_port:
  "opt_all (\<lambda>p. 0 \<le> p \<and> p \<le> 65535) v \<Longrightarrow>
   quick_parse_lines rs n (opt_field ''ListenPort'' (int_str 10) v) (qin_interface c) =
     Inr (qin_interface (if v = None then c else c\<lparr>q_listen_port := v\<rparr>))"
  by (rule seg_opt; cases v)
     (auto intro!: quick_interface_line simp: quick_fields dec_plain quick_parse_interface_def quick_field_def
        int_str_nat quick_uint_nat_str)

lemma seg_fwmark:
  "opt_all (\<lambda>m. 0 \<le> m \<and> m < 2 ^ 32) v \<Longrightarrow>
   quick_parse_lines rs n (opt_field ''FwMark'' (int_str 10) v) (qin_interface c) =
     Inr (qin_interface (if v = None then c else c\<lparr>q_firewall_mark := v\<rparr>))"
  by (rule seg_opt; cases v)
     (auto intro!: quick_interface_line simp: quick_fields dec_plain quick_parse_interface_def quick_field_def
        int_str_nat quick_fwmark_nat_str nat_less_iff)

lemma parse_addresses_str:
  "list_all canonical_net as \<Longrightarrow> parse_addresses (join '', '' (map ip_net_str as)) = Inr (map net16 as)"
proof -
  assume as: "list_all canonical_net as"
  then have "list_all list_item (map ip_net_str as)" using net_item by (simp add: list_all_iff)
  moreover have "map_res ((\<lambda>p. bind_res (parse_cidr p) (\<lambda>(i, n). Inr \<lparr>net_ip = i, net_mask = net_mask n\<rparr>)) \<circ> ip_net_str) as
      = Inr (map net16 as)"
    using as by (intro map_res_all_ok) (simp add: list_all_iff parse_cidr_ip_net_str net16_def)
  ultimately show ?thesis by (simp add: parse_addresses_def parse_list_join)
qed

lemma seg_address:
  assumes "list_all canonical_net as"
  shows "quick_parse_lines rs n (if as \<noteq> [] then write_ip_net_list ''Address'' as else []) (qin_interface c) =
     Inr (qin_interface (c\<lparr>q_addresses := q_addresses c @ map net16 as\<rparr>))"
proof -
  have "as \<noteq> [] \<Longrightarrow> plain_value (join '', '' (map ip_net_str as))"
    using assms net_item by (intro join_plain) (auto simp: list_all_iff)
  then show ?thesis
    unfolding write_ip_net_list_def
    by (intro seg_if) (auto intro!: quick_interface_line
        simp: quick_fields quick_parse_interface_def quick_field_def parse_addresses_str [OF assms])
qed

lemma seg_dns:
  assumes "list_all (\<lambda>i. length i = 4 \<or> length i = 16) is"
  shows "quick_parse_lines rs n (if is \<noteq> [] then [kv ''DNS'' (join '', '' (map ip_str is))] else []) (qin_interface c) =
     Inr (qin_interface (c\<lparr>q_dns := q_dns c @ map ip16 is\<rparr>))"
proof -
  have item: "list_all list_item (map ip_str is)" using assms ip_item by (simp add: list_all_iff)
  have ip: "parse_ip (ip_str i) = Some (ip16 i)" if "length i = 4 \<or> length i = 16" for i
    using parse_ip_ip_str [OF that] to16_length [OF that] by (auto simp: ip16_def)
  have "map_res ((\<lambda>p. case parse_ip p of None \<Rightarrow> Inl (ErrText ''invalid IP'') | Some i \<Rightarrow> Inr i) \<circ> ip_str) is
      = Inr (map ip16 is)"
    using assms by (intro map_res_all_ok) (simp add: list_all_iff ip)
  then have "parse_ips (join '', '' (map ip_str is)) = Inr (map ip16 is)"
    using item by (simp add: parse_ips_def parse_list_join)
  moreover have "is \<noteq> [] \<Longrightarrow> plain_value (join '', '' (map ip_str is))" using item by (intro join_plain) auto
  ultimately show ?thesis
    by (intro seg_if) (auto intro!: quick_interface_line simp: quick_fields quick_parse_interface_def quick_field_def)
qed

lemma seg_mtu:
  "0 \<le> m \<Longrightarrow> m \<le> 65535 \<Longrightarrow>
   quick_parse_lines rs n (if 0 < m then [kv ''MTU'' (int_str 10 m)] else []) (qin_interface c) =
     Inr (qin_interface (if 0 < m then c\<lparr>q_mtu := m\<rparr> else c))"
  by (rule seg_if)
     (auto intro!: quick_interface_line simp: quick_fields dec_plain quick_parse_interface_def quick_field_def
        int_str_nat quick_uint_nat_str)

lemma seg_table:
  "t = [] \<or> plain_value t \<Longrightarrow>
   quick_parse_lines rs n (if t \<noteq> [] then [kv ''Table'' t] else []) (qin_interface c) =
     Inr (qin_interface (if t \<noteq> [] then c\<lparr>q_table := t\<rparr> else c))"
  by (rule seg_if) (auto intro!: quick_interface_line simp: quick_fields quick_parse_interface_def)

lemma seg_save_config:
  "quick_parse_lines rs n (if b then [kv ''SaveConfig'' ''true''] else []) (qin_interface c) =
     Inr (qin_interface (if b then c\<lparr>q_save_config := True\<rparr> else c))"
proof (rule seg_if)
  have "plain_value ''true''" "parse_bool ''true'' = Inr True" by code_simp+
  then show "b \<Longrightarrow> quick_parse_line rs n (kv ''SaveConfig'' ''true'') (qin_interface c) =
      Inr (qin_interface (if b then c\<lparr>q_save_config := True\<rparr> else c))"
    by (auto intro!: quick_interface_line simp: quick_fields quick_parse_interface_def quick_field_def)
qed simp

text \<open>The hooks, one line each.\<close>

lemma seg_hooks:
  assumes "field_name f" and "list_all plain_value hs"
    and "\<And>v c. quick_parse_interface (to_lower f) v c = Inr (upd v c)"
  shows "quick_parse_lines rs n (map (kv f) hs) (qin_interface c) = Inr (qin_interface (fold upd hs c))"
  using assms(2)
proof (induction hs arbitrary: n c)
  case (Cons h hs)
  then have "quick_parse_line rs n (kv f h) (qin_interface c) = Inr (qin_interface (upd h c))"
    using assms(1,3) by (intro quick_interface_line) auto
  then show ?case using Cons by simp
qed simp

lemma fold_hooks:
  "fold (\<lambda>v c. c\<lparr>q_pre_up := q_pre_up c @ [v]\<rparr>) hs c = c\<lparr>q_pre_up := q_pre_up c @ hs\<rparr>"
  "fold (\<lambda>v c. c\<lparr>q_post_up := q_post_up c @ [v]\<rparr>) hs c = c\<lparr>q_post_up := q_post_up c @ hs\<rparr>"
  "fold (\<lambda>v c. c\<lparr>q_pre_down := q_pre_down c @ [v]\<rparr>) hs c = c\<lparr>q_pre_down := q_pre_down c @ hs\<rparr>"
  "fold (\<lambda>v c. c\<lparr>q_post_down := q_post_down c @ [v]\<rparr>) hs c = c\<lparr>q_post_down := q_post_down c @ hs\<rparr>"
  by (induction hs arbitrary: c) simp_all

lemma seg_hook_lines:
  assumes "list_all plain_value hs"
  shows
    "quick_parse_lines rs n (map (kv ''PreUp'') hs) (qin_interface c) = Inr (qin_interface (c\<lparr>q_pre_up := q_pre_up c @ hs\<rparr>))"
    "quick_parse_lines rs n (map (kv ''PostUp'') hs) (qin_interface c) = Inr (qin_interface (c\<lparr>q_post_up := q_post_up c @ hs\<rparr>))"
    "quick_parse_lines rs n (map (kv ''PreDown'') hs) (qin_interface c) = Inr (qin_interface (c\<lparr>q_pre_down := q_pre_down c @ hs\<rparr>))"
    "quick_parse_lines rs n (map (kv ''PostDown'') hs) (qin_interface c) = Inr (qin_interface (c\<lparr>q_post_down := q_post_down c @ hs\<rparr>))"
  using assms
    seg_hooks [of "''PreUp''" hs "\<lambda>v c. c\<lparr>q_pre_up := q_pre_up c @ [v]\<rparr>"]
    seg_hooks [of "''PostUp''" hs "\<lambda>v c. c\<lparr>q_post_up := q_post_up c @ [v]\<rparr>"]
    seg_hooks [of "''PreDown''" hs "\<lambda>v c. c\<lparr>q_pre_down := q_pre_down c @ [v]\<rparr>"]
    seg_hooks [of "''PostDown''" hs "\<lambda>v c. c\<lparr>q_post_down := q_post_down c @ [v]\<rparr>"]
  by (simp_all add: quick_fields quick_parse_interface_def fold_hooks)

text \<open>The lines of a peer.\<close>

lemma parse_networks_str:
  assumes "list_all (\<lambda>n. canonical_net n \<and> ip_masked (net_ip n) (net_mask n) = net_ip n) ns"
  shows "parse_networks (join '', '' (map ip_net_str ns)) = Inr ns"
proof -
  have "list_all list_item (map ip_net_str ns)" using assms net_item by (simp add: list_all_iff)
  moreover have "map_res ((\<lambda>p. bind_res (parse_cidr p) (\<lambda>(i, n). Inr n)) \<circ> ip_net_str) ns = Inr (map id ns)"
    using assms by (intro map_res_all_ok) (simp add: list_all_iff parse_cidr_ip_net_str ip_masked_net16)
  ultimately show ?thesis by (simp add: parse_networks_def parse_list_join)
qed

lemma seg_public_key:
  "wf_key k \<Longrightarrow> quick_parse_line rs n (kv ''PublicKey'' (key_str k)) (qin_peer c ps p) =
     Inr (qin_peer c ps (p\<lparr>qp_public_key := k\<rparr>))"
  by (rule quick_peer_line) (simp_all add: quick_fields key_plain quick_parse_peer_def quick_field_def)

lemma seg_preshared_key:
  "opt_all wf_key v \<Longrightarrow> quick_parse_lines rs n (opt_field ''PresharedKey'' key_str v) (qin_peer c ps p) =
     Inr (qin_peer c ps (if v = None then p else p\<lparr>qp_preshared_key := v\<rparr>))"
  by (rule seg_opt; cases v)
     (auto intro!: quick_peer_line simp: quick_fields key_plain quick_parse_peer_def quick_field_def)

lemma seg_allowed_ips:
  assumes "list_all (\<lambda>n. canonical_net n \<and> ip_masked (net_ip n) (net_mask n) = net_ip n) ns"
  shows "quick_parse_lines rs n (if ns \<noteq> [] then write_ip_net_list ''AllowedIPs'' ns else []) (qin_peer c ps p) =
     Inr (qin_peer c ps (p\<lparr>qp_allowed_ips := qp_allowed_ips p @ ns\<rparr>))"
proof -
  have "ns \<noteq> [] \<Longrightarrow> plain_value (join '', '' (map ip_net_str ns))"
    using assms net_item by (intro join_plain) (auto simp: list_all_iff)
  then show ?thesis
    unfolding write_ip_net_list_def
    by (intro seg_if) (auto intro!: quick_peer_line
        simp: quick_fields quick_parse_peer_def quick_field_def parse_networks_str [OF assms])
qed

lemma seg_quick_endpoint:
  assumes "opt_all (\<lambda>a. (length (ua_ip a) = 4 \<or> length (ua_ip a) = 16) \<and> 0 \<le> ua_port a \<and> ua_port a \<le> 65535
          \<and> ua_zone a = []) v"
  shows "quick_parse_lines rs n (opt_field ''Endpoint'' udp_addr_str v) (qin_peer c ps p) =
     Inr (qin_peer c ps (if v = None then p else p\<lparr>qp_endpoint := map_option addr16 v\<rparr>))"
proof (rule seg_opt)
  fix a assume v: "v = Some a"
  then have len: "length (ua_ip a) = 4 \<or> length (ua_ip a) = 16" and a: "0 \<le> ua_port a" "ua_port a \<le> 65535" "ua_zone a = []"
    using assms by simp_all
  have "resolve_udp_addr rs (udp_addr_str a) = Inr (addr16 a)"
    using resolve_udp_addr_str [OF len a] to16_length [OF len] by (auto simp: addr16_def)
  then show "quick_parse_line rs n (kv ''Endpoint'' (udp_addr_str a)) (qin_peer c ps p) =
     Inr (qin_peer c ps (if v = None then p else p\<lparr>qp_endpoint := map_option addr16 v\<rparr>))"
    using v udp_plain [OF len a(3)]
    by (intro quick_peer_line) (simp_all add: quick_fields quick_parse_peer_def quick_field_def)
qed simp

lemma seg_keepalive:
  "opt_all (\<lambda>d. 0 \<le> d \<and> d < 65536 * second \<and> d mod second = 0) v \<Longrightarrow>
   quick_parse_lines rs n (opt_field ''PersistentKeepalive'' keepalive_str v) (qin_peer c ps p) =
     Inr (qin_peer c ps (if v = None then p else p\<lparr>qp_keepalive := v\<rparr>))"
  by (rule seg_opt; cases v)
     (auto intro!: quick_peer_line simp: quick_fields keepalive_str quick_parse_peer_def quick_field_def)

lemma quick_peer_lines:
  assumes p: "wf_quick_peer p"
  shows "quick_parse_lines rs n (write_peer p) st =
    Inr (qin_peer (qs_cfg st) (q_peers (qs_cfg st)) (quick_peer16 p))"
proof -
  have wf: "wf_key (qp_public_key p)" "opt_all wf_key (qp_preshared_key p)"
    "list_all (\<lambda>n. canonical_net n \<and> ip_masked (net_ip n) (net_mask n) = net_ip n) (qp_allowed_ips p)"
    "opt_all (\<lambda>a. (length (ua_ip a) = 4 \<or> length (ua_ip a) = 16) \<and> 0 \<le> ua_port a \<and> ua_port a \<le> 65535
          \<and> ua_zone a = []) (qp_endpoint p)"
    "opt_all (\<lambda>d. 0 \<le> d \<and> d < 65536 * second \<and> d mod second = 0) (qp_keepalive p)"
    using p by (simp_all add: wf_quick_peer_def)
  have start: "quick_parse_line rs n ''[Peer]'' st = Inr (qin_peer (qs_cfg st) (q_peers (qs_cfg st)) zero_quick_peer)" for n
    by (simp add: quick_section_lines qin_peer_def)
  show ?thesis
    unfolding write_peer_def append.simps quick_parse_lines.simps quick_section_lines(3) bind_res_simps start
      seg_public_key [OF wf(1)] quick_parse_lines_append seg_preshared_key [OF wf(2)] seg_allowed_ips [OF wf(3)]
      seg_quick_endpoint [OF wf(4)] seg_keepalive [OF wf(5)]
    by (cases p) (simp add: quick_peer16_def zero_quick_peer_def)
qed

lemma quick_peers_lines:
  assumes "list_all wf_quick_peer ps"
  shows "\<exists>st'. quick_parse_lines rs n (concat (map write_peer ps)) st = Inr st' \<and>
     qs_cfg st' = (qs_cfg st)\<lparr>q_peers := q_peers (qs_cfg st) @ map quick_peer16 ps\<rparr>"
  using assms
proof (induction ps arbitrary: n st)
  case (Cons p ps)
  let ?st = "qin_peer (qs_cfg st) (q_peers (qs_cfg st)) (quick_peer16 p)"
  obtain st' where "quick_parse_lines rs (n + length (write_peer p)) (concat (map write_peer ps)) ?st = Inr st'"
      "qs_cfg st' = (qs_cfg ?st)\<lparr>q_peers := q_peers (qs_cfg ?st) @ map quick_peer16 ps\<rparr>"
    using Cons.IH Cons.prems by fastforce
  then show ?case using Cons.prems
    by (intro exI [of _ st']) (simp add: quick_parse_lines_append quick_peer_lines, simp add: qin_peer_def)
qed simp

text \<open>The interface section, and no line with a control character.\<close>

lemma quick_interface_lines:
  assumes c: "wf_quick c"
  shows "quick_parse_lines rs n ([''[Interface]''] @ write_interface_crypto c
     @ (if q_addresses c \<noteq> [] then write_ip_net_list ''Address'' (q_addresses c) else [])
     @ (if q_dns c \<noteq> [] then [kv ''DNS'' (join '', '' (map ip_str (q_dns c)))] else [])
     @ (if 0 < q_mtu c then [kv ''MTU'' (int_str 10 (q_mtu c))] else [])
     @ (if q_table c \<noteq> [] then [kv ''Table'' (q_table c)] else [])
     @ map (kv ''PreUp'') (q_pre_up c) @ map (kv ''PostUp'') (q_post_up c)
     @ map (kv ''PreDown'') (q_pre_down c) @ map (kv ''PostDown'') (q_post_down c)
     @ (if q_save_config c then [kv ''SaveConfig'' ''true''] else []) @ rest) quick_init =
    quick_parse_lines rs (n + length (quick_lines (c\<lparr>q_peers := []\<rparr>))) rest
      (qin_interface ((quick16 c)\<lparr>q_peers := []\<rparr>))"
proof -
  have wf: "opt_all wf_key (q_private_key c)" "opt_all (\<lambda>p. 0 \<le> p \<and> p \<le> 65535) (q_listen_port c)"
     "opt_all (\<lambda>m. 0 \<le> m \<and> m < 2 ^ 32) (q_firewall_mark c)" "list_all canonical_net (q_addresses c)"
     "list_all (\<lambda>i. length i = 4 \<or> length i = 16) (q_dns c)" "0 \<le> q_mtu c" "q_mtu c \<le> 65535"
     "q_table c = [] \<or> plain_value (q_table c)" "list_all plain_value (q_pre_up c)"
     "list_all plain_value (q_post_up c)" "list_all plain_value (q_pre_down c)" "list_all plain_value (q_post_down c)"
    using c by (simp_all add: wf_quick_def)
  have start: "quick_parse_line rs n ''[Interface]'' quick_init = Inr (qin_interface zero_quick)" for n
    by (simp add: quick_section_lines quick_init_def qin_interface_def)
  have mtu: "\<not> 0 < q_mtu c \<Longrightarrow> q_mtu c = 0" using wf(6) by simp
  show ?thesis
    unfolding write_interface_crypto_def quick_lines_def append_assoc
      quick_parse_lines_append quick_parse_lines_one start bind_res_simps
      seg_private_key [OF wf(1)] seg_listen_port [OF wf(2)] seg_fwmark [OF wf(3)] seg_address [OF wf(4)]
      seg_dns [OF wf(5)] seg_mtu [OF wf(6,7)] seg_table [OF wf(8)] seg_hook_lines(1) [OF wf(9)]
      seg_hook_lines(2) [OF wf(10)] seg_hook_lines(3) [OF wf(11)] seg_hook_lines(4) [OF wf(12)] seg_save_config
    by (rule arg_cong2 [of _ _ _ _ "\<lambda>n st. quick_parse_lines rs n rest st"], simp, rule arg_cong [of _ _ qin_interface])
       (use mtu in \<open>cases c; simp add: quick16_def zero_quick_def\<close>)
qed

definition printable :: "string \<Rightarrow> bool" where
  "printable l \<longleftrightarrow> list_all (\<lambda>c. graph c \<or> c = CHR 0x20) l"

lemma kv_printable: "field_name f \<Longrightarrow> plain_value v \<Longrightarrow> printable (kv f v)"
  by (auto simp: printable_def kv_def field_name_def plain_value_def value_text_def list_all_iff graph_def between_def)

lemma opt_field_printable:
  "field_name f \<Longrightarrow> opt_all (\<lambda>x. plain_value (str x)) v \<Longrightarrow> list_all printable (opt_field f str v)"
  by (cases v) (simp_all add: opt_field_def kv_printable)

lemma opt_all_mono: "opt_all P v \<Longrightarrow> (\<And>x. P x \<Longrightarrow> Q x) \<Longrightarrow> opt_all Q v"
  by (cases v) auto

lemma nets_printable:
  "field_name f \<Longrightarrow> list_all canonical_net ns \<Longrightarrow>
   list_all printable (if ns \<noteq> [] then write_ip_net_list f ns else [])"
  using net_item by (auto simp: write_ip_net_list_def list_all_iff intro!: kv_printable join_plain)

lemma write_peer_printable:
  assumes p: "wf_quick_peer p"
  shows "list_all printable (write_peer p)"
proof -
  have "printable []" "printable ''[Peer]''" by code_simp+
  moreover have "printable (kv ''PublicKey'' (key_str (qp_public_key p)))"
    using p key_plain by (auto simp: wf_quick_peer_def intro!: kv_printable quick_names)
  moreover have "list_all printable (opt_field ''PresharedKey'' key_str (qp_preshared_key p))"
    using p key_plain by (auto simp: wf_quick_peer_def intro!: opt_field_printable quick_names elim!: opt_all_mono)
  moreover have "list_all printable (if qp_allowed_ips p \<noteq> [] then write_ip_net_list ''AllowedIPs'' (qp_allowed_ips p) else [])"
    using p by (intro nets_printable quick_names) (simp add: wf_quick_peer_def list_all_iff)
  moreover have "list_all printable (opt_field ''Endpoint'' udp_addr_str (qp_endpoint p))"
    using p udp_plain by (auto simp: wf_quick_peer_def intro!: opt_field_printable quick_names elim!: opt_all_mono)
  moreover have "list_all printable (opt_field ''PersistentKeepalive'' keepalive_str (qp_keepalive p))"
    using p keepalive_str by (auto simp: wf_quick_peer_def intro!: opt_field_printable quick_names elim!: opt_all_mono)
  ultimately show ?thesis by (simp only: write_peer_def list_all_append list.pred_inject append.simps simp_thms)
qed

lemma crypto_printable:
  assumes c: "wf_quick c"
  shows "list_all printable (write_interface_crypto c)"
proof -
  have "list_all printable (opt_field ''PrivateKey'' key_str (q_private_key c))"
    using c key_plain by (auto simp: wf_quick_def intro!: opt_field_printable quick_names elim!: opt_all_mono)
  moreover have "list_all printable (opt_field ''ListenPort'' (int_str 10) (q_listen_port c))"
    "list_all printable (opt_field ''FwMark'' (int_str 10) (q_firewall_mark c))"
    using c dec_plain by (auto simp: wf_quick_def int_str_nat intro!: opt_field_printable quick_names elim!: opt_all_mono)
  ultimately show ?thesis by (simp add: write_interface_crypto_def)
qed

lemma quick_lines_printable:
  assumes c: "wf_quick c"
  shows "list_all printable (quick_lines c)"
proof -
  have hooks: "list_all plain_value hs \<Longrightarrow> field_name f \<Longrightarrow> list_all printable (map (kv f) hs)" for hs f
    by (auto simp: list_all_iff intro: kv_printable)
  have fixed: "printable ''[Interface]''" "plain_value ''true''" by code_simp+
  have dns: "q_dns c \<noteq> [] \<Longrightarrow> printable (kv ''DNS'' (join '', '' (map ip_str (q_dns c))))"
    using c ip_item by (auto simp: wf_quick_def list_all_iff intro!: kv_printable quick_names join_plain)
  have mtu: "printable (kv ''MTU'' (int_str 10 (q_mtu c)))"
    using c dec_plain by (simp add: wf_quick_def int_str_nat kv_printable quick_names)
  have table: "q_table c \<noteq> [] \<Longrightarrow> printable (kv ''Table'' (q_table c))"
    using c by (auto simp: wf_quick_def intro!: kv_printable quick_names)
  have "list_all printable (map (kv ''PreUp'') (q_pre_up c))" "list_all printable (map (kv ''PostUp'') (q_post_up c))"
    "list_all printable (map (kv ''PreDown'') (q_pre_down c))" "list_all printable (map (kv ''PostDown'') (q_post_down c))"
    using c by (auto simp: wf_quick_def intro!: hooks quick_names)
  moreover have "list_all printable (concat (map write_peer (q_peers c)))"
    using c write_peer_printable by (auto simp: wf_quick_def list_all_iff)
  moreover have "list_all printable (if q_addresses c \<noteq> [] then write_ip_net_list ''Address'' (q_addresses c) else [])"
    using c by (intro nets_printable quick_names) (simp add: wf_quick_def)
  ultimately show ?thesis
    using fixed dns mtu table crypto_printable [OF c]
    by (simp add: quick_lines_def kv_printable quick_names)
qed

lemma printable_scan:
  assumes "list_all printable ls" and "\<forall>l \<in> set ls. length l < max_line"
  shows "scan_lines max_line \<lparr>rd_data = unlines ls, rd_err = e\<rparr> = (ls, e)"
proof (rule scan_lines_unlines)
  fix l assume l: "l \<in> set ls"
  have "\<not> graph (CHR 0x0A)" "\<not> graph (CHR 0x0D)" by (simp_all add: graph_def between_def)
  then show "CHR 0x0A \<notin> set l \<and> CHR 0x0D \<notin> set l \<and> length l < max_line"
    using assms l by (auto simp: list_all_iff printable_def)
qed

lemma quick_round_trip:
  assumes c: "wf_quick c" and "usable c" and "\<forall>l \<in> set (quick_lines c). length l < max_line"
  shows "quick_parse rs \<lparr>rd_data = quick_encode c, rd_err = None\<rparr> = Inr (quick16 c)"
proof -
  let ?n = "1 + length (quick_lines (c\<lparr>q_peers := []\<rparr>))" and ?st = "qin_interface ((quick16 c)\<lparr>q_peers := []\<rparr>)"
  have peers: "list_all wf_quick_peer (q_peers c)" using c by (simp add: wf_quick_def)
  obtain st' where st': "quick_parse_lines rs ?n (concat (map write_peer (q_peers c))) ?st = Inr st'"
      "qs_cfg st' = (qs_cfg ?st)\<lparr>q_peers := q_peers (qs_cfg ?st) @ map quick_peer16 (q_peers c)\<rparr>"
    using quick_peers_lines [OF peers] by blast
  have cfg: "qs_cfg st' = quick16 c" unfolding st'(2) by (simp add: qin_interface_def quick16_def)
  have "\<not> list_ex (\<lambda>p. qp_public_key p = zero_key) (map quick_peer16 (q_peers c))"
    using peers by (auto simp: list_ex_iff list_all_iff wf_quick_peer_def quick_peer16_def)
  then have "quick_finish None (quick16 c) = Inr (quick16 c)"
    using assms(2) by (auto simp: quick_finish_def usable_def quick16_def)
  moreover have "quick_parse_lines rs 1 (quick_lines c) quick_init = Inr st'"
    unfolding quick_lines_def [of c] quick_interface_lines [OF c] by (rule st'(1))
  ultimately show ?thesis
    using printable_scan [OF quick_lines_printable [OF c] assms(3)]
    by (simp add: quick_parse_def quick_encode_def cfg)
qed

section \<open>Properties\<close>

text \<open>
  C10. Saving and loading a wg-quick configuration: what \<open>Encode\<close> writes for a usable, well-formed
  configuration is parsed back as the same configuration, every field of it, hooks in their order
  and the network fields included; only the name is not in the file, and addresses of four bytes
  come back in sixteen.
\<close>

theorem quick_parse_encode:
  assumes "wf_quick c" and "usable c" and "\<forall>l \<in> set (quick_lines c). length l < max_line"
  shows "quick_parse rs \<lparr>rd_data = quick_encode c, rd_err = None\<rparr> = Inr (quick16 c)"
  using assms by (rule quick_round_trip)

definition quick_sample :: quick_config where
  "quick_sample = zero_quick\<lparr>q_private_key := Some (replicate 32 7), q_listen_port := Some 51820,
     q_addresses := [\<lparr>net_ip = [10, 0, 0, 2], net_mask = mask_bytes 4 24\<rparr>], q_dns := [[1, 1, 1, 1]],
     q_mtu := 1420, q_table := ''auto'', q_post_up := [''iptables -A FORWARD; echo up''],
     q_peers := [zero_quick_peer\<lparr>qp_public_key := replicate 32 1,
       qp_allowed_ips := [\<lparr>net_ip = [0, 0, 0, 0], net_mask = mask_bytes 4 0\<rparr>],
       qp_endpoint := Some \<lparr>ua_ip = [192, 0, 2, 1], ua_port = 51820, ua_zone = []\<rparr>,
       qp_keepalive := Some 0\<rparr>]\<rparr>"

lemma quick_sample_ok:
  "wf_quick quick_sample" "usable quick_sample" "list_all (\<lambda>l. length l < max_line) (quick_lines quick_sample)"
  by code_simp+

theorem quick_parse_encode_witness:
  "quick_parse (ev_resolver sample_env) \<lparr>rd_data = quick_encode quick_sample, rd_err = None\<rparr> = Inr (quick16 quick_sample)"
  by (rule quick_parse_encode [OF quick_sample_ok(1,2)]) (rule quick_sample_ok(3) [unfolded list_all_iff])

section \<open>wg-quick strip, then wg setconf\<close>

definition setconf_peer :: "quick_peer \<Rightarrow> peer_config" where
  "setconf_peer p = zero_peer_config\<lparr>pc_public_key := qp_public_key p, pc_preshared_key := qp_preshared_key p,
     pc_endpoint := map_option addr16 (qp_endpoint p), pc_keepalive := qp_keepalive p,
     pc_replace_allowed_ips := True,
     pc_allowed_ip_ops := map (\<lambda>n. \<lparr>aip_net = net16 n, aip_op = AllowedIPSet\<rparr>) (qp_allowed_ips p)\<rparr>"

definition setconf :: "quick_config \<Rightarrow> config" where
  "setconf c = \<lparr>c_private_key = Some (case q_private_key c of None \<Rightarrow> zero_key | Some k \<Rightarrow> k),
     c_listen_port = Some (case q_listen_port c of None \<Rightarrow> 0 | Some p \<Rightarrow> p),
     c_firewall_mark = Some (case q_firewall_mark c of None \<Rightarrow> 0 | Some m \<Rightarrow> m),
     c_replace_peers = True, c_peers = map setconf_peer (q_peers c)\<rparr>"

lemma conf_seg_opt:
  assumes "\<And>x. v = Some x \<Longrightarrow> parse_line ev n (kv f (str x)) st = Some (Inr st')"
    and "v = None \<Longrightarrow> st' = st"
  shows "parse_lines ev n (opt_field f str v) st = Some (Inr st')"
  using assms by (cases v) (simp_all add: opt_field_def)

lemma line_FwMark_dec:
  assumes "0 \<le> i" and "i < 2 ^ 32"
  shows "parse_line ev n (kv ''FwMark'' (int_str 10 i)) (in_interface cfg) =
     Some (Inr (in_interface (cfg\<lparr>c_firewall_mark := Some i\<rparr>)))"
proof -
  have n: "nat i \<le> 2 ^ 32 - 1" using assms by (simp add: nat_le_iff)
  have "\<not> prefix ''0x'' (nat_str 10 (nat i))"
    using nat_str_no_char [of "CHR ''x''" "nat i"] by (auto dest!: set_mono_prefix)
  then have "conf_parse_fwmark (nat_str 10 (nat i)) = Inr (nat i)"
    using conf_parse_uint_nat_str [OF n] not_off [of "nat_str 10 (nat i)"] hd_nat_str_dec [of "nat i"]
    by (simp add: conf_parse_fwmark_def)
  then show ?thesis
    using assms(1) field_names dec_value [of "nat i"]
    by (simp add: parse_line_in_interface field_keys parse_interface_field_def int_str_nat)
       (simp add: in_interface_def)
qed

lemma conf_crypto_lines:
  assumes c: "wf_quick c"
  shows "parse_lines ev n (write_interface_crypto c) (in_interface cfg) =
    Some (Inr (in_interface (cfg
      \<lparr>c_private_key := (if q_private_key c = None then c_private_key cfg else q_private_key c),
       c_listen_port := (if q_listen_port c = None then c_listen_port cfg else q_listen_port c),
       c_firewall_mark := (if q_firewall_mark c = None then c_firewall_mark cfg else q_firewall_mark c)\<rparr>)))"
proof -
  have wf: "opt_all wf_key (q_private_key c)" "opt_all (\<lambda>p. 0 \<le> p \<and> p \<le> 65535) (q_listen_port c)"
     "opt_all (\<lambda>m. 0 \<le> m \<and> m < 2 ^ 32) (q_firewall_mark c)"
    using c by (simp_all add: wf_quick_def)
  have key: "parse_lines ev n (opt_field ''PrivateKey'' key_str (q_private_key c)) (in_interface cfg) =
      Some (Inr (in_interface (cfg\<lparr>c_private_key := (if q_private_key c = None then c_private_key cfg else q_private_key c)\<rparr>)))" for n cfg
    using wf(1) by (intro conf_seg_opt) (auto simp: line_PrivateKey)
  have port: "parse_lines ev n (opt_field ''ListenPort'' (int_str 10) (q_listen_port c)) (in_interface cfg) =
      Some (Inr (in_interface (cfg\<lparr>c_listen_port := (if q_listen_port c = None then c_listen_port cfg else q_listen_port c)\<rparr>)))" for n cfg
    using wf(2) by (intro conf_seg_opt) (auto simp: line_ListenPort)
  have mark: "parse_lines ev n (opt_field ''FwMark'' (int_str 10) (q_firewall_mark c)) (in_interface cfg) =
      Some (Inr (in_interface (cfg\<lparr>c_firewall_mark := (if q_firewall_mark c = None then c_firewall_mark cfg else q_firewall_mark c)\<rparr>)))" for n cfg
    using wf(3) by (intro conf_seg_opt) (auto simp: line_FwMark_dec)
  show ?thesis
    unfolding write_interface_crypto_def parse_lines_append key bind_out_simps port mark by simp
qed

lemma line_keepalive_str:
  assumes "0 \<le> d" "d < 65536 * second" "d mod second = 0"
  shows "parse_line ev n (kv ''PersistentKeepalive'' (keepalive_str d)) (in_peer cfg ps p pks pk nm) =
     Some (Inr (in_peer cfg ps (p\<lparr>pc_keepalive := Some d\<rparr>) pks pk nm))"
proof (cases "d = 0")
  case True
  have "field_name ''PersistentKeepalive''" "value_text ''off''" "filter (\<lambda>c. \<not> blank c) ''off'' = ''off''"
    "conf_parse_uint_or_off ''off'' 65535 = Inr 0" by code_simp+
  then show ?thesis
    using True by (simp add: parse_line_in_peer field_keys parse_peer_field_def keepalive_str_def)
next
  case False
  have s: "tdiv d second = d div second"
    using assms(1) False by (simp add: tdiv_def second_def sgn_if)
  have "d div second * second = d" using assms(3) div_mult_mod_eq [of d second] by simp
  then show ?thesis
    using False keepalive_seconds [OF assms(1,2)]
    by (simp add: keepalive_str_def int_seconds_def line_PersistentKeepalive s)
qed

lemma udp_addr_str_format: "ua_ip a \<noteq> [] \<Longrightarrow> udp_addr_str a = format_endpoint a"
  by (simp add: udp_addr_str_def format_endpoint_def Let_def)

lemma conf_peer_lines:
  assumes p: "wf_quick_peer p" and ev: "resolves ev"
  shows "parse_lines ev n (write_peer p) st =
    Some (Inr (in_peer (ps_cfg st) (c_peers (ps_cfg st)) (setconf_peer p) (ps_has_public_key st) True False))"
proof -
  let ?cfg = "ps_cfg st" and ?ps = "c_peers (ps_cfg st)" and ?pks = "ps_has_public_key st"
  let ?in = "\<lambda>p pk. in_peer ?cfg ?ps p ?pks pk False"
  have wf: "wf_key (qp_public_key p)" "opt_all wf_key (qp_preshared_key p)"
    "list_all canonical_net (qp_allowed_ips p)"
    using p by (simp_all add: wf_quick_peer_def list_all_iff)
  have start: "parse_line ev n ''[Peer]'' st = Some (Inr (?in (zero_peer_config\<lparr>pc_replace_allowed_ips := True\<rparr>) False))" for n
    by (simp add: parse_line_section in_peer_def)
  have psk: "parse_lines ev n (opt_field ''PresharedKey'' key_str (qp_preshared_key p)) (?in q pk) =
      Some (Inr (?in (q\<lparr>pc_preshared_key := (if qp_preshared_key p = None then pc_preshared_key q else qp_preshared_key p)\<rparr>) pk))" for n q pk
    using wf(2) by (intro conf_seg_opt) (auto simp: line_PresharedKey)
  have ips: "parse_lines ev n (if qp_allowed_ips p \<noteq> [] then write_ip_net_list ''AllowedIPs'' (qp_allowed_ips p) else [])
      (?in q pk) = Some (Inr (?in (if qp_allowed_ips p = [] then q else q\<lparr>pc_replace_allowed_ips := True,
       pc_allowed_ip_ops := pc_allowed_ip_ops q
         @ map (\<lambda>n. \<lparr>aip_net = net16 n, aip_op = AllowedIPSet\<rparr>) (qp_allowed_ips p)\<rparr>) pk))" for n q pk
    unfolding write_ip_net_list_def nets_str_def [symmetric]
    by (rule parse_lines_if) (simp_all add: line_AllowedIPs [OF _ wf(3)])
  have ep: "parse_lines ev n (opt_field ''Endpoint'' udp_addr_str (qp_endpoint p)) (?in q pk) =
      Some (Inr (?in (q\<lparr>pc_endpoint := (if qp_endpoint p = None then pc_endpoint q else map_option addr16 (qp_endpoint p))\<rparr>) pk))" for n q pk
  proof (rule conf_seg_opt)
    fix a assume a: "qp_endpoint p = Some a"
    then have "plain_endpoint a" "ua_ip a \<noteq> []"
      using p by (auto simp: wf_quick_peer_def plain_endpoint_def zone_text_def)
    then show "parse_line ev n (kv ''Endpoint'' (udp_addr_str a)) (?in q pk) =
        Some (Inr (?in (q\<lparr>pc_endpoint := (if qp_endpoint p = None then pc_endpoint q else map_option addr16 (qp_endpoint p))\<rparr>) pk))"
      using ev a by (simp add: udp_addr_str_format line_Endpoint resolves_def)
  qed simp
  have ka: "parse_lines ev n (opt_field ''PersistentKeepalive'' keepalive_str (qp_keepalive p)) (?in q pk) =
      Some (Inr (?in (q\<lparr>pc_keepalive := (if qp_keepalive p = None then pc_keepalive q else qp_keepalive p)\<rparr>) pk))" for n q pk
    using p by (intro conf_seg_opt) (auto simp: line_keepalive_str wf_quick_peer_def)
  show ?thesis
    unfolding write_peer_def append.simps parse_lines.simps parse_line_section(3) bind_out_simps start
      line_PublicKey [OF wf(1)] parse_lines_append psk ips ep ka
    by (cases p) (auto simp: setconf_peer_def zero_peer_config_def)
qed

lemma conf_peers_lines:
  assumes "list_all wf_quick_peer ps" and "resolves ev"
  shows "\<exists>st'. parse_lines ev n (concat (map write_peer ps)) st = Some (Inr st') \<and>
     ps_cfg st' = (ps_cfg st)\<lparr>c_peers := c_peers (ps_cfg st) @ map setconf_peer ps\<rparr> \<and>
     ps_has_public_key st' = ps_has_public_key st @ replicate (length ps) True"
  using assms(1)
proof (induction ps arbitrary: n st)
  case (Cons p ps)
  let ?st = "in_peer (ps_cfg st) (c_peers (ps_cfg st)) (setconf_peer p) (ps_has_public_key st) True False"
  obtain st' where "parse_lines ev (n + length (write_peer p)) (concat (map write_peer ps)) ?st = Some (Inr st')"
      "ps_cfg st' = (ps_cfg ?st)\<lparr>c_peers := c_peers (ps_cfg ?st) @ map setconf_peer ps\<rparr>"
      "ps_has_public_key st' = ps_has_public_key ?st @ replicate (length ps) True"
    using Cons.IH Cons.prems by fastforce
  then show ?case using Cons.prems assms(2)
    by (intro exI [of _ st']) (simp add: parse_lines_append conf_peer_lines)
qed simp

lemma strip_lines_printable:
  assumes c: "wf_quick c"
  shows "list_all printable (strip_lines c)"
proof -
  have "printable ''[Interface]''" by code_simp
  moreover have "list_all printable (concat (map write_peer (q_peers c)))"
    using c write_peer_printable by (auto simp: wf_quick_def list_all_iff)
  ultimately show ?thesis using crypto_printable [OF c] by (simp add: strip_lines_def)
qed

lemma strip_setconf_lines:
  assumes c: "wf_quick c" and ev: "resolves ev"
  shows "\<exists>st. parse_lines ev 1 (strip_lines c) (init_state False) = Some (Inr st) \<and> ps_cfg st = setconf c
    \<and> ps_has_public_key st = replicate (length (q_peers c)) True"
proof -
  have peers: "list_all wf_quick_peer (q_peers c)" using c by (simp add: wf_quick_def)
  define head where "head = (if q_private_key c \<noteq> None \<or> q_listen_port c \<noteq> None \<or> q_firewall_mark c \<noteq> None
      then ''[Interface]'' # write_interface_crypto c else [])"
  obtain st where st: "parse_lines ev 1 head (init_state False) = Some (Inr st)"
      "ps_cfg st = (setconf c)\<lparr>c_peers := []\<rparr>" "ps_has_public_key st = []"
  proof (cases "q_private_key c \<noteq> None \<or> q_listen_port c \<noteq> None \<or> q_firewall_mark c \<noteq> None")
    case True
    have start: "parse_line ev n ''[Interface]'' (init_state False) = Some (Inr (in_interface (ps_cfg (init_state False))))" for n
      by (simp add: parse_line_section init_state_def in_interface_def)
    show ?thesis
      using True by (intro that) (simp_all add: head_def start conf_crypto_lines [OF c],
        simp_all add: init_state_def setconf_def zero_config_def in_interface_def split: option.splits)
  next
    case False
    then show ?thesis
      by (intro that [of "init_state False"]) (simp_all add: head_def init_state_def setconf_def zero_config_def)
  qed
  obtain st' where st': "parse_lines ev (1 + length head) (concat (map write_peer (q_peers c))) st = Some (Inr st')"
     "ps_cfg st' = (ps_cfg st)\<lparr>c_peers := c_peers (ps_cfg st) @ map setconf_peer (q_peers c)\<rparr>"
     "ps_has_public_key st' = ps_has_public_key st @ replicate (length (q_peers c)) True"
    using conf_peers_lines [OF peers ev] by blast
  have "ps_cfg st' = setconf c" unfolding st'(2) st(2) by (simp add: setconf_def)
  moreover have "strip_lines c = head @ concat (map write_peer (q_peers c))" unfolding strip_lines_def head_def ..
  ultimately show ?thesis
    using st(3) st' by (intro exI [of _ st']) (simp only: parse_lines_append st(1) bind_out_simps, simp)
qed

text \<open>
  \<open>wg-quick strip\<close> feeds \<open>wg setconf\<close>: the other package's parser accepts what \<open>Strip\<close>
  writes for any well-formed wg-quick configuration, and reads the private key, port, mark and peers
  of the configuration, with nothing of its addresses, DNS servers, table or hooks.
\<close>

theorem strip_setconf:
  assumes c: "wf_quick c" and ev: "resolves ev" and "\<forall>l \<in> set (strip_lines c). length l < max_line"
  shows "parse ev \<lparr>rd_data = quick_strip c, rd_err = None\<rparr> False = Some (Inr (setconf c))"
proof -
  obtain st where "parse_lines ev 1 (strip_lines c) (init_state False) = Some (Inr st)" "ps_cfg st = setconf c"
      "ps_has_public_key st = replicate (length (q_peers c)) True"
    using strip_setconf_lines [OF c ev] by blast
  then show ?thesis
    using printable_scan [OF strip_lines_printable [OF c] assms(3)]
    by (simp add: parse_def quick_strip_def parse_finish_def list_all_iff)
qed

theorem strip_setconf_witness:
  "parse sample_env \<lparr>rd_data = quick_strip quick_sample, rd_err = None\<rparr> False = Some (Inr (setconf quick_sample))"
proof (rule strip_setconf [OF quick_sample_ok(1) sample_ok(2)])
  have "list_all (\<lambda>l. length l < max_line) (strip_lines quick_sample)" by code_simp
  then show "\<forall>l \<in> set (strip_lines quick_sample). length l < max_line" by (simp only: list_all_iff)
qed

end
