(* ===== verification/WgQuick.thy ===== *)
theory WgQuick
  imports WgQuickConf WgCtrl OsFiles
begin

text \<open>
  internal/wgquick: bringing an interface up and down with the tools of the system
  (quick_linux.go), and saving a running interface to its configuration file (save.go).
\<close>

section \<open>Running commands\<close>

text \<open>
  The system, with a state \<open>'s\<close> that every command may change. \<open>qe_run\<close> runs a program with
  its arguments and input and gives its output; \<open>qe_look_path\<close> is \<open>exec.LookPath\<close>;
  \<open>qe_client\<close> is \<open>wgctrl.New\<close>.
\<close>

record 's quick_env =
  qe_run :: "string list \<Rightarrow> string \<Rightarrow> 's \<Rightarrow> string res \<times> 's"
  qe_look_path :: "string \<Rightarrow> 's \<Rightarrow> bool"
  qe_client :: "'s \<Rightarrow> 's client res"

definition run_command :: "'s quick_env \<Rightarrow> string list \<Rightarrow> 's \<Rightarrow> unit res \<times> 's" where
  "run_command env argv s =
     (case qe_run env argv [] s of
        (Inl e, s') \<Rightarrow> (Inl (ErrWrap (join '' '' argv) e), s')
      | (Inr out, s') \<Rightarrow> (Inr (), s'))"

text \<open>A call whose error is dropped.\<close>

definition ignore_error :: "('s \<Rightarrow> unit res \<times> 's) \<Rightarrow> 's \<Rightarrow> 's" where
  "ignore_error f s = snd (f s)"

fun run_hooks :: "'s quick_env \<Rightarrow> string list \<Rightarrow> 's \<Rightarrow> unit res \<times> 's" where
  "run_hooks env [] s = (Inr (), s)"
| "run_hooks env (h # hs) s =
     (case run_command env [''sh'', ''-c'', h] s of
        (Inl e, s') \<Rightarrow> (Inl (ErrWrap (''hook '' @ h) e), s')
      | (Inr _, s') \<Rightarrow> run_hooks env hs s')"

definition interface_exists :: "'s quick_env \<Rightarrow> string \<Rightarrow> 's \<Rightarrow> bool \<times> 's" where
  "interface_exists env name s =
     (case run_command env [''ip'', ''link'', ''show'', ''dev'', name] s of (r, s') \<Rightarrow> (is_ok r, s'))"

definition add_interface :: "'s quick_env \<Rightarrow> string \<Rightarrow> 's \<Rightarrow> unit res \<times> 's" where
  "add_interface env name = run_command env [''ip'', ''link'', ''add'', ''dev'', name, ''type'', ''wireguard'']"

definition del_interface :: "'s quick_env \<Rightarrow> string \<Rightarrow> 's \<Rightarrow> unit res \<times> 's" where
  "del_interface env name = run_command env [''ip'', ''link'', ''del'', ''dev'', name]"

definition add_address :: "'s quick_env \<Rightarrow> string \<Rightarrow> ip_net \<Rightarrow> 's \<Rightarrow> unit res \<times> 's" where
  "add_address env name n = run_command env [''ip'', ''address'', ''add'', ip_net_str n, ''dev'', name]"

definition set_mtu_up :: "'s quick_env \<Rightarrow> string \<Rightarrow> int \<Rightarrow> 's \<Rightarrow> unit res \<times> 's" where
  "set_mtu_up env name mtu =
     run_command env [''ip'', ''link'', ''set'', ''dev'', name, ''mtu'', itoa mtu, ''up'']"

definition set_link_up :: "'s quick_env \<Rightarrow> string \<Rightarrow> 's \<Rightarrow> unit res \<times> 's" where
  "set_link_up env name = run_command env [''ip'', ''link'', ''set'', ''dev'', name, ''up'']"

definition ip_family :: "ip_net \<Rightarrow> string" where
  "ip_family n = (if to4 (net_ip n) \<noteq> None then ''-4'' else ''-6'')"

definition route_exists :: "'s quick_env \<Rightarrow> string \<Rightarrow> ip_net \<Rightarrow> string \<Rightarrow> 's \<Rightarrow> bool \<times> 's" where
  "route_exists env fam n name s =
     (case qe_run env [''ip'', fam, ''route'', ''show'', ''dev'', name, ''match'', ip_net_str n] [] s of
        (Inl e, s') \<Rightarrow> (False, s')
      | (Inr out, s') \<Rightarrow> (trim_space out \<noteq> [], s'))"

definition add_route :: "'s quick_env \<Rightarrow> ip_net \<Rightarrow> string \<Rightarrow> 's \<Rightarrow> unit res \<times> 's" where
  "add_route env n name s =
     (case route_exists env (ip_family n) n name s of
        (True, s') \<Rightarrow> (Inr (), s')
      | (False, s') \<Rightarrow> run_command env [''ip'', ip_family n, ''route'', ''add'', ip_net_str n, ''dev'', name] s')"

definition add_route_table :: "'s quick_env \<Rightarrow> ip_net \<Rightarrow> string \<Rightarrow> int \<Rightarrow> 's \<Rightarrow> unit res \<times> 's" where
  "add_route_table env n name table =
     run_command env [''ip'', ip_family n, ''route'', ''add'', ip_net_str n, ''dev'', name, ''table'', itoa table]"

definition add_default_rules :: "'s quick_env \<Rightarrow> string \<Rightarrow> int \<Rightarrow> 's \<Rightarrow> unit res \<times> 's" where
  "add_default_rules env fam table s =
     and_then (run_command env [''ip'', fam, ''rule'', ''add'', ''not'', ''fwmark'', itoa table, ''table'', itoa table] s)
       (run_command env [''ip'', fam, ''rule'', ''add'', ''table'', ''main'', ''suppress_prefixlength'', ''0''])"

definition del_default_rules :: "'s quick_env \<Rightarrow> string \<Rightarrow> int \<Rightarrow> 's \<Rightarrow> 's" where
  "del_default_rules env fam table s =
     ignore_error (run_command env [''ip'', fam, ''rule'', ''del'', ''table'', ''main'', ''suppress_prefixlength'', ''0''])
       (ignore_error (run_command env [''ip'', fam, ''rule'', ''del'', ''not'', ''fwmark'', itoa table, ''table'', itoa table]) s)"

definition set_dns :: "'s quick_env \<Rightarrow> string \<Rightarrow> ip list \<Rightarrow> 's \<Rightarrow> 's" where
  "set_dns env name dns s =
     (if \<not> qe_look_path env ''resolvconf'' s then s
      else snd (qe_run env [''resolvconf'', ''-a'', ''tun.'' @ name, ''-m'', ''0'', ''-x'']
        (unlines (map (\<lambda>i. ''nameserver '' @ ip_str i) dns)) s))"

definition unset_dns :: "'s quick_env \<Rightarrow> string \<Rightarrow> 's \<Rightarrow> 's" where
  "unset_dns env name s =
     (if \<not> qe_look_path env ''resolvconf'' s then s
      else ignore_error (run_command env [''resolvconf'', ''-d'', ''tun.'' @ name]) s)"

section \<open>Up\<close>

fun add_addresses :: "'s quick_env \<Rightarrow> string \<Rightarrow> ip_net list \<Rightarrow> 's \<Rightarrow> unit res \<times> 's" where
  "add_addresses env name [] s = (Inr (), s)"
| "add_addresses env name (a # as) s = and_then (add_address env name a s) (add_addresses env name as)"

definition all_allowed_ips :: "quick_config \<Rightarrow> ip_net list" where
  "all_allowed_ips c = concat (map qp_allowed_ips (q_peers c))"

text \<open>The loop over the allowed IPs; \<open>rules\<close> are the \<open>addedRules\<close>.\<close>

fun up_routes :: "'s quick_env \<Rightarrow> quick_config \<Rightarrow> ip_net list \<Rightarrow> string list \<Rightarrow> 's \<Rightarrow> unit res \<times> string list \<times> 's" where
  "up_routes env c [] rules s = (Inr (), rules, s)"
| "up_routes env c (n # ns) rules s =
     (case route_mode c of
        RouteOff \<Rightarrow> up_routes env c ns rules s
      | RouteExplicit \<Rightarrow>
          (case add_route_table env n (q_name c) (route_table c) s of
             (Inl e, s') \<Rightarrow> (Inl e, rules, s')
           | (Inr _, s') \<Rightarrow> up_routes env c ns rules s')
      | RouteAuto \<Rightarrow>
          if is_default_route n then
            (case and_then (add_route_table env n (q_name c) (route_table c) s)
                (add_default_rules env (ip_family n) (route_table c)) of
               (Inl e, s') \<Rightarrow> (Inl e, rules, s')
             | (Inr _, s') \<Rightarrow> up_routes env c ns (rules @ [ip_family n]) s')
          else
            (case add_route env n (q_name c) s of
               (Inl e, s') \<Rightarrow> (Inl e, rules, s')
             | (Inr _, s') \<Rightarrow> up_routes env c ns rules s'))"

text \<open>The end of \<open>Up\<close>, whose deferred function takes the added rules away after an error.\<close>

definition up_finish :: "'s quick_env \<Rightarrow> quick_config \<Rightarrow> 's \<Rightarrow> unit res \<times> 's" where
  "up_finish env c s =
     (case up_routes env c (all_allowed_ips c) [] s of
        (r, rules, s1) \<Rightarrow>
          (case and_then (r, s1) (run_hooks env (q_post_up c)) of
             (Inl e, s2) \<Rightarrow> (Inl e, fold (\<lambda>fam. del_default_rules env fam (route_table c)) rules s2)
           | (Inr _, s2) \<Rightarrow> (Inr (), s2)))"

definition up_config :: "quick_config \<Rightarrow> config" where
  "up_config c =
     (if route_mode c = RouteAuto \<and> has_default_route c
      then (wire_guard_config c)\<lparr>c_firewall_mark := Some (route_table c)\<rparr> else wire_guard_config c)"

definition up_with_client :: "'s quick_env \<Rightarrow> 's client \<Rightarrow> quick_config \<Rightarrow> 's \<Rightarrow> unit res \<times> 's" where
  "up_with_client env client c s =
     (case cl_configure client (q_name c) (up_config c) s of
        (Inl e, s1) \<Rightarrow> (Inl (ErrWrap ''configure device'' e), s1)
      | (Inr _, s1) \<Rightarrow>
          and_then (add_addresses env (q_name c) (q_addresses c) s1) (\<lambda>s2.
            and_then (if 0 < q_mtu c then set_mtu_up env (q_name c) (q_mtu c) s2 else set_link_up env (q_name c) s2)
              (\<lambda>s3. up_finish env c (if q_dns c \<noteq> [] then set_dns env (q_name c) (q_dns c) s3 else s3))))"

text \<open>
  With the interface created: the deferred \<open>client.Close\<close> runs in any case, then, after an
  error, the deferred removal of the interface.
\<close>

definition up_created :: "'s quick_env \<Rightarrow> quick_config \<Rightarrow> 's \<Rightarrow> unit res \<times> 's" where
  "up_created env c s =
     (case (case qe_client env s of
              Inl e \<Rightarrow> (Inl e, s)
            | Inr client \<Rightarrow>
                (case up_with_client env client c s of (r, s1) \<Rightarrow> (r, ignore_error (cl_close client) s1))) of
        (Inl e, s2) \<Rightarrow> (Inl e, ignore_error (del_interface env (q_name c)) s2)
      | (Inr _, s2) \<Rightarrow> (Inr (), s2))"

definition quick_up :: "'s quick_env \<Rightarrow> quick_config \<Rightarrow> 's \<Rightarrow> unit res \<times> 's" where
  "quick_up env c s =
     (if q_name c = [] then (Inl (ErrText ''wgquick: interface name is empty''), s)
      else case run_hooks env (q_pre_up c) s of
        (Inl e, s1) \<Rightarrow> (Inl (ErrWrap ''PreUp'' e), s1)
      | (Inr _, s1) \<Rightarrow> and_then (add_interface env (q_name c) s1) (up_created env c))"

section \<open>Down\<close>

text \<open>Removing the rules, for the families of the default routes.\<close>

definition down_rules :: "'s quick_env \<Rightarrow> quick_config \<Rightarrow> 's \<Rightarrow> 's" where
  "down_rules env c s =
     (if route_mode c = RouteAuto \<and> has_default_route c then
        (let defaults = filter is_default_route (all_allowed_ips c);
             has4 = list_ex (\<lambda>n. to4 (net_ip n) \<noteq> None) defaults;
             has6 = list_ex (\<lambda>n. to4 (net_ip n) = None) defaults;
             s1 = (if has4 then del_default_rules env ''-4'' (route_table c) s else s)
         in if has6 then del_default_rules env ''-6'' (route_table c) s1 else s1)
      else s)"

definition quick_down :: "'s quick_env \<Rightarrow> quick_config \<Rightarrow> 's \<Rightarrow> unit res \<times> 's" where
  "quick_down env c s =
     (if q_name c = [] then (Inl (ErrText ''wgquick: interface name is empty''), s)
      else case run_hooks env (q_pre_down c) s of
        (Inl e, s1) \<Rightarrow> (Inl (ErrWrap ''PreDown'' e), s1)
      | (Inr _, s1) \<Rightarrow>
          (case interface_exists env (q_name c) (down_rules env c s1) of
             (there, s2) \<Rightarrow>
               and_then (if there then del_interface env (q_name c) s2 else (Inr (), s2))
                 (\<lambda>s3. run_hooks env (q_post_down c)
                    (if q_dns c \<noteq> [] then unset_dns env (q_name c) s3 else s3))))"

section \<open>Save\<close>

definition interface_name_from_path :: "string \<Rightarrow> string" where
  "interface_name_from_path p = trim_suffix (path_base p) (path_ext (path_base p))"

definition quick_write_file_atomic :: "os_env \<Rightarrow> string \<Rightarrow> quick_config \<Rightarrow> fs \<Rightarrow> unit res \<times> fs" where
  "quick_write_file_atomic env path c s =
     (let tmp = path @ ''.tmp''
      in and_then (os_create env True tmp s) (\<lambda>s1.
        case os_write env tmp (quick_encode c) s1 of
          (enc_err, s2) \<Rightarrow>
            (case attempt env OpClose tmp s2 (Inr (), s2) of
               (close_err, s3) \<Rightarrow>
                 (case enc_err of
                    Inl e \<Rightarrow> (Inl e, snd (os_remove env tmp s3))
                  | Inr _ \<Rightarrow>
                      (case close_err of
                         Inl e \<Rightarrow> (Inl e, snd (os_remove env tmp s3))
                       | Inr _ \<Rightarrow> os_rename env tmp path s3)))))"

text \<open>\<open>Save\<close>, with the state of the system the client talks to and the files.\<close>

definition quick_save ::
  "os_env \<Rightarrow> resolver \<Rightarrow> ('s \<Rightarrow> 's client res) \<Rightarrow> string \<Rightarrow> 's \<times> fs \<Rightarrow> unit res \<times> 's \<times> fs" where
  "quick_save env rs new_client path st =
     (case (case os_read_file env path (snd st) of
              Inr b \<Rightarrow> quick_parse rs \<lparr>rd_data = b, rd_err = None\<rparr>
            | Inl e \<Rightarrow> if os_IsNotExist e then Inr zero_quick else Inl e) of
        Inl e \<Rightarrow> (Inl e, st)
      | Inr cfg0 \<Rightarrow>
          (let cfg = cfg0\<lparr>q_name := interface_name_from_path path\<rparr>
           in case new_client (fst st) of
                Inl e \<Rightarrow> (Inl e, st)
              | Inr client \<Rightarrow>
                  (case cl_device client (q_name cfg) (fst st) of
                     (Inl e, s1) \<Rightarrow> (Inl e, ignore_error (cl_close client) s1, snd st)
                   | (Inr dev, s1) \<Rightarrow>
                       (case quick_write_file_atomic env path (quick_apply_device cfg dev) (snd st) of
                          (r, files) \<Rightarrow> (r, ignore_error (cl_close client) s1, files)))))"

section \<open>A system that runs a script\<close>

text \<open>
  The reference system: it keeps what has been done, in order; \<open>fails\<close> says what it refuses.
  It has no \<open>resolvconf\<close>, and no route exists before it is added.
\<close>

datatype event = Ran "string list" | Configured string config

definition script_run :: "(event \<Rightarrow> bool) \<Rightarrow> event \<Rightarrow> event list \<Rightarrow> unit res \<times> event list" where
  "script_run fails e s = (if fails e then (Inl (ErrText ''exit status 1''), s) else (Inr (), s @ [e]))"

definition script_client :: "(event \<Rightarrow> bool) \<Rightarrow> event list client" where
  "script_client fails = \<lparr>cl_close = (\<lambda>s. (Inr (), s)), cl_devices = (\<lambda>s. (Inr [], s)),
     cl_device = (\<lambda>n s. (Inl ErrNotExist, s)), cl_configure = (\<lambda>n cfg. script_run fails (Configured n cfg))\<rparr>"

definition script_env :: "(event \<Rightarrow> bool) \<Rightarrow> event list quick_env" where
  "script_env fails = \<lparr>qe_run = (\<lambda>argv inp s. case script_run fails (Ran argv) s of
       (Inl e, s') \<Rightarrow> (Inl e, s') | (Inr _, s') \<Rightarrow> (Inr [], s')),
     qe_look_path = (\<lambda>_ _. False), qe_client = (\<lambda>_. Inr (script_client fails))\<rparr>"

text \<open>The script of \<open>Up\<close>, and that of \<open>Down\<close>.\<close>

definition hook_event :: "string \<Rightarrow> event" where
  "hook_event h = Ran [''sh'', ''-c'', h]"

definition add_event :: "string \<Rightarrow> event" where
  "add_event name = Ran [''ip'', ''link'', ''add'', ''dev'', name, ''type'', ''wireguard'']"

definition del_event :: "string \<Rightarrow> event" where
  "del_event name = Ran [''ip'', ''link'', ''del'', ''dev'', name]"

definition rule_args :: "int \<Rightarrow> string list list" where
  "rule_args table = [[''not'', ''fwmark'', itoa table, ''table'', itoa table],
     [''table'', ''main'', ''suppress_prefixlength'', ''0'']]"

definition rule_events :: "string \<Rightarrow> string \<Rightarrow> int \<Rightarrow> event list" where
  "rule_events verb fam table = map (\<lambda>args. Ran ([''ip'', fam, ''rule'', verb] @ args)) (rule_args table)"

definition route_events :: "quick_config \<Rightarrow> ip_net \<Rightarrow> event list" where
  "route_events c n =
     (let to_table = Ran [''ip'', ip_family n, ''route'', ''add'', ip_net_str n, ''dev'', q_name c, ''table'', itoa (route_table c)]
      in case route_mode c of
           RouteOff \<Rightarrow> []
         | RouteExplicit \<Rightarrow> [to_table]
         | RouteAuto \<Rightarrow>
             if is_default_route n then to_table # rule_events ''add'' (ip_family n) (route_table c)
             else [Ran [''ip'', ip_family n, ''route'', ''show'', ''dev'', q_name c, ''match'', ip_net_str n],
                   Ran [''ip'', ip_family n, ''route'', ''add'', ip_net_str n, ''dev'', q_name c]])"

definition up_script :: "quick_config \<Rightarrow> event list" where
  "up_script c =
     map hook_event (q_pre_up c) @ [add_event (q_name c), Configured (q_name c) (up_config c)]
     @ map (\<lambda>a. Ran [''ip'', ''address'', ''add'', ip_net_str a, ''dev'', q_name c]) (q_addresses c)
     @ [Ran ([''ip'', ''link'', ''set'', ''dev'', q_name c]
          @ (if 0 < q_mtu c then [''mtu'', itoa (q_mtu c)] else []) @ [''up''])]
     @ concat (map (route_events c) (all_allowed_ips c)) @ map hook_event (q_post_up c)"

definition down_script :: "quick_config \<Rightarrow> event list" where
  "down_script c =
     map hook_event (q_pre_down c)
     @ (if route_mode c = RouteAuto
        then (if list_ex (\<lambda>n. is_default_route n \<and> to4 (net_ip n) \<noteq> None) (all_allowed_ips c)
              then rule_events ''del'' ''-4'' (route_table c) else [])
           @ (if list_ex (\<lambda>n. is_default_route n \<and> to4 (net_ip n) = None) (all_allowed_ips c)
              then rule_events ''del'' ''-6'' (route_table c) else [])
        else [])
     @ [Ran [''ip'', ''link'', ''show'', ''dev'', q_name c], del_event (q_name c)]
     @ map hook_event (q_post_down c)"

lemma run_command_script:
  "run_command (script_env fails) argv s =
     (if fails (Ran argv) then (Inl (ErrWrap (join '' '' argv) (ErrText ''exit status 1'')), s) else (Inr (), s @ [Ran argv]))"
  by (simp add: run_command_def script_env_def script_run_def)

abbreviation ok_env :: "event list quick_env" where
  "ok_env \<equiv> script_env (\<lambda>_. False)"

lemma run_hooks_ok: "run_hooks ok_env hs s = (Inr (), s @ map hook_event hs)"
  by (induction hs arbitrary: s) (simp_all add: run_command_script hook_event_def)

lemma add_addresses_ok: "add_addresses ok_env name as s =
   (Inr (), s @ map (\<lambda>a. Ran [''ip'', ''address'', ''add'', ip_net_str a, ''dev'', name]) as)"
  by (induction as arbitrary: s) (simp_all add: run_command_script add_address_def)

lemma add_route_ok: "add_route ok_env n name s = (Inr (), s
   @ [Ran [''ip'', ip_family n, ''route'', ''show'', ''dev'', name, ''match'', ip_net_str n],
      Ran [''ip'', ip_family n, ''route'', ''add'', ip_net_str n, ''dev'', name]])"
proof -
  have "qe_run ok_env argv inp s = (Inr [], s @ [Ran argv])" for argv inp s
    by (simp add: script_env_def script_run_def)
  then show ?thesis by (simp add: add_route_def route_exists_def run_command_script)
qed

lemma add_default_rules_ok: "add_default_rules ok_env fam t s = (Inr (), s @ rule_events ''add'' fam t)"
  by (simp add: add_default_rules_def run_command_script rule_events_def rule_args_def)

lemma del_default_rules_ok: "del_default_rules ok_env fam t s = s @ rule_events ''del'' fam t"
  by (simp add: del_default_rules_def ignore_error_def run_command_script rule_events_def rule_args_def)

lemma up_routes_ok:
  "\<exists>rules'. up_routes ok_env c ns rules s = (Inr (), rules', s @ concat (map (route_events c) ns))"
proof (induction ns arbitrary: rules s)
  case (Cons n ns)
  note IH = Cons.IH [of _ "s @ route_events c n"]
  show ?case
    using IH [of rules] IH [of "rules @ [ip_family n]"]
    by (cases "route_mode c"; cases "is_default_route n")
       (simp_all add: route_events_def add_route_table_def run_command_script add_default_rules_ok add_route_ok)
qed simp

section \<open>Properties of Up, Down and Save\<close>



definition sample_quick :: quick_config where
  "sample_quick = quick_sample\<lparr>q_name := ''wg0''\<rparr>"


lemma down_rules_ok:
  "down_rules ok_env c s = s @ (if route_mode c = RouteAuto
        then (if list_ex (\<lambda>n. is_default_route n \<and> to4 (net_ip n) \<noteq> None) (all_allowed_ips c)
              then rule_events ''del'' ''-4'' (route_table c) else [])
           @ (if list_ex (\<lambda>n. is_default_route n \<and> to4 (net_ip n) = None) (all_allowed_ips c)
              then rule_events ''del'' ''-6'' (route_table c) else [])
        else [])"
proof -
  have ex: "list_ex Q (filter is_default_route ns) = list_ex (\<lambda>n. is_default_route n \<and> Q n) ns" for Q ns
    by (induction ns) auto
  have has: "has_default_route c = list_ex is_default_route (all_allowed_ips c)"
    by (auto simp: has_default_route_def all_allowed_ips_def list_ex_iff)
  show ?thesis
    unfolding down_rules_def Let_def ex del_default_rules_ok has by (auto simp: list_ex_iff)
qed

lemma rule_event_iff:
  "Ran (''ip'' # fam # ''rule'' # verb # args) \<in> set (rule_events verb g t) \<longleftrightarrow> fam = g \<and> args \<in> set (rule_args t)"
  by (auto simp: rule_events_def)

lemma up_rule_iff:
  "Ran (''ip'' # fam # ''rule'' # ''add'' # args) \<in> set (up_script c) \<longleftrightarrow>
     route_mode c = RouteAuto \<and> args \<in> set (rule_args (route_table c))
     \<and> (\<exists>n \<in> set (all_allowed_ips c). is_default_route n \<and> fam = ip_family n)"
proof -
  have "Ran (''ip'' # fam # ''rule'' # ''add'' # args) \<in> set (route_events c n) \<longleftrightarrow>
      route_mode c = RouteAuto \<and> is_default_route n \<and> fam = ip_family n \<and> args \<in> set (rule_args (route_table c))" for n
    by (cases "route_mode c") (auto simp: route_events_def Let_def rule_event_iff)
  then show ?thesis by (auto simp: up_script_def hook_event_def add_event_def)
qed

lemma down_rule_iff:
  "Ran (''ip'' # fam # ''rule'' # ''del'' # args) \<in> set (down_script c) \<longleftrightarrow>
     route_mode c = RouteAuto \<and> args \<in> set (rule_args (route_table c))
     \<and> (\<exists>n \<in> set (all_allowed_ips c). is_default_route n \<and> fam = ip_family n)"
  by (auto simp: down_script_def hook_event_def del_event_def rule_event_iff ip_family_def list_ex_iff)



lemma run_hooks_trace: "set (snd (run_hooks (script_env fails) hs s)) \<subseteq> set s \<union> range hook_event"
proof (induction hs arbitrary: s)
  case (Cons h hs)
  show ?case
  proof (cases "fails (hook_event h)")
    case True
    then show ?thesis by (simp add: run_command_script hook_event_def)
  next
    case False
    then have "run_hooks (script_env fails) (h # hs) s = run_hooks (script_env fails) hs (s @ [hook_event h])"
      by (simp add: run_command_script hook_event_def)
    then show ?thesis using Cons.IH [of "s @ [hook_event h]"] by auto
  qed
qed simp

text \<open>
  C13. No interface is left behind: whatever command fails after \<open>Up\<close> has created the interface,
  the last thing it does before it returns the error is to remove the interface again.
\<close>

theorem quick_up_failed_removes:
  assumes up: "quick_up (script_env fails) c [] = (Inl e, t)" and "add_event (q_name c) \<in> set t"
    and "\<not> fails (del_event (q_name c))"
  shows "last t = del_event (q_name c)"
proof -
  let ?env = "script_env fails"
  obtain r s1 where h: "run_hooks ?env (q_pre_up c) [] = (r, s1)" by fastforce
  then have hooks: "add_event (q_name c) \<notin> set s1"
    using run_hooks_trace [of fails "q_pre_up c" "[]"] by (auto simp: hook_event_def add_event_def)
  have name: "q_name c \<noteq> []" using up assms(2) by (auto simp: quick_up_def)
  have r: "r = Inr ()" using up h hooks name assms(2) by (auto simp: quick_up_def split: sum.splits)
  have "\<not> fails (add_event (q_name c))"
    using up h r name hooks assms(2) by (auto simp: quick_up_def add_interface_def run_command_script add_event_def)
  then have "up_created ?env c (s1 @ [add_event (q_name c)]) = (Inl e, t)"
    using up h r name by (simp add: quick_up_def add_interface_def run_command_script add_event_def)
  then obtain s2 where "t = snd (del_interface ?env (q_name c) s2)"
    by (auto simp: up_created_def ignore_error_def split: sum.splits prod.splits)
  then show ?thesis using assms(3) by (simp add: del_interface_def run_command_script del_event_def)
qed

definition rule_refused :: "event \<Rightarrow> bool" where
  "rule_refused e \<longleftrightarrow> e = Ran [''ip'', ''-4'', ''rule'', ''add'', ''table'', ''main'', ''suppress_prefixlength'', ''0'']"

theorem quick_up_failed_removes_witness:
  "last (snd (quick_up (script_env rule_refused) sample_quick [])) = del_event (q_name sample_quick)"
proof -
  obtain r t where u: "quick_up (script_env rule_refused) sample_quick [] = (r, t)" by fastforce
  have "\<not> is_ok (fst (quick_up (script_env rule_refused) sample_quick []))"
    "add_event (q_name sample_quick) \<in> set (snd (quick_up (script_env rule_refused) sample_quick []))"
    "\<not> rule_refused (del_event (q_name sample_quick))" by code_simp+
  then show ?thesis using quick_up_failed_removes [of rule_refused sample_quick _ t] u by (cases r) auto
qed

text \<open>
  A rule is left behind: when the second policy rule of a default route cannot be added,
  \<open>Up\<close> returns an error but does not delete the first, because the family is noted only after
  both; the first rule, which sends unmarked traffic to an empty table, stays in the system.
\<close>

theorem quick_up_rule_leak:
  "(case quick_up (script_env rule_refused) sample_quick [] of
      (r, t) \<Rightarrow> \<not> is_ok r
        \<and> Ran [''ip'', ''-4'', ''rule'', ''add'', ''not'', ''fwmark'', ''51820'', ''table'', ''51820''] \<in> set t
        \<and> Ran [''ip'', ''-4'', ''rule'', ''del'', ''not'', ''fwmark'', ''51820'', ''table'', ''51820''] \<notin> set t)"
  by code_simp

text \<open>
  A routing table given by its name is not used: \<open>Table = main\<close>, or any other text that is
  no number, puts the configuration in the explicit mode, whose routes are to go to the table that
  is named, but they go to table 51820 (or the one of the mark).
\<close>

theorem route_table_by_name:
  assumes "q_table c \<notin> {[], ''auto'', ''off''}" and "\<not> is_ok (parse_int64 (q_table c))"
  shows "route_mode c = RouteExplicit
    \<and> route_table c = (case q_firewall_mark c of None \<Rightarrow> 51820 | Some m \<Rightarrow> m)"
  using assms by (cases "parse_int64 (q_table c)"; cases "q_firewall_mark c") (simp_all add: route_mode_def route_table_def default_table_def)

theorem route_table_by_name_witness:
  "route_mode (zero_quick\<lparr>q_table := ''main''\<rparr>) = RouteExplicit \<and> route_table (zero_quick\<lparr>q_table := ''main''\<rparr>) = 51820"
proof -
  let ?c = "zero_quick\<lparr>q_table := ''main''\<rparr>"
  have "q_table ?c \<notin> {[], ''auto'', ''off''}" by simp
  moreover have "\<not> is_ok (parse_int64 (q_table ?c))" by code_simp
  ultimately show ?thesis using route_table_by_name [of ?c] by (simp add: zero_quick_def)
qed

lemma quick_write_cases:
  assumes "quick_write_file_atomic env path c s = (r, s')"
  shows "(r = Inr () \<and> s' = (s(path @ ''.tmp'' := None))(path \<mapsto> File (quick_encode c)))
     \<or> (\<exists>e. r = Inl e \<and> (\<forall>p. p \<noteq> path @ ''.tmp'' \<longrightarrow> s' p = s p))"
  using assms
  by (auto simp: quick_write_file_atomic_def Let_def os_create_def os_write_def os_rename_def os_remove_def attempt_def
      split: option.splits node.splits if_splits)

lemma quick_save_cases:
  assumes "quick_save env rs new_client path (s, fs) = (r, s', fs')"
  shows "(r \<noteq> Inr () \<and> (\<forall>p. p \<noteq> path @ ''.tmp'' \<longrightarrow> fs' p = fs p))
    \<or> (r = Inr () \<and> (\<exists>cfg client dev s1.
         ((\<exists>b. os_read_file env path fs = Inr b \<and> quick_parse rs \<lparr>rd_data = b, rd_err = None\<rparr> = Inr cfg)
          \<or> (\<exists>e. os_read_file env path fs = Inl e \<and> cfg = zero_quick))
         \<and> new_client s = Inr client \<and> cl_device client (interface_name_from_path path) s = (Inr dev, s1)
         \<and> fs' = (fs(path @ ''.tmp'' := None))(path \<mapsto>
             File (quick_encode (quick_apply_device (cfg\<lparr>q_name := interface_name_from_path path\<rparr>) dev)))))"
proof -
  let ?parsed = "case os_read_file env path fs of
              Inr b \<Rightarrow> quick_parse rs \<lparr>rd_data = b, rd_err = None\<rparr>
            | Inl e \<Rightarrow> if os_IsNotExist e then Inr zero_quick else Inl e"
  let ?name = "interface_name_from_path path"
  show ?thesis
  proof (cases "\<exists>cfg client dev s1. ?parsed = Inr cfg \<and> new_client s = Inr client \<and> cl_device client ?name s = (Inr dev, s1)")
    case False
    then show ?thesis using assms
      by (cases ?parsed; cases "new_client s")
         (auto simp: quick_save_def Let_def split: sum.splits prod.splits if_splits)
  next
    case True
    then obtain cfg client dev s1 where ok: "?parsed = Inr cfg" "new_client s = Inr client" "cl_device client ?name s = (Inr dev, s1)"
      by blast
    let ?c = "quick_apply_device (cfg\<lparr>q_name := ?name\<rparr>) dev"
    have w: "quick_write_file_atomic env path ?c fs = (r, fs')"
      using assms ok by (auto simp: quick_save_def Let_def split: prod.splits)
    have "(\<exists>b. os_read_file env path fs = Inr b \<and> quick_parse rs \<lparr>rd_data = b, rd_err = None\<rparr> = Inr cfg)
        \<or> (\<exists>e. os_read_file env path fs = Inl e \<and> cfg = zero_quick)"
      using ok(1) by (auto split: sum.splits if_splits)
    then show ?thesis using quick_write_cases [OF w] ok(2,3) by auto
  qed
qed

lemma quick_encode_name [simp]: "quick_encode (c\<lparr>q_name := n\<rparr>) = quick_encode c"
  by (simp add: quick_encode_def quick_lines_def write_interface_crypto_def)

lemma quick_apply_device_name: "quick_apply_device (c\<lparr>q_name := n\<rparr>) d = (quick_apply_device c d)\<lparr>q_name := n\<rparr>"
  by (simp add: quick_apply_device_def)


definition running_device :: device where
  "running_device = zero_device\<lparr>d_name := ''wg0'', d_private_key := replicate 32 7, d_has_private_key := True,
     d_listen_port := 40000\<rparr>"

definition running_client :: "unit client" where
  "running_client = \<lparr>cl_close = (\<lambda>s. (Inr (), s)), cl_devices = (\<lambda>s. (Inr [running_device], s)),
     cl_device = (\<lambda>n s. (Inr running_device, s)), cl_configure = (\<lambda>n cfg s. (Inr (), s))\<rparr>"

definition calm_env :: os_env where
  "calm_env = \<lparr>os_fault = (\<lambda>op p. None), os_short = 0, os_random = id, os_getenv = (\<lambda>_. [])\<rparr>"

definition old_quick :: quick_config where
  "old_quick = zero_quick\<lparr>q_listen_port := Some 51820, q_post_up := [''echo up'']\<rparr>"


text \<open>
  A failed \<open>Save\<close> leaves the configuration file alone: whichever step fails, the file to be
  saved, and every file but the temporary one beside it, is as it was.
\<close>

theorem quick_save_failed:
  assumes "quick_save env rs new_client path (s, fs) = (Inl e, s', fs')" and "p \<noteq> path @ ''.tmp''"
  shows "fs' p = fs p"
  using quick_save_cases [OF assms(1)] assms(2) by auto

theorem quick_save_failed_witness:
  "snd (snd (quick_save (calm_env\<lparr>os_fault := \<lambda>op p. if op = OpRename then Some ErrNotExist else None\<rparr>) (ev_resolver sample_env)
     (\<lambda>_. Inr running_client) ''wg0.conf'' ((), \<lambda>_. None))) ''wg0.conf'' = None"
proof -
  let ?save = "quick_save (calm_env\<lparr>os_fault := \<lambda>op p. if op = OpRename then Some ErrNotExist else None\<rparr>) (ev_resolver sample_env)
     (\<lambda>_. Inr running_client) ''wg0.conf'' ((), \<lambda>_. None)"
  obtain r s' fs' where save: "?save = (r, s', fs')" by (cases ?save) auto
  have "\<not> is_ok (fst ?save)" by code_simp
  then obtain e where "r = Inl e" using save by (cases r) auto
  then show ?thesis using quick_save_failed [of _ _ _ "''wg0.conf''" "()" "\<lambda>_. None" e s' fs' "''wg0.conf''"] save by simp
qed

end
