(* ===== verification/WgStoreRuns.thy ===== *)
theory WgStoreRuns
  imports WgMeta
begin

text \<open>
  Several processes that update the names of peers at once (internal/wgmeta/store.go and
  lock_unix.go): \<open>Update\<close> cut into the steps between which another process may run. Everything
  between the lock and its release runs with the lock of the file held; the mutex inside of a
  process, \<open>processMu\<close>, admits only some of the orders below.
\<close>

section \<open>One process\<close>

text \<open>
  Where a call of \<open>Update\<close> is: before it, the lock file open, the lock held, the new document
  made, the temporary file created, and returned.
\<close>

datatype phase =
    Start
  | Opened string
  | Locked string
  | Loaded string file_data
  | Temp string string string
  | Done "unit res"

type_synonym job = "string \<times> (peer_names \<Rightarrow> peer_names)"

definition open_lock :: "os_env \<Rightarrow> string \<Rightarrow> fs \<Rightarrow> unit res \<times> fs" where
  "open_lock env path s = and_then (os_mkdir_all env (path_dir path) s) (os_create env False path)"

definition phase_of :: "('a \<Rightarrow> phase) \<Rightarrow> 'a res \<times> fs \<Rightarrow> phase \<times> fs" where
  "phase_of k r = (case r of (Inl e, s) \<Rightarrow> (Done (Inl e), s) | (Inr x, s) \<Rightarrow> (k x, s))"

fun update_step :: "os_env \<Rightarrow> string \<Rightarrow> job \<Rightarrow> phase \<Rightarrow> fs \<Rightarrow> phase \<times> fs" where
  "update_step env d (iface, f) Start s =
     (let path = resolve_file env d iface s in phase_of (\<lambda>_. Opened path) (open_lock env (path @ ''.lock'') s))"
| "update_step env d (iface, f) (Opened path) s =
     phase_of (\<lambda>_. Locked path) (attempt env OpLock (path @ ''.lock'') s (Inr (), s))"
| "update_step env d (iface, f) (Locked path) s =
     phase_of (Loaded path) (bind_res (meta_read env path s) (\<lambda>data. bind_res (decode_names (fd_names data))
       (\<lambda>names. Inr (data\<lparr>fd_names := encode_names (f names)\<rparr>))), s)"
| "update_step env d (iface, f) (Loaded path data) s =
     (case os_mkdir_all env (path_dir path) s of
        (Inl e, s1) \<Rightarrow> (Done (Inl e), s1)
      | (Inr _, s1) \<Rightarrow>
          phase_of (\<lambda>tmp. Temp path tmp (marshal_data data)) (os_create_temp env (path_dir path) (''.'' @ path_base path @ ''-'') s1))"
| "update_step env d (iface, f) (Temp path tmp b) s =
     (case atomic_steps env path tmp b s of (r, s1) \<Rightarrow> (Done r, snd (os_remove env tmp s1)))"
| "update_step env d (iface, f) (Done r) s = (Done r, s)"

text \<open>A process that runs alone runs \<open>Update\<close>.\<close>

lemma lock_file_parts: "lock_file env path s = and_then (open_lock env path s) (\<lambda>s. attempt env OpLock path s (Inr (), s))"
  by (auto simp: lock_file_def open_lock_def and_then_def split: sum.split prod.split)

lemma update_step_Done [simp]: "update_step env d job (Done r) s = (Done r, s)"
  by (cases job) simp

lemma update_steps_alone:
  "((\<lambda>(ph, s). update_step env d (iface, f) ph s) ^^ 5) (Start, s) = (case store_update env d iface f s of (r, s') \<Rightarrow> (Done r, s'))"
proof -
  let ?p = "resolve_file env d iface s"
  obtain r1 s1 where o: "open_lock env (?p @ ''.lock'') s = (r1, s1)" by fastforce
  obtain r2 s2 where l: "attempt env OpLock (?p @ ''.lock'') s1 (Inr (), s1) = (r2, s2)" by fastforce
  obtain r3 where r: "bind_res (meta_read env ?p s2) (\<lambda>data. bind_res (decode_names (fd_names data))
       (\<lambda>names. Inr (data\<lparr>fd_names := encode_names (f names)\<rparr>))) = r3" by blast
  obtain r4 s4 where m: "os_mkdir_all env (path_dir ?p) s2 = (r4, s4)" by fastforce
  obtain r5 s5 where t: "os_create_temp env (path_dir ?p) (''.'' @ path_base ?p @ ''-'') s4 = (r5, s5)" by fastforce
  have u: "store_update env d iface f s = and_then (r1, s1) (\<lambda>_. and_then (r2, s2) (\<lambda>_.
      case r3 of Inl e \<Rightarrow> (Inl e, s2) | Inr data \<Rightarrow> meta_write env ?p data s2))"
    using r by (auto simp: store_update_def Let_def lock_file_parts o l and_then_def bind_res_def split: sum.splits)
  have five: "(g ^^ 5) x = g (g (g (g (g x))))" for g :: "phase \<times> fs \<Rightarrow> phase \<times> fs" and x
    by (simp add: numeral_eq_Suc)
  show ?thesis
    unfolding u five
    by (cases r1; cases r2; cases r3; cases r4; cases r5)
      (simp_all add: Let_def o l r m t t [simplified] phase_of_def meta_write_def atomic_write_file_def split: prod.split)
qed

section \<open>All of them\<close>

text \<open>The lock of a file is held by the process that is between taking and releasing it.\<close>

fun holds :: "phase \<Rightarrow> string \<Rightarrow> bool" where
  "holds (Locked p) q = (p = q)"
| "holds (Loaded p data) q = (p = q)"
| "holds (Temp p tmp b) q = (p = q)"
| "holds ph q = False"

fun may_step :: "phase list \<Rightarrow> phase \<Rightarrow> bool" where
  "may_step phs (Opened p) = list_all (\<lambda>q. \<not> holds q p) phs"
| "may_step phs (Done r) = False"
| "may_step phs ph = True"

text \<open>The files, where each process is, and those that have succeeded, in this order.\<close>

type_synonym store_runs = "fs \<times> phase list \<times> nat list"

inductive run_step :: "os_env \<Rightarrow> string \<Rightarrow> job list \<Rightarrow> store_runs \<Rightarrow> store_runs \<Rightarrow> bool"
  for env d jobs where
    step: "i < length phs \<Longrightarrow> may_step phs (phs ! i) \<Longrightarrow> update_step env d (jobs ! i) (phs ! i) s = (ph, s') \<Longrightarrow>
      run_step env d jobs (s, phs, order) (s', phs[i := ph], if ph = Done (Inr ()) then order @ [i] else order)"

inductive_cases run_stepE: "run_step env d jobs (s, phs, order) \<sigma>"

definition starts :: "job list \<Rightarrow> fs \<Rightarrow> store_runs" where
  "starts jobs s = (s, replicate (length jobs) Start, [])"

text \<open>What one update does to the files, all at once.\<close>

definition commit :: "os_env \<Rightarrow> string \<Rightarrow> job \<Rightarrow> fs \<Rightarrow> fs" where
  "commit env d job s =
     (case store_names env d (fst job) s of
        Inl _ \<Rightarrow> s
      | Inr m \<Rightarrow> s(names_path d (fst job) \<mapsto> File (marshal_data \<lparr>fd_version = 1, fd_names = encode_names (snd job m)\<rparr>)))"

definition commits :: "os_env \<Rightarrow> string \<Rightarrow> job list \<Rightarrow> nat list \<Rightarrow> fs \<Rightarrow> fs" where
  "commits env d jobs order s = fold (\<lambda>i. commit env d (jobs ! i)) order s"

section \<open>The invariant\<close>

definition phase_ok :: "os_env \<Rightarrow> string \<Rightarrow> job \<Rightarrow> phase \<Rightarrow> fs \<Rightarrow> bool" where
  "phase_ok env d job ph s =
     (let p = names_path d (fst job);
          made = (\<lambda>data. \<exists>m. store_names env d (fst job) s = Inr m \<and> data = \<lparr>fd_version = 1, fd_names = encode_names (snd job m)\<rparr>)
      in case ph of
           Start \<Rightarrow> True
         | Opened q \<Rightarrow> q = p
         | Locked q \<Rightarrow> q = p
         | Loaded q data \<Rightarrow> q = p \<and> made data
         | Temp q tmp b \<Rightarrow> q = p \<and> tmp \<noteq> d \<and> \<not> suffix ''.names.json'' tmp \<and> (\<exists>data. made data \<and> b = marshal_data data)
         | Done r \<Rightarrow> True)"

lemma same_names_refl [simp]: "same_names d s s"
  by (simp add: same_names_def)

lemma same_names_trans: "same_names d s t \<Longrightarrow> same_names d t u \<Longrightarrow> same_names d s u"
  by (simp add: same_names_def)

lemma same_names_store:
  assumes "dir_ready env d s" "same_names d s s'" "iface_name j"
  shows "dir_ready env d s'" "store_names env d j s' = store_names env d j s"
proof -
  show "dir_ready env d s'" using assms(1) same_namesD(2) [OF assms(2)] by (simp add: dir_ready_def)
  then show "store_names env d j s' = store_names env d j s"
    using assms by (intro store_names_same) (simp_all add: dir_ready_def same_namesD(1))
qed

lemma phase_ok_same:
  assumes "phase_ok env d job ph s" "dir_ready env d s" "same_names d s s'" "iface_name (fst job)"
  shows "phase_ok env d job ph s'"
  using assms(1) by (simp add: phase_ok_def same_names_store(2) [OF assms(2-4)])

text \<open>A step of a process leaves the names alone, but for the last step of a successful update, which commits it.\<close>

lemma open_lock_same:
  assumes d: "dir_ready env d s" and i: "iface_name i" and o: "open_lock env (names_path d i @ ''.lock'') s = (r, s')"
  shows "same_names d s s'"
proof -
  have slash: "CHR ''/'' \<notin> set i" and cd: "clean_dir d" "s d = Some Dir" using d i by (simp_all add: iface_name_def dir_ready_def store_dir_def)
  have "path_dir (names_path d i @ ''.lock'') = d"
    using path_dir_join [OF cd(1) names_file(2) [OF slash]] by (simp add: names_path_def)
  then have "\<forall>p. p \<noteq> names_path d i @ ''.lock'' \<longrightarrow> s' p = s p"
    using o cd(2) by (auto simp: open_lock_def os_mkdir_all_def os_create_def attempt_def split: option.splits node.splits if_splits)
  moreover have "d \<noteq> names_path d i @ ''.lock''" by (simp add: names_path_def)
  ultimately show ?thesis using not_names_file(1) unfolding same_names_def by metis
qed

lemma names_path_parts:
  assumes "dir_ready env d s" "iface_name i"
  shows "path_dir (names_path d i) = d" "path_base (names_path d i) = i @ ''.names.json''"
proof -
  have slash: "CHR ''/'' \<notin> set i" and cd: "clean_dir d" using assms by (simp_all add: iface_name_def dir_ready_def store_dir_def)
  show "path_dir (names_path d i) = d" "path_base (names_path d i) = i @ ''.names.json''"
    using path_dir_join [OF cd names_file(1) [OF slash]] path_base_join [OF names_file(1) [OF slash], of d]
    by (simp_all add: names_path_def)
qed

lemma create_temp_same:
  assumes d: "dir_ready env d s" and i: "iface_name i"
    and t: "os_create_temp env (path_dir (names_path d i)) (''.'' @ path_base (names_path d i) @ ''-'') s = (r, s')"
  shows "same_names d s s'" and "r = Inr tmp \<Longrightarrow> tmp \<noteq> d \<and> \<not> suffix ''.names.json'' tmp"
proof -
  have t': "temp_loop env (dir_slash d @ ''.'' @ i @ ''.names.json'' @ ''-'') 0 10000 s = (r, s')"
    using t by (simp add: names_path_parts [OF d i] os_create_temp_def)
  have tmp: "s' = s(tmp \<mapsto> File [])" "tmp \<noteq> d \<and> \<not> suffix ''.names.json'' tmp" if r: "r = Inr tmp" for tmp
  proof -
    obtain k where k: "s' = s(tmp \<mapsto> File [])" "tmp = (dir_slash d @ ''.'' @ i @ ''.names.json-'') @ nat_str 10 k"
      using temp_loop_Inr [OF t' [unfolded r]] by auto
    have "length d < length tmp" by (simp add: k(2) dir_slash_def)
    then have "tmp \<noteq> d" by blast
    moreover have "\<not> suffix ''.names.json'' tmp"
      using not_names_file(2) [of "dir_slash d @ ''.'' @ i @ ''.names.json-''" k] by (simp add: k(2))
    ultimately show "s' = s(tmp \<mapsto> File [])" "tmp \<noteq> d \<and> \<not> suffix ''.names.json'' tmp"
      using k(1) by simp_all
  qed
  show "r = Inr tmp \<Longrightarrow> tmp \<noteq> d \<and> \<not> suffix ''.names.json'' tmp" by (rule tmp(2))
  show "same_names d s s'"
  proof (cases r)
    case (Inl e)
    then show ?thesis using temp_loop_Inl [OF t' [unfolded Inl]] by simp
  next
    case (Inr x)
    then show ?thesis using tmp [OF Inr] by (auto simp: same_names_def)
  qed
qed

lemma temp_step_same:
  assumes a: "atomic_steps env p tmp b s = (r, s1)" and tmp: "tmp \<noteq> d" "\<not> suffix ''.names.json'' tmp" and p: "suffix ''.names.json'' p"
  shows "same_names d (if r = Inr () then s(p \<mapsto> File b) else s) (snd (os_remove env tmp s1))"
proof -
  have ne: "tmp \<noteq> p" using tmp p by auto
  have rm: "\<forall>q. q \<noteq> tmp \<longrightarrow> snd (os_remove env tmp s1) q = s1 q"
    using os_remove_result [of env tmp s1] by auto
  show ?thesis using atomic_steps_result [OF a ne] rm tmp ne by (auto simp: same_names_def)
qed

definition succeeds :: "phase \<Rightarrow> phase \<Rightarrow> bool" where
  "succeeds ph ph' \<longleftrightarrow> ph' = Done (Inr ()) \<and> ph \<noteq> ph'"

lemma update_step_effect:
  assumes d: "dir_ready env d s" and i: "iface_name (fst job)" and ok: "phase_ok env d job ph s"
    and u: "update_step env d job ph s = (ph', s')"
  shows "same_names d (if succeeds ph ph' then commit env d job s else s) s' \<and> phase_ok env d job ph' s'"
proof -
  let ?p = "names_path d (fst job)"
  obtain iface f where job: "job = (iface, f)" by (cases job)
  have rp: "resolve_file env d iface s = ?p"
    using resolve_names_path [of env d s iface] d i by (simp add: dir_ready_def job)
  have names: "store_names env d iface s = bind_res (meta_read env ?p s) (\<lambda>data. decode_names (fd_names data))"
    by (simp add: store_names_def rp)
  have keep: "same_names d s s' \<and> phase_ok env d job ph' s'" if "same_names d s s'" "phase_ok env d job ph' s"
    using that phase_ok_same [OF that(2) d that(1) i] by blast
  show ?thesis
  proof (cases ph)
    case Start
    obtain r s1 where o: "open_lock env (?p @ ''.lock'') s = (r, s1)" by fastforce
    have "same_names d s s1" using open_lock_same [OF d i o] .
    then show ?thesis using u o
      by (cases r) (auto simp: Start job rp Let_def phase_of_def succeeds_def phase_ok_def)
  next
    case (Opened q)
    then show ?thesis using u ok
      by (auto simp: job phase_of_def attempt_def succeeds_def phase_ok_def Let_def split: option.splits)
  next
    case (Locked q)
    then have q: "q = ?p" using ok by (simp add: phase_ok_def Let_def)
    show ?thesis
    proof (cases "meta_read env ?p s")
      case (Inl e)
      then show ?thesis using u by (auto simp: Locked job q phase_of_def succeeds_def phase_ok_def)
    next
      case (Inr data)
      have v: "data\<lparr>fd_names := x\<rparr> = \<lparr>fd_version = 1, fd_names = x\<rparr>" for x
        using meta_read_version [OF Inr] by (cases data) simp
      show ?thesis using u Inr names
        by (cases "decode_names (fd_names data)")
          (auto simp: Locked job q phase_of_def succeeds_def phase_ok_def Let_def v)
    qed
  next
    case (Loaded q data)
    then have q: "q = ?p" using ok by (simp add: phase_ok_def Let_def)
    have "s (path_dir ?p) = Some Dir" using d names_path_parts(1) [OF d i] by (simp add: dir_ready_def)
    then have mk: "os_mkdir_all env (path_dir ?p) s = (Inr (), s)" by (simp add: os_mkdir_all_def)
    obtain r s1 where t: "os_create_temp env (path_dir ?p) (''.'' @ path_base ?p @ ''-'') s = (r, s1)" by fastforce
    note same = create_temp_same [OF d i t]
    have res: "(ph', s') = (case r of Inl e \<Rightarrow> (Done (Inl e), s1) | Inr tmp \<Rightarrow> (Temp ?p tmp (marshal_data data), s1))"
      using u t [unfolded job fst_conv] by (cases r) (simp_all add: Loaded job q mk [unfolded job fst_conv] phase_of_def)
    have "phase_ok env d job ph' s" "\<not> succeeds ph ph'" "s' = s1"
      using res ok same(2) by (auto simp: Loaded q phase_ok_def Let_def succeeds_def split: sum.splits)
    then show ?thesis using keep same(1) by simp
  next
    case (Temp q tmp b)
    then obtain m where q: "q = ?p" and tmp: "tmp \<noteq> d" "\<not> suffix ''.names.json'' tmp"
      and m: "store_names env d (fst job) s = Inr m" "b = marshal_data \<lparr>fd_version = 1, fd_names = encode_names (snd job m)\<rparr>"
      using ok by (auto simp: phase_ok_def Let_def)
    obtain r s1 where a: "atomic_steps env ?p tmp b s = (r, s1)" by fastforce
    have "ph' = Done r" "s' = snd (os_remove env tmp s1)" using u a by (auto simp: Temp job q)
    moreover have "commit env d job s = s(?p \<mapsto> File b)" using m by (simp add: commit_def)
    ultimately show ?thesis
      using temp_step_same [OF a tmp names_path_suffix] by (auto simp: Temp succeeds_def phase_ok_def)
  next
    case (Done r)
    then show ?thesis using u ok by (simp add: succeeds_def)
  qed
qed

lemma holds_path: "phase_ok env d job ph s \<Longrightarrow> holds ph q \<Longrightarrow> q = names_path d (fst job)"
  by (cases ph) (auto simp: phase_ok_def Let_def)

lemma update_step_holds: "update_step env d job ph s = (ph', s') \<Longrightarrow> holds ph' q \<Longrightarrow> holds ph q \<or> ph = Opened q"
  by (cases job; cases ph) (auto simp: phase_of_def Let_def split: sum.splits prod.splits)

text \<open>A commit to one interface leaves a process at another, and one that has read no names yet, where it is.\<close>

lemma commit_ready: "dir_ready env d s \<Longrightarrow> dir_ready env d (commit env d job s)"
proof -
  have "d \<noteq> names_path d (fst job)" by (simp add: names_path_def)
  then show "dir_ready env d s \<Longrightarrow> dir_ready env d (commit env d job s)"
    by (auto simp: commit_def dir_ready_def split: sum.split)
qed

lemma commit_other:
  assumes "dir_ready env d s" "iface_name j" "j \<noteq> fst job"
  shows "store_names env d j (commit env d job s) = store_names env d j s"
proof (rule store_names_same)
  show "store_dir env d" "s d = Some Dir" "commit env d job s d = Some Dir" "iface_name j"
    using assms commit_ready [OF assms(1), of job] by (simp_all add: dir_ready_def)
  show "commit env d job s (names_path d j) = s (names_path d j)"
    using assms(3) by (auto simp: commit_def names_path_inj split: sum.split)
qed

lemma commit_same:
  assumes "dir_ready env d s" "same_names d s s'" "iface_name (fst job)"
  shows "same_names d (commit env d job s) (commit env d job s')"
  using assms(2) same_names_store(2) [OF assms]
  by (auto simp: commit_def same_names_def split: sum.split)

lemma phase_ok_commit:
  assumes ok: "phase_ok env d job' ph s" and d: "dir_ready env d s" and i: "iface_name (fst job')"
    and free: "\<not> holds ph (names_path d (fst job))"
  shows "phase_ok env d job' ph (commit env d job s)"
proof (cases "\<exists>q. holds ph q")
  case True
  then have "fst job' \<noteq> fst job" using free holds_path [OF ok] by auto
  then show ?thesis using ok commit_other [OF d i] by (simp add: phase_ok_def)
next
  case False
  then show ?thesis using ok by (cases ph) (auto simp: phase_ok_def Let_def)
qed

definition runs_ok :: "os_env \<Rightarrow> string \<Rightarrow> job list \<Rightarrow> fs \<Rightarrow> store_runs \<Rightarrow> bool" where
  "runs_ok env d jobs s0 \<sigma> =
     (case \<sigma> of (s, phs, order) \<Rightarrow>
        length phs = length jobs \<and> dir_ready env d s
        \<and> (\<forall>i < length jobs. phase_ok env d (jobs ! i) (phs ! i) s)
        \<and> (\<forall>i < length jobs. \<forall>j < length jobs. \<forall>p. i \<noteq> j \<longrightarrow> holds (phs ! i) p \<longrightarrow> \<not> holds (phs ! j) p)
        \<and> same_names d (commits env d jobs order s0) s
        \<and> distinct order \<and> set order = {i. i < length jobs \<and> phs ! i = Done (Inr ())})"

lemma runs_ok_starts: "dir_ready env d s \<Longrightarrow> runs_ok env d jobs s (starts jobs s)"
  by (simp add: runs_ok_def starts_def phase_ok_def commits_def)

lemma commits_ready: "dir_ready env d s \<Longrightarrow> dir_ready env d (commits env d jobs order s)"
  unfolding commits_def by (induction order arbitrary: s) (simp_all add: commit_ready)

lemma same_names_sym: "same_names d s t \<Longrightarrow> same_names d t s"
  by (simp add: same_names_def)

lemma succeeds_holds:
  assumes "update_step env d job ph s = (ph', s')" and "phase_ok env d job ph s" and "succeeds ph ph'"
  shows "holds ph (names_path d (fst job))"
  using assms by (cases job; cases ph) (simp_all add: succeeds_def phase_of_def phase_ok_def Let_def split: sum.splits prod.splits)

lemma run_step_ok:
  assumes d0: "dir_ready env d s0" and names: "list_all (\<lambda>job. iface_name (fst job)) jobs"
    and ok: "runs_ok env d jobs s0 \<sigma>" and r: "run_step env d jobs \<sigma> \<tau>"
  shows "runs_ok env d jobs s0 \<tau>"
proof -
  obtain s phs order where \<sigma>: "\<sigma> = (s, phs, order)" by (cases \<sigma>)
  from r [unfolded \<sigma>] obtain i ph s' where i: "i < length phs" "may_step phs (phs ! i)"
    and u: "update_step env d (jobs ! i) (phs ! i) s = (ph, s')"
    and \<tau>: "\<tau> = (s', phs[i := ph], if ph = Done (Inr ()) then order @ [i] else order)"
    by (rule run_stepE)
  let ?job = "jobs ! i" let ?t = "if succeeds (phs ! i) ph then commit env d ?job s else s"
  have len: "length phs = length jobs" and ready: "dir_ready env d s"
    and phases: "\<And>j. j < length jobs \<Longrightarrow> phase_ok env d (jobs ! j) (phs ! j) s"
    and excl: "\<And>j k p. j < length jobs \<Longrightarrow> k < length jobs \<Longrightarrow> j \<noteq> k \<Longrightarrow> holds (phs ! j) p \<Longrightarrow> \<not> holds (phs ! k) p"
    and same: "same_names d (commits env d jobs order s0) s"
    and order: "distinct order" "set order = {i. i < length jobs \<and> phs ! i = Done (Inr ())}"
    using ok unfolding runs_ok_def \<sigma> prod.case by blast+
  have ij: "i < length jobs" using i len by simp
  have iface: "iface_name (fst (jobs ! j))" if "j < length jobs" for j
    using names that by (simp add: list_all_length)
  have not_done: "phs ! i \<noteq> Done x" for x using i(2) by auto
  then have succ: "succeeds (phs ! i) ph \<longleftrightarrow> ph = Done (Inr ())" by (auto simp: succeeds_def)
  have eff: "same_names d ?t s'" "phase_ok env d ?job ph s'"
    using update_step_effect [OF ready iface [OF ij] phases [OF ij] u] by simp_all
  have tready: "dir_ready env d ?t" using ready commit_ready by simp
  have others: "phase_ok env d (jobs ! j) (phs ! j) s'" if j: "j < length jobs" "j \<noteq> i" for j
  proof -
    have "phase_ok env d (jobs ! j) (phs ! j) ?t"
    proof (cases "succeeds (phs ! i) ph")
      case True
      then have "holds (phs ! i) (names_path d (fst ?job))"
        by (intro succeeds_holds [OF u phases [OF ij]])
      then have "\<not> holds (phs ! j) (names_path d (fst ?job))" using excl [OF ij j(1)] j(2) by auto
      then show ?thesis using phase_ok_commit [OF phases [OF j(1)] ready iface [OF j(1)]] True by simp
    next
      case False
      then show ?thesis using phases [OF j(1)] by simp
    qed
    then show ?thesis by (rule phase_ok_same [OF _ tready eff(1) iface [OF j(1)]])
  qed
  have free: "\<not> holds (phs ! j) p" if "phs ! i = Opened p" "j < length jobs" for j p
    using i(2) that len by (simp add: list_all_length)
  have excl': "\<not> holds (phs[i := ph] ! k) p"
    if "j < length jobs" "k < length jobs" "j \<noteq> k" "holds (phs[i := ph] ! j) p" for j k p
  proof -
    have ph: "holds ph p \<Longrightarrow> m < length jobs \<Longrightarrow> m \<noteq> i \<Longrightarrow> \<not> holds (phs ! m) p" for m
      using update_step_holds [OF u, of p] free [of p m] excl [OF ij, of m p] by blast
    consider "j = i" "k \<noteq> i" | "k = i" "j \<noteq> i" | "j \<noteq> i" "k \<noteq> i" using \<open>j \<noteq> k\<close> by blast
    then show ?thesis
    proof cases
      case 1
      then show ?thesis using that ph [of k] ij len by simp
    next
      case 2
      then show ?thesis using that ph [of j] ij len by auto
    next
      case 3
      then show ?thesis using that excl [of j k p] by simp
    qed
  qed
  have "same_names d (commits env d jobs (if ph = Done (Inr ()) then order @ [i] else order) s0) ?t"
    using same commit_same [OF commits_ready [OF d0] same iface [OF ij]] by (auto simp: succ commits_def)
  then have same': "same_names d (commits env d jobs (if ph = Done (Inr ()) then order @ [i] else order) s0) s'"
    using eff(1) by (rule same_names_trans)
  have fresh: "i \<notin> set order" using order(2) not_done by auto
  have ready': "dir_ready env d s'" by (rule same_names_store(1) [OF tready eff(1) iface [OF ij]])
  have "\<forall>j < length jobs. phase_ok env d (jobs ! j) (phs[i := ph] ! j) s'"
    using others eff(2) len i(1) by (simp add: nth_list_update)
  moreover have "set (if ph = Done (Inr ()) then order @ [i] else order) = {j. j < length jobs \<and> phs[i := ph] ! j = Done (Inr ())}"
    using order(2) ij len not_done by (auto simp: nth_list_update)
  ultimately show ?thesis
    using len ready' excl' same' order(1) fresh unfolding runs_ok_def \<tau> prod.case by (intro conjI) simp_all
qed

lemma reachable_ok:
  assumes "dir_ready env d s" and "list_all (\<lambda>job. iface_name (fst job)) jobs"
    and "(run_step env d jobs)\<^sup>*\<^sup>* (starts jobs s) \<sigma>"
  shows "runs_ok env d jobs s \<sigma>"
  using assms(3) by (induction rule: rtranclp_induct) (auto intro: runs_ok_starts run_step_ok assms(1,2))

text \<open>No run is longer than five steps for each process, and none stops before all have returned.\<close>

fun steps_left :: "phase \<Rightarrow> nat" where
  "steps_left Start = 5"
| "steps_left (Opened p) = 4"
| "steps_left (Locked p) = 3"
| "steps_left (Loaded p data) = 2"
| "steps_left (Temp p tmp b) = 1"
| "steps_left (Done r) = 0"

lemma update_step_less: "update_step env d job ph s = (ph', s') \<Longrightarrow> steps_left ph \<noteq> 0 \<Longrightarrow> steps_left ph' < steps_left ph"
  by (cases job; cases ph) (auto simp: phase_of_def Let_def split: sum.splits prod.splits)

lemma sum_list_update_less:
  fixes g :: "'a \<Rightarrow> nat"
  shows "i < length xs \<Longrightarrow> g x < g (xs ! i) \<Longrightarrow> sum_list (map g (xs[i := x])) < sum_list (map g xs)"
proof (induction xs arbitrary: i)
  case (Cons y ys)
  then show ?case by (cases i) auto
qed simp

definition all_left :: "store_runs \<Rightarrow> nat" where
  "all_left \<sigma> = (case \<sigma> of (s, phs, order) \<Rightarrow> sum_list (map steps_left phs))"

lemma run_step_less: "run_step env d jobs \<sigma> \<tau> \<Longrightarrow> all_left \<tau> < all_left \<sigma>"
proof (induction rule: run_step.induct)
  case (step i phs s ph s' order)
  have "steps_left (phs ! i) \<noteq> 0" using step(2) by (cases "phs ! i") simp_all
  then have "steps_left ph < steps_left (phs ! i)" by (rule update_step_less [OF step(3)])
  then show ?case using step(1) by (simp add: all_left_def sum_list_update_less)
qed

lemma runs_length: "(run_step env d jobs ^^ k) \<sigma> \<tau> \<Longrightarrow> k + all_left \<tau> \<le> all_left \<sigma>"
proof (induction k arbitrary: \<tau>)
  case (Suc k)
  then obtain \<rho> where "(run_step env d jobs ^^ k) \<sigma> \<rho>" "run_step env d jobs \<rho> \<tau>" by auto
  then show ?case using Suc.IH [of \<rho>] run_step_less [of env d jobs \<rho> \<tau>] by simp
qed simp

lemma stuck_done:
  assumes "\<not> (\<exists>\<tau>. run_step env d jobs (s, phs, order) \<tau>)" and "ph \<in> set phs"
  shows "\<exists>r. ph = Done r"
proof (rule ccontr)
  have no: "\<not> may_step phs q" if "q \<in> set phs" for q
  proof
    assume m: "may_step phs q"
    obtain i where i: "i < length phs" "phs ! i = q" using \<open>q \<in> set phs\<close> by (auto simp: in_set_conv_nth)
    obtain q' s' where u: "update_step env d (jobs ! i) (phs ! i) s = (q', s')" by fastforce
    show False using assms(1) run_step.step [OF i(1) _ u, of order] m i(2) by blast
  qed
  assume "\<nexists>r. ph = Done r"
  then obtain p where "ph = Opened p" using no [OF assms(2)] by (cases ph) simp_all
  then obtain q where q: "q \<in> set phs" "holds q p" using no [OF assms(2)] by (auto simp: list_all_iff)
  have "may_step phs q" using q(2) by (cases q) simp_all
  then show False using no [OF q(1)] by blast
qed

text \<open>The run of a schedule, which says whose step is next.\<close>

fun run_schedule :: "os_env \<Rightarrow> string \<Rightarrow> job list \<Rightarrow> nat list \<Rightarrow> store_runs \<Rightarrow> store_runs option" where
  "run_schedule env d jobs [] \<sigma> = Some \<sigma>"
| "run_schedule env d jobs (i # is) (s, phs, order) =
     (if i < length phs \<and> may_step phs (phs ! i) then
        (case update_step env d (jobs ! i) (phs ! i) s of
           (ph, s') \<Rightarrow> run_schedule env d jobs is (s', phs[i := ph], if ph = Done (Inr ()) then order @ [i] else order))
      else None)"

lemma run_schedule_steps: "run_schedule env d jobs is \<sigma> = Some \<tau> \<Longrightarrow> (run_step env d jobs ^^ length is) \<sigma> \<tau>"
proof (induction env d jobs "is" \<sigma> rule: run_schedule.induct)
  case (2 env d jobs i "is" s phs order)
  obtain ph s' where u: "update_step env d (jobs ! i) (phs ! i) s = (ph, s')" by fastforce
  have g: "i < length phs \<and> may_step phs (phs ! i)" using 2(2) by (auto split: if_splits)
  then have "run_schedule env d jobs is (s', phs[i := ph], if ph = Done (Inr ()) then order @ [i] else order) = Some \<tau>"
    using 2(2) u by simp
  from 2(1) [OF g u [symmetric] this] run_step.step [of i phs env d jobs s ph s' order] g u
  show ?case by (simp del: relpowp.simps add: relpowp_Suc_I2)
qed simp

definition two_jobs :: "job list" where
  "two_jobs = [(''wg0'', AList.update (replicate 32 1) ''office''), (''wg0'', AList.update (replicate 32 2) ''home'')]"

lemma two_jobs_run:
  "\<exists>s'. (run_step no_faults ''/etc/wireguard'' two_jobs ^^ 10) (starts two_jobs some_files) (s', [Done (Inr ()), Done (Inr ())], [0, 1])"
proof -
  have run: "map_option snd (run_schedule no_faults ''/etc/wireguard'' two_jobs [0, 1, 0, 0, 0, 0, 1, 1, 1, 1] (starts two_jobs some_files))
      = Some ([Done (Inr ()), Done (Inr ())], [0, 1])"
    by code_simp
  then obtain s' where "run_schedule no_faults ''/etc/wireguard'' two_jobs [0, 1, 0, 0, 0, 0, 1, 1, 1, 1] (starts two_jobs some_files)
      = Some (s', [Done (Inr ()), Done (Inr ())], [0, 1])"
    by auto
  moreover have "length [0, 1, 0, 0, 0, 0, 1, 1, 1, 1 :: nat] = 10" by simp
  ultimately show ?thesis using run_schedule_steps by metis
qed

section \<open>Properties\<close>

text \<open>
  C8. Updates of the store are serialised: however the steps of several processes that update names
  at the same time follow each other, the name files hold at every moment what the updates that have
  returned with success make of them one after the other, each given the names that it finds. So a
  reader never sees a half-written file, no update is lost, and one that fails leaves no trace. This
  is the lock's doing, which is taken before the file is read and kept until the file is replaced.
\<close>

theorem concurrent_updates_serial:
  assumes "dir_ready env d s" and "list_all (\<lambda>job. iface_name (fst job)) jobs"
    and "(run_step env d jobs)\<^sup>*\<^sup>* (starts jobs s) (s', phs, order)"
  shows "same_names d (commits env d jobs order s) s' \<and> distinct order
    \<and> set order = {i. i < length jobs \<and> phs ! i = Done (Inr ())}"
  using reachable_ok [OF assms] by (simp add: runs_ok_def)

theorem concurrent_updates_serial_witness:
  "\<exists>s'. same_names ''/etc/wireguard'' (commits no_faults ''/etc/wireguard'' two_jobs [0, 1] some_files) s'
     \<and> set [0, 1] = {i. i < length two_jobs \<and> [Done (Inr ()), Done (Inr ())] ! i = Done (Inr ())}"
proof -
  obtain s' where r: "(run_step no_faults ''/etc/wireguard'' two_jobs)\<^sup>*\<^sup>* (starts two_jobs some_files) (s', [Done (Inr ()), Done (Inr ())], [0, 1])"
    using two_jobs_run by (auto dest: relpowp_imp_rtranclp)
  have "clean_dir ''/etc/wireguard''" "trim_space ''/etc/wireguard'' = ''/etc/wireguard''" by code_simp+
  then have d: "dir_ready no_faults ''/etc/wireguard'' some_files"
    by (simp add: dir_ready_def store_dir_def no_faults_def some_files_def)
  have "list_all (\<lambda>job. iface_name (fst job)) two_jobs" by code_simp
  from concurrent_updates_serial [OF d this r] show ?thesis by blast
qed

text \<open>
  C35. Concurrent updates all return: no order of their steps is longer than five for each of them,
  and when no step is possible any more every one has returned. There is no deadlock on the lock.
\<close>

theorem concurrent_updates_return:
  assumes "(run_step env d jobs ^^ k) (starts jobs s) (s', phs, order)"
  shows "k \<le> 5 * length jobs
    \<and> ((\<exists>\<tau>. run_step env d jobs (s', phs, order) \<tau>) \<or> (\<forall>ph \<in> set phs. \<exists>r. ph = Done r))"
  using runs_length [OF assms] stuck_done by (auto simp: all_left_def starts_def sum_list_replicate)

theorem concurrent_updates_return_witness:
  "\<exists>s'. (10::nat) \<le> 5 * length two_jobs
     \<and> ((\<exists>\<tau>. run_step no_faults ''/etc/wireguard'' two_jobs (s', [Done (Inr ()), Done (Inr ())], [0, 1]) \<tau>)
         \<or> (\<forall>ph \<in> set [Done (Inr ()), Done (Inr ())]. \<exists>r. ph = Done r))"
  using two_jobs_run concurrent_updates_return [where k = 10 and env = no_faults and d = "''/etc/wireguard''" and jobs = two_jobs] by blast

end
