(* ===== verification/GoJsonText.thy ===== *)
theory GoJsonText
  imports GoJsonDoc GoNet
begin

text \<open>
  JSON documents as \<open>encoding/json\<close> writes them without indentation, and the reading of one
  document from a stream (\<open>json.Decoder\<close>). The main lemma: what is written is read back.
\<close>

section \<open>Writing\<close>

fun json_text :: "json \<Rightarrow> string" where
  "json_text JNull = ''null''"
| "json_text (JBool b) = (if b then ''true'' else ''false'')"
| "json_text (JNum t) = t"
| "json_text (JStr s) = json_quote s"
| "json_text (JArr vs) = ''['' @ join '','' (map json_text vs) @ '']''"
| "json_text (JObj ms) = ''{'' @ join '','' (map (\<lambda>(k, v). json_quote k @ '':'' @ json_text v) ms) @ ''}''"

section \<open>Reading a stream\<close>

text \<open>
  \<open>dec.Decode\<close> reads the first value and leaves what follows it. An object or an array is
  complete at its last bracket; after another value the stream has to go on or to end.
\<close>

definition json_decode :: "reader \<Rightarrow> json res" where
  "json_decode r =
     (case json_val (2 * length (rd_data r) + 2) 10000 (rd_data r) of
        None \<Rightarrow> Inl (case rd_err r of Some e \<Rightarrow> e | None \<Rightarrow> ErrText ''json'')
      | Some (JObj ms, u) \<Rightarrow> Inr (JObj ms)
      | Some (JArr vs, u) \<Rightarrow> Inr (JArr vs)
      | Some (v, u) \<Rightarrow>
          (case rd_err r of Some e \<Rightarrow> if json_skip u = [] then Inl e else Inr v | None \<Rightarrow> Inr v))"

section \<open>What is written is read back\<close>

text \<open>What may follow a number: no digit, point or exponent.\<close>

definition number_end :: "string \<Rightarrow> bool" where
  "number_end r \<longleftrightarrow> (case r of [] \<Rightarrow> True | c # s \<Rightarrow> \<not> digit c \<and> c \<noteq> CHR ''.'' \<and> c \<noteq> CHR ''e'' \<and> c \<noteq> CHR ''E'')"

fun json_ok :: "json \<Rightarrow> bool" where
  "json_ok JNull = True"
| "json_ok (JBool b) = True"
| "json_ok (JNum t) = (\<exists>i. t = itoa i)"
| "json_ok (JStr s) = valid_string s"
| "json_ok (JArr vs) = list_all json_ok vs"
| "json_ok (JObj ms) = list_all (\<lambda>(k, v). valid_string k \<and> json_ok v) ms"

text \<open>How deep a value is nested, and how many steps its reading takes.\<close>

fun json_fits :: "nat \<Rightarrow> json \<Rightarrow> bool" where
  "json_fits d (JArr vs) \<longleftrightarrow> 0 < d \<and> list_all (json_fits (d - 1)) vs"
| "json_fits d (JObj ms) \<longleftrightarrow> 0 < d \<and> list_all (\<lambda>(k, v). json_fits (d - 1) v) ms"
| "json_fits d v \<longleftrightarrow> True"

fun json_steps :: "json \<Rightarrow> nat" where
  "json_steps (JArr vs) = foldr (\<lambda>c n. Suc (max (Suc c) n)) (map json_steps vs) 0"
| "json_steps (JObj ms) = foldr (\<lambda>c n. Suc (max (Suc c) n)) (map (\<lambda>(k, v). json_steps v) ms) 0"
| "json_steps v = 0"

lemma nat_str_digits: "list_all digit (nat_str 10 n)"
  using nat_str_dec_set [of n] by (auto simp: list_all_iff digit_def between_def)

lemma digits_takeWhile:
  assumes "list_all digit t" and "number_end r"
  shows "takeWhile digit (t @ r) = t" and "dropWhile digit (t @ r) = r"
proof -
  have "takeWhile digit r = []" "dropWhile digit r = r"
    using assms(2) by (cases r; simp add: number_end_def)+
  then show "takeWhile digit (t @ r) = t" "dropWhile digit (t @ r) = r"
    using assms(1) by (simp_all add: list_all_iff)
qed

lemma json_int_nat_str:
  assumes "number_end r" shows "json_int (nat_str 10 n @ r) = Some (nat_str 10 n, r)"
proof -
  obtain c t where ct: "nat_str 10 n = c # t" by (cases "nat_str 10 n") auto
  have d: "list_all digit (c # t)" using nat_str_digits [of n] ct by simp
  show ?thesis
  proof (cases "c = CHR ''0''")
    case True
    then have "n = 0" using ct hd_nat_str_zero [of n] by simp
    moreover have "nat_str 10 0 = ''0''" by code_simp
    ultimately have "t = []" using ct by simp
    then show ?thesis using True by (simp add: ct json_int_def)
  next
    case False
    then show ?thesis using d digits_takeWhile [OF d assms] by (simp add: ct json_int_def)
  qed
qed

lemma json_number_itoa:
  assumes r: "number_end r" shows "json_number (itoa i @ r) = Some (itoa i, r)"
proof -
  have frac: "json_frac r = Some ([], r)" and ex: "json_exp r = Some ([], r)"
    using r by (cases r; simp add: number_end_def json_frac_def json_exp_def)+
  have "\<not> prefix ''-'' (nat_str 10 n @ r)" for n
  proof -
    obtain c t where ct: "nat_str 10 n = c # t" by (cases "nat_str 10 n") auto
    then have "digit c" using nat_str_digits [of n] by simp
    then show ?thesis by (auto simp: ct digit_def between_def)
  qed
  then show ?thesis
    by (simp add: json_number_def itoa_def int_str_def json_int_nat_str [OF r] frac ex)
qed

lemma itoa_first:
  "\<exists>c t. itoa i = c # t \<and> (c = CHR ''-'' \<or> digit c)"
proof -
  obtain c t where ct: "nat_str 10 (nat \<bar>i\<bar>) = c # t" by (cases "nat_str 10 (nat \<bar>i\<bar>)") auto
  then have "digit c" using nat_str_digits [of "nat \<bar>i\<bar>"] by simp
  then show ?thesis using ct by (auto simp: itoa_def int_str_def)
qed

lemma digit_not:
  "digit c \<Longrightarrow> c \<noteq> CHR 0x22 \<and> c \<noteq> CHR ''['' \<and> c \<noteq> CHR ''{'' \<and> c \<noteq> CHR ''n'' \<and> c \<noteq> CHR ''t'' \<and> c \<noteq> CHR ''f'' \<and> \<not> json_space c
    \<and> c \<noteq> CHR '']'' \<and> c \<noteq> CHR ''}''"
  by (auto simp: digit_def between_def json_space_def)

lemma json_val_itoa:
  assumes "number_end r" shows "json_val (Suc n) d (itoa i @ r) = Some (JNum (itoa i), r)"
proof -
  obtain c t where ct: "itoa i = c # t" "c = CHR ''-'' \<or> digit c" using itoa_first by blast
  have no: "c \<noteq> CHR 0x22" "c \<noteq> CHR ''[''" "c \<noteq> CHR ''{''" "c \<noteq> CHR ''n''" "c \<noteq> CHR ''t''" "c \<noteq> CHR ''f''" "\<not> json_space c"
    by (use ct(2) in \<open>elim disjE; use digit_not [of c] in \<open>simp add: json_space_def\<close>\<close>)+
  have "json_number (c # t @ r) = Some (c # t, r)" using json_number_itoa [OF assms, of i] by (simp add: ct)
  then show ?thesis using no by (simp add: ct)
qed

text \<open>The first character of a value is none of those that end a list.\<close>

lemma json_text_first:
  assumes "json_ok v"
  shows "\<exists>c t. json_text v = c # t \<and> c \<noteq> CHR '']'' \<and> c \<noteq> CHR ''}'' \<and> \<not> json_space c"
proof (cases v)
  case (JNum t)
  then obtain i where "t = itoa i" using assms by auto
  moreover obtain c u where cu: "itoa i = c # u" "c = CHR ''-'' \<or> digit c" using itoa_first by blast
  moreover have "c \<noteq> CHR '']''" "c \<noteq> CHR ''}''" "\<not> json_space c"
    by (use cu(2) in \<open>elim disjE; use digit_not [of c] in \<open>simp add: json_space_def\<close>\<close>)+
  ultimately show ?thesis using JNum by simp
next
  case (JBool b)
  then show ?thesis by (cases b) (simp_all add: json_space_def)
qed (simp_all add: json_space_def json_quote_def)

lemma number_end_simps [simp]:
  "number_end []" "number_end (CHR '','' # r)" "number_end (CHR '']'' # r)" "number_end (CHR ''}'' # r)"
  "number_end (CHR 0x0A # r)"
  by (simp_all add: number_end_def digit_def between_def)

lemma json_space_bracket [simp]: "\<not> json_space (CHR '']'')" "\<not> json_space (CHR ''['')"
  by (simp_all add: json_space_def)

lemma json_val_text:
  "json_ok v \<Longrightarrow> json_fits d v \<Longrightarrow> json_steps v \<le> n \<Longrightarrow> number_end r \<Longrightarrow>
   json_val (Suc n) d (json_text v @ r) = Some (v, r)"
proof (induction v arbitrary: n d r)
  case (JNum t)
  then obtain i where "t = itoa i" by auto
  then show ?case using JNum.prems json_val_itoa by (simp del: json_val.simps)
next
  case (JStr s)
  then show ?case by (simp add: json_val_quote del: json_val.simps)
next
  case (JArr vs)
  have elems: "json_elems m e (join '','' (map json_text us) @ CHR '']'' # r) = Some (us, r)"
    if "us \<noteq> []" "set us \<subseteq> set vs" "foldr (\<lambda>c n. Suc (max (Suc c) n)) (map json_steps us) 0 \<le> m"
      "list_all json_ok us" "list_all (json_fits e) us" for us m e
    using that
  proof (induction us arbitrary: m)
    case (Cons u us)
    obtain k where m: "m = Suc (Suc k)" "json_steps u \<le> k"
      using Cons.prems(3) by (cases m; cases "m - 1") auto
    have u: "json_val (Suc k) e (json_text u @ s) = Some (u, s)" if "number_end s" for s
      using JArr.IH [of u e k s] Cons.prems m that by simp
    show ?case
    proof (cases us)
      case Nil
      then show ?thesis using u by (simp add: m(1) del: json_val.simps)
    next
      case (Cons w ws)
      have "json_elems (Suc k) e (join '','' (map json_text us) @ CHR '']'' # r) = Some (us, r)"
        using Cons.IH [of "Suc k"] Cons.prems m Cons by simp
      then show ?thesis using u by (simp add: m(1) Cons del: json_val.simps)
    qed
  qed simp
  show ?case
  proof (cases vs)
    case Nil
    then show ?thesis by (cases n) (use JArr.prems in simp_all)
  next
    case (Cons w ws)
    obtain c t where c: "json_text w = c # t" "c \<noteq> CHR '']''" "\<not> json_space c"
      using json_text_first [of w] JArr.prems Cons by auto
    have "\<not> prefix '']'' (json_skip (join '','' (map json_text vs) @ CHR '']'' # r))"
      using c Cons by (cases ws) simp_all
    moreover have "json_elems n (d - 1) (join '','' (map json_text vs) @ CHR '']'' # r) = Some (vs, r)"
      using elems [of vs n "d - 1"] JArr.prems Cons by simp
    ultimately show ?thesis using JArr.prems by simp
  qed
next
  case (JObj ms)
  have members: "json_members m e (join '','' (map (\<lambda>(k, v). json_quote k @ '':'' @ json_text v) us) @ CHR ''}'' # r) = Some (us, r)"
    if "us \<noteq> []" "set us \<subseteq> set ms" "foldr (\<lambda>c n. Suc (max (Suc c) n)) (map (\<lambda>(k, v). json_steps v) us) 0 \<le> m"
      "list_all (\<lambda>(k, v). valid_string k \<and> json_ok v) us" "list_all (\<lambda>(k, v). json_fits e v) us" for us m e
    using that
  proof (induction us arbitrary: m)
    case (Cons p us)
    obtain q u where p: "p = (q, u)" by (cases p)
    obtain k where m: "m = Suc (Suc k)" "json_steps u \<le> k"
      using Cons.prems(3) p by (cases m; cases "m - 1") auto
    have u: "json_val (Suc k) e (json_text u @ s) = Some (u, s)" if "number_end s" for s
      using JObj.IH [of p u e k s] Cons.prems m p that by simp
    have body: "json_body (concat (map json_esc (runes q)) @ CHR 0x22 # w) = Some (q, w)" for w
      using Cons.prems(4) p by (intro json_body_quote) simp
    show ?case
    proof (cases us)
      case Nil
      then show ?thesis using u body by (simp add: m(1) p json_quote_cons [of q] del: json_val.simps)
    next
      case (Cons w ws)
      have "json_members (Suc k) e (join '','' (map (\<lambda>(k, v). json_quote k @ '':'' @ json_text v) us) @ CHR ''}'' # r) = Some (us, r)"
        using Cons.IH [of "Suc k"] Cons.prems m p Cons by simp
      then show ?thesis using u body by (simp add: m(1) p Cons json_quote_cons [of q] del: json_val.simps)
    qed
  qed simp
  show ?case
  proof (cases ms)
    case Nil
    then show ?thesis by (cases n) (use JObj.prems in simp_all)
  next
    case (Cons w ws)
    have "\<not> prefix ''}'' (json_skip (join '','' (map (\<lambda>(k, v). json_quote k @ '':'' @ json_text v) ms) @ CHR ''}'' # r))"
      using Cons by (cases ws; cases w) (simp_all add: json_quote_cons)
    moreover have "json_members n (d - 1) (join '','' (map (\<lambda>(k, v). json_quote k @ '':'' @ json_text v) ms) @ CHR ''}'' # r) = Some (ms, r)"
      using members [of ms n "d - 1"] JObj.prems Cons by simp
    ultimately show ?thesis using JObj.prems by simp
  qed
qed (simp_all add: json_space_def)

lemma join_comma_length: "xs \<noteq> [] \<Longrightarrow> length (join '','' xs) + 1 = sum_list (map (\<lambda>x. length x + 1) xs)"
  by (induction xs rule: induct_list012) simp_all

lemma foldr_steps: "foldr (\<lambda>c n. Suc (max (Suc c) n)) cs 0 \<le> sum_list (map (\<lambda>c. c + 2) cs)"
  by (induction cs) auto

lemma steps_join:
  assumes "\<And>v. v \<in> set vs \<Longrightarrow> f v \<le> 2 * length (g v)"
  shows "foldr (\<lambda>c n. Suc (max (Suc c) n)) (map f vs) 0 \<le> 2 * length (join '','' (map g vs)) + 2"
proof (cases "vs = []")
  case False
  have "sum_list (map (\<lambda>v. f v + 2) vs) \<le> sum_list (map (\<lambda>v. 2 * (length (g v) + 1)) vs)"
    using assms by (intro sum_list_mono) fastforce
  also have "\<dots> = 2 * sum_list (map (\<lambda>x. length x + 1) (map g vs))"
    by (induction vs) simp_all
  also have "\<dots> = 2 * (length (join '','' (map g vs)) + 1)"
    using False join_comma_length [of "map g vs"] by simp
  finally show ?thesis using foldr_steps [of "map f vs"] by (simp add: comp_def)
qed simp

lemma json_steps_text: "json_steps v \<le> 2 * length (json_text v)"
proof (induction v)
  case (JArr vs)
  then show ?case using steps_join [of vs json_steps json_text] by simp
next
  case (JObj ms)
  have "json_steps (snd m) \<le> 2 * length (json_quote (fst m) @ '':'' @ json_text (snd m))" if "m \<in> set ms" for m
    using JObj.IH [of m "snd m"] that by (cases m) simp
  then show ?case
    using steps_join [of ms "\<lambda>(k, v). json_steps v" "\<lambda>(k, v). json_quote k @ '':'' @ json_text v"] by fastforce
qed simp_all

lemma json_decode_text:
  assumes "json_ok (JObj ms)" and "json_fits 10000 (JObj ms)" and "number_end r"
  shows "json_decode \<lparr>rd_data = json_text (JObj ms) @ r, rd_err = e\<rparr> = Inr (JObj ms)"
proof -
  have "json_val (Suc (2 * length (json_text (JObj ms) @ r) + 1)) 10000 (json_text (JObj ms) @ r) = Some (JObj ms, r)"
    using assms json_steps_text [of "JObj ms"] by (intro json_val_text) simp_all
  then show ?thesis by (simp add: json_decode_def del: json_val.simps json_text.simps)
qed

end
