(* ===== verification/WgApiJson.thy ===== *)
theory WgApiJson
  imports WgConf WgConfig GoJsonText
begin

text \<open>
  internal/wgapi/json.go: devices and configurations as the REST API sends and receives them.
  The decoding is that of \<open>encoding/json\<close> into a value that may have contents already, as it
  has when a document repeats a member.
\<close>

section \<open>Dates\<close>

text \<open>Year, month and day of a day counted from the first of January of year 1.\<close>

definition civil_date :: "int \<Rightarrow> int \<times> int \<times> int" where
  "civil_date days =
     (let z = days + 306; era = z div 146097; doe = z mod 146097;
          yoe = (doe - doe div 1460 + doe div 36524 - doe div 146096) div 365;
          doy = doe - (365 * yoe + yoe div 4 - yoe div 100);
          mp = (5 * doy + 2) div 153;
          d = doy - (153 * mp + 2) div 5 + 1;
          m = (if mp < 10 then mp + 3 else mp - 9);
          y = yoe + era * 400 + (if m \<le> 2 then 1 else 0)
      in (y, m, d))"

text \<open>A number with zeros before it, up to a width.\<close>

definition zero_pad :: "nat \<Rightarrow> int \<Rightarrow> string" where
  "zero_pad w i =
     (let t = nat_str 10 (nat \<bar>i\<bar>)
      in (if i < 0 then ''-'' else []) @ replicate (w - length t) (CHR ''0'') @ t)"

text \<open>\<open>t.UTC().Format(time.RFC3339)\<close>\<close>

definition rfc3339 :: "go_time \<Rightarrow> string" where
  "rfc3339 t =
     (let s = fst t mod 86400
      in case civil_date (fst t div 86400) of
           (y, m, d) \<Rightarrow>
             zero_pad 4 y @ ''-'' @ zero_pad 2 m @ ''-'' @ zero_pad 2 d @ ''T''
             @ zero_pad 2 (s div 3600) @ '':'' @ zero_pad 2 (s div 60 mod 60) @ '':'' @ zero_pad 2 (s mod 60) @ ''Z'')"

section \<open>Devices\<close>

record api_peer =
  ap_name :: string
  ap_public_key :: string
  ap_preshared_key :: string
  ap_has_preshared_key :: bool
  ap_endpoint :: string
  ap_has_endpoint :: bool
  ap_keepalive_seconds :: int
  ap_last_handshake :: string
  ap_receive_bytes :: int
  ap_transmit_bytes :: int
  ap_allowed_ips :: "string list"
  ap_protocol_version :: int

record api_device =
  ad_name :: string
  ad_type :: string
  ad_private_key :: string
  ad_has_private_key :: bool
  ad_public_key :: string
  ad_has_public_key :: bool
  ad_listen_port :: int
  ad_has_listen_port :: bool
  ad_fwmark :: int
  ad_has_fwmark :: bool
  ad_peers :: "api_peer list"

definition api_endpoint :: "udp_addr \<Rightarrow> string" where
  "api_endpoint a =
     (let host = ip_str (ua_ip a);
          host' = (if ua_zone a \<noteq> [] then host @ ''%'' @ ua_zone a else host)
      in join_host_port host' (itoa (ua_port a)))"

definition peer_to_json :: "peer \<Rightarrow> bool \<Rightarrow> api_peer" where
  "peer_to_json p hide =
     \<lparr>ap_name = (case p_name p of None \<Rightarrow> [] | Some n \<Rightarrow> n),
      ap_public_key = key_str (p_public_key p),
      ap_preshared_key = (if \<not> hide then key_str (p_preshared_key p) else []),
      ap_has_preshared_key = p_has_preshared_key p,
      ap_endpoint = (case p_endpoint p of None \<Rightarrow> [] | Some a \<Rightarrow> if p_has_endpoint p then api_endpoint a else []),
      ap_has_endpoint = p_has_endpoint p,
      ap_keepalive_seconds = (if p_keepalive p \<noteq> 0 then tdiv (p_keepalive p) second else 0),
      ap_last_handshake = (if p_last_handshake p \<noteq> zero_time then rfc3339 (p_last_handshake p) else []),
      ap_receive_bytes = p_receive_bytes p, ap_transmit_bytes = p_transmit_bytes p,
      ap_allowed_ips = map ip_net_str (p_allowed_ips p), ap_protocol_version = p_protocol_version p\<rparr>"

definition device_to_json :: "device \<Rightarrow> bool \<Rightarrow> api_device" where
  "device_to_json d hide =
     \<lparr>ad_name = d_name d, ad_type = device_type_str (d_type d),
      ad_private_key = (if \<not> hide then key_str (d_private_key d) else []),
      ad_has_private_key = d_has_private_key d, ad_public_key = key_str (d_public_key d),
      ad_has_public_key = d_has_public_key d, ad_listen_port = d_listen_port d,
      ad_has_listen_port = d_has_listen_port d, ad_fwmark = d_firewall_mark d,
      ad_has_fwmark = d_has_firewall_mark d, ad_peers = map (\<lambda>p. peer_to_json p hide) (d_peers d)\<rparr>"

text \<open>The documents, by the tags of the structs: \<open>omitempty\<close> leaves out an empty value.\<close>

definition omit :: "bool \<Rightarrow> string \<Rightarrow> json \<Rightarrow> (string \<times> json) list" where
  "omit is_empty k v = (if is_empty then [] else [(k, v)])"

definition api_peer_value :: "api_peer \<Rightarrow> json" where
  "api_peer_value p = JObj
     (omit (ap_name p = []) ''name'' (JStr (ap_name p))
      @ [(''public_key'', JStr (ap_public_key p))]
      @ omit (ap_preshared_key p = []) ''preshared_key'' (JStr (ap_preshared_key p))
      @ [(''has_preshared_key'', JBool (ap_has_preshared_key p))]
      @ omit (ap_endpoint p = []) ''endpoint'' (JStr (ap_endpoint p))
      @ [(''has_endpoint'', JBool (ap_has_endpoint p))]
      @ omit (ap_keepalive_seconds p = 0) ''persistent_keepalive_seconds'' (JNum (itoa (ap_keepalive_seconds p)))
      @ omit (ap_last_handshake p = []) ''last_handshake_time'' (JStr (ap_last_handshake p))
      @ [(''receive_bytes'', JNum (itoa (ap_receive_bytes p))), (''transmit_bytes'', JNum (itoa (ap_transmit_bytes p)))]
      @ omit (ap_allowed_ips p = []) ''allowed_ips'' (JArr (map JStr (ap_allowed_ips p)))
      @ [(''protocol_version'', JNum (itoa (ap_protocol_version p)))])"

definition api_device_value :: "api_device \<Rightarrow> json" where
  "api_device_value d = JObj
     ([(''name'', JStr (ad_name d)), (''type'', JStr (ad_type d))]
      @ omit (ad_private_key d = []) ''private_key'' (JStr (ad_private_key d))
      @ [(''has_private_key'', JBool (ad_has_private_key d))]
      @ omit (ad_public_key d = []) ''public_key'' (JStr (ad_public_key d))
      @ [(''has_public_key'', JBool (ad_has_public_key d)), (''listen_port'', JNum (itoa (ad_listen_port d))),
         (''has_listen_port'', JBool (ad_has_listen_port d)), (''fwmark'', JNum (itoa (ad_fwmark d))),
         (''has_fwmark'', JBool (ad_has_fwmark d)), (''peers'', JArr (map api_peer_value (ad_peers d)))])"

section \<open>Decoding into Go values\<close>

text \<open>
  \<open>null\<close> sets a pointer to nil and a slice to nil, and leaves every other value as it is.
  A value of another kind is an error.
\<close>

definition json_mismatch :: go_error where
  "json_mismatch = ErrText ''json: cannot unmarshal''"

fun dec_string :: "json \<Rightarrow> string \<Rightarrow> string res" where
  "dec_string (JStr s) x = Inr s"
| "dec_string JNull x = Inr x"
| "dec_string v x = Inl json_mismatch"

fun dec_bool :: "json \<Rightarrow> bool \<Rightarrow> bool res" where
  "dec_bool (JBool b) x = Inr b"
| "dec_bool JNull x = Inr x"
| "dec_bool v x = Inl json_mismatch"

definition dec_ptr :: "(json \<Rightarrow> 'a \<Rightarrow> 'a res) \<Rightarrow> 'a \<Rightarrow> json \<Rightarrow> 'a option \<Rightarrow> 'a option res" where
  "dec_ptr f zero v old =
     (if v = JNull then Inr None
      else bind_res (f v (case old of None \<Rightarrow> zero | Some x \<Rightarrow> x)) (\<lambda>x. Inr (Some x)))"

text \<open>
  A slice is the elements of its array that have been written, and its length. An array is
  decoded into the elements that are there, also those beyond the length; an empty one makes a
  new slice.
\<close>

type_synonym 'a slice = "'a list \<times> nat"

definition live :: "'a slice \<Rightarrow> 'a list" where
  "live s = take (snd s) (fst s)"

fun dec_elems :: "(json \<Rightarrow> 'a \<Rightarrow> 'a res) \<Rightarrow> 'a \<Rightarrow> json list \<Rightarrow> 'a list \<Rightarrow> 'a list res" where
  "dec_elems f zero [] old = Inr old"
| "dec_elems f zero (v # vs) old =
     bind_res (f v (case old of [] \<Rightarrow> zero | x # _ \<Rightarrow> x))
       (\<lambda>x. bind_res (dec_elems f zero vs (tl old)) (\<lambda>xs. Inr (x # xs)))"

fun dec_slice :: "(json \<Rightarrow> 'a \<Rightarrow> 'a res) \<Rightarrow> 'a \<Rightarrow> json \<Rightarrow> 'a slice \<Rightarrow> 'a slice res" where
  "dec_slice f zero (JArr vs) s =
     (if vs = [] then Inr ([], 0)
      else bind_res (dec_elems f zero vs (fst s)) (\<lambda>xs. Inr (xs, length vs)))"
| "dec_slice f zero JNull s = Inr ([], 0)"
| "dec_slice f zero v s = Inl json_mismatch"

fun dec_struct :: "(string \<times> json \<Rightarrow> 'a \<Rightarrow> 'a res) \<Rightarrow> json \<Rightarrow> 'a \<Rightarrow> 'a res" where
  "dec_struct member (JObj ms) x = fold_res member ms x"
| "dec_struct member JNull x = Inr x"
| "dec_struct member v x = Inl json_mismatch"

section \<open>Configurations\<close>

record api_peer_config =
  jp_name :: "string option"
  jp_public_key :: string
  jp_remove :: bool
  jp_update_only :: bool
  jp_preshared_key :: "string option"
  jp_endpoint :: "string option"
  jp_keepalive_seconds :: "int option"
  jp_replace_allowed_ips :: bool
  jp_allowed_ips :: "string slice"

record api_config =
  jc_private_key :: "string option"
  jc_listen_port :: "int option"
  jc_fwmark :: "int option"
  jc_replace_peers :: bool
  jc_peers :: "api_peer_config slice"

definition zero_api_peer_config :: api_peer_config where
  "zero_api_peer_config = \<lparr>jp_name = None, jp_public_key = [], jp_remove = False, jp_update_only = False,
     jp_preshared_key = None, jp_endpoint = None, jp_keepalive_seconds = None,
     jp_replace_allowed_ips = False, jp_allowed_ips = ([], 0)\<rparr>"

definition zero_api_config :: api_config where
  "zero_api_config = \<lparr>jc_private_key = None, jc_listen_port = None, jc_fwmark = None,
     jc_replace_peers = False, jc_peers = ([], 0)\<rparr>"

definition dec_peer_member :: "string \<times> json \<Rightarrow> api_peer_config \<Rightarrow> api_peer_config res" where
  "dec_peer_member m p =
     (let is = equal_fold_ascii (fst m); v = snd m
      in if is ''name'' then bind_res (dec_ptr dec_string [] v (jp_name p)) (\<lambda>x. Inr (p\<lparr>jp_name := x\<rparr>))
         else if is ''public_key'' then bind_res (dec_string v (jp_public_key p)) (\<lambda>x. Inr (p\<lparr>jp_public_key := x\<rparr>))
         else if is ''remove'' then bind_res (dec_bool v (jp_remove p)) (\<lambda>x. Inr (p\<lparr>jp_remove := x\<rparr>))
         else if is ''update_only'' then bind_res (dec_bool v (jp_update_only p)) (\<lambda>x. Inr (p\<lparr>jp_update_only := x\<rparr>))
         else if is ''preshared_key'' then
           bind_res (dec_ptr dec_string [] v (jp_preshared_key p)) (\<lambda>x. Inr (p\<lparr>jp_preshared_key := x\<rparr>))
         else if is ''endpoint'' then
           bind_res (dec_ptr dec_string [] v (jp_endpoint p)) (\<lambda>x. Inr (p\<lparr>jp_endpoint := x\<rparr>))
         else if is ''persistent_keepalive_seconds'' then
           bind_res (dec_ptr json_int_field 0 v (jp_keepalive_seconds p)) (\<lambda>x. Inr (p\<lparr>jp_keepalive_seconds := x\<rparr>))
         else if is ''replace_allowed_ips'' then
           bind_res (dec_bool v (jp_replace_allowed_ips p)) (\<lambda>x. Inr (p\<lparr>jp_replace_allowed_ips := x\<rparr>))
         else if is ''allowed_ips'' then
           bind_res (dec_slice dec_string [] v (jp_allowed_ips p)) (\<lambda>x. Inr (p\<lparr>jp_allowed_ips := x\<rparr>))
         else Inr p)"

definition dec_config_member :: "string \<times> json \<Rightarrow> api_config \<Rightarrow> api_config res" where
  "dec_config_member m c =
     (let is = equal_fold_ascii (fst m); v = snd m
      in if is ''private_key'' then
           bind_res (dec_ptr dec_string [] v (jc_private_key c)) (\<lambda>x. Inr (c\<lparr>jc_private_key := x\<rparr>))
         else if is ''listen_port'' then
           bind_res (dec_ptr json_int_field 0 v (jc_listen_port c)) (\<lambda>x. Inr (c\<lparr>jc_listen_port := x\<rparr>))
         else if is ''fwmark'' then bind_res (dec_ptr json_int_field 0 v (jc_fwmark c)) (\<lambda>x. Inr (c\<lparr>jc_fwmark := x\<rparr>))
         else if is ''replace_peers'' then
           bind_res (dec_bool v (jc_replace_peers c)) (\<lambda>x. Inr (c\<lparr>jc_replace_peers := x\<rparr>))
         else if is ''peers'' then
           bind_res (dec_slice (dec_struct dec_peer_member) zero_api_peer_config v (jc_peers c))
             (\<lambda>x. Inr (c\<lparr>jc_peers := x\<rparr>))
         else Inr c)"

definition dec_config :: "json \<Rightarrow> api_config res" where
  "dec_config v = dec_struct dec_config_member v zero_api_config"

definition api_allowed_ip :: "string \<Rightarrow> ip_net res" where
  "api_allowed_ip cidr =
     (case parse_cidr (trim_space cidr) of
        Inl e \<Rightarrow> Inl (ErrWrap ''allowed_ips'' e)
      | Inr (i, n) \<Rightarrow> Inr n)"

definition opt_res :: "string \<Rightarrow> ('a \<Rightarrow> 'b res) \<Rightarrow> 'a option \<Rightarrow> 'b option res" where
  "opt_res field f v =
     (case v of None \<Rightarrow> Inr None
      | Some x \<Rightarrow> (case f x of Inl e \<Rightarrow> Inl (ErrWrap field e) | Inr y \<Rightarrow> Inr (Some y)))"

definition parse_peer_config :: "resolver \<Rightarrow> api_peer_config \<Rightarrow> peer_config res" where
  "parse_peer_config rs p =
     (case parse_key (jp_public_key p) of
        Inl e \<Rightarrow> Inl (ErrWrap ''public_key'' e)
      | Inr key \<Rightarrow>
          bind_res (opt_res ''preshared_key'' parse_key (jp_preshared_key p)) (\<lambda>psk.
            bind_res (opt_res ''endpoint'' (resolve_udp_addr rs) (jp_endpoint p)) (\<lambda>ep.
              bind_res (map_res api_allowed_ip (live (jp_allowed_ips p))) (\<lambda>ips.
                Inr \<lparr>pc_name = jp_name p, pc_public_key = key, pc_remove = jp_remove p,
                  pc_update_only = jp_update_only p, pc_preshared_key = psk, pc_endpoint = ep,
                  pc_keepalive = map_option (\<lambda>s. wrap64 (s * second)) (jp_keepalive_seconds p),
                  pc_replace_allowed_ips = jp_replace_allowed_ips p, pc_allowed_ips = ips,
                  pc_allowed_ip_ops = []\<rparr>))))"

definition parse_config :: "resolver \<Rightarrow> api_config \<Rightarrow> config res" where
  "parse_config rs c =
     bind_res (opt_res ''private_key'' parse_key (jc_private_key c)) (\<lambda>key.
       bind_res (map_res (\<lambda>(i, p). case parse_peer_config rs p of
           Inl e \<Rightarrow> Inl (ErrWrap (''peers['' @ itoa (int i) @ '']'') e) | Inr pc \<Rightarrow> Inr pc)
         (enumerate 0 (live (jc_peers c)))) (\<lambda>ps.
         Inr \<lparr>c_private_key = key, c_listen_port = jc_listen_port c, c_firewall_mark = jc_fwmark c,
           c_replace_peers = jc_replace_peers c, c_peers = ps\<rparr>))"

section \<open>Configurations sent to the API\<close>

text \<open>The document a client sends for a configuration, by the tags of the structs.\<close>

definition opt_member :: "string \<Rightarrow> ('a \<Rightarrow> json) \<Rightarrow> 'a option \<Rightarrow> (string \<times> json) list" where
  "opt_member k f v = (case v of None \<Rightarrow> [] | Some x \<Rightarrow> [(k, f x)])"

definition int_value :: "int \<Rightarrow> json" where
  "int_value i = JNum (itoa i)"

definition peer_config_value :: "peer_config \<Rightarrow> json" where
  "peer_config_value p = JObj
     (opt_member ''name'' JStr (pc_name p)
      @ [(''public_key'', JStr (key_str (pc_public_key p)))]
      @ omit (\<not> pc_remove p) ''remove'' (JBool True)
      @ omit (\<not> pc_update_only p) ''update_only'' (JBool True)
      @ opt_member ''preshared_key'' (\<lambda>k. JStr (key_str k)) (pc_preshared_key p)
      @ opt_member ''endpoint'' (\<lambda>a. JStr (udp_addr_str a)) (pc_endpoint p)
      @ opt_member ''persistent_keepalive_seconds'' (\<lambda>d. int_value (d div second)) (pc_keepalive p)
      @ omit (\<not> pc_replace_allowed_ips p) ''replace_allowed_ips'' (JBool True)
      @ omit (pc_allowed_ips p = []) ''allowed_ips'' (JArr (map (\<lambda>n. JStr (ip_net_str n)) (pc_allowed_ips p))))"

definition config_value :: "config \<Rightarrow> json" where
  "config_value c = JObj
     (opt_member ''private_key'' (\<lambda>k. JStr (key_str k)) (c_private_key c)
      @ opt_member ''listen_port'' int_value (c_listen_port c)
      @ opt_member ''fwmark'' int_value (c_firewall_mark c)
      @ omit (\<not> c_replace_peers c) ''replace_peers'' (JBool True)
      @ omit (c_peers c = []) ''peers'' (JArr (map peer_config_value (c_peers c))))"

definition int64 :: "int \<Rightarrow> bool" where
  "int64 i \<longleftrightarrow> - (2 ^ 63) \<le> i \<and> i < 2 ^ 63"

definition sendable_peer :: "peer_config \<Rightarrow> bool" where
  "sendable_peer p \<longleftrightarrow> opt_all valid_string (pc_name p) \<and> wf_key (pc_public_key p) \<and> opt_all wf_key (pc_preshared_key p)
     \<and> opt_all (\<lambda>a. (length (ua_ip a) = 4 \<or> length (ua_ip a) = 16) \<and> 0 \<le> ua_port a \<and> ua_port a \<le> 65535 \<and> ua_zone a = []) (pc_endpoint p)
     \<and> opt_all (\<lambda>d. int64 d \<and> d mod second = 0) (pc_keepalive p)
     \<and> list_all (\<lambda>n. canonical_net n \<and> ip_masked (net_ip n) (net_mask n) = net_ip n) (pc_allowed_ips p)
     \<and> pc_allowed_ip_ops p = []"

definition sendable :: "config \<Rightarrow> bool" where
  "sendable c \<longleftrightarrow> opt_all wf_key (c_private_key c) \<and> opt_all int64 (c_listen_port c) \<and> opt_all int64 (c_firewall_mark c)
     \<and> list_all sendable_peer (c_peers c)"

text \<open>An address that has been printed and read has sixteen bytes.\<close>

definition peer_addr16 :: "peer_config \<Rightarrow> peer_config" where
  "peer_addr16 p = p\<lparr>pc_endpoint := map_option addr16 (pc_endpoint p)\<rparr>"

section \<open>The decoder on these documents\<close>

definition peer_members :: "string list" where
  "peer_members = [''name'', ''public_key'', ''remove'', ''update_only'', ''preshared_key'', ''endpoint'',
     ''persistent_keepalive_seconds'', ''replace_allowed_ips'', ''allowed_ips'']"

definition config_members :: "string list" where
  "config_members = [''private_key'', ''listen_port'', ''fwmark'', ''replace_peers'', ''peers'']"

lemma member_names:
  "list_all (\<lambda>a. list_all (\<lambda>b. equal_fold_ascii a b = (a = b)) peer_members) peer_members"
  "list_all (\<lambda>a. list_all (\<lambda>b. equal_fold_ascii a b = (a = b)) config_members) config_members"
  by code_simp+

lemma peer_member [simp]: "a \<in> set peer_members \<Longrightarrow> b \<in> set peer_members \<Longrightarrow> equal_fold_ascii a b = (a = b)"
  using member_names(1) by (simp add: list_all_iff)

lemma config_member [simp]: "a \<in> set config_members \<Longrightarrow> b \<in> set config_members \<Longrightarrow> equal_fold_ascii a b = (a = b)"
  using member_names(2) by (simp add: list_all_iff)

lemma int_value_not_null [simp]: "int_value i \<noteq> JNull"
  by (simp add: int_value_def)

lemma json_int_field_int: "int64 i \<Longrightarrow> json_int_field (int_value i) x = Inr i"
  by (simp add: int_value_def int64_def parse_int64_itoa)

lemma dec_elems_map:
  "(\<And>x. x \<in> set xs \<Longrightarrow> f (g x) zero = Inr (h x)) \<Longrightarrow> dec_elems f zero (map g xs) [] = Inr (map h xs)"
  by (induction xs) simp_all

lemma dec_slice_map:
  "(\<And>x. x \<in> set xs \<Longrightarrow> f (g x) zero = Inr (h x)) \<Longrightarrow> xs \<noteq> [] \<Longrightarrow>
   dec_slice f zero (JArr (map g xs)) ([], 0) = Inr (map h xs, length xs)"
  using dec_elems_map [of xs f g zero h] by simp

definition sent_peer :: "peer_config \<Rightarrow> api_peer_config" where
  "sent_peer p = \<lparr>jp_name = pc_name p, jp_public_key = key_str (pc_public_key p), jp_remove = pc_remove p,
     jp_update_only = pc_update_only p, jp_preshared_key = map_option key_str (pc_preshared_key p),
     jp_endpoint = map_option udp_addr_str (pc_endpoint p),
     jp_keepalive_seconds = map_option (\<lambda>d. d div second) (pc_keepalive p),
     jp_replace_allowed_ips = pc_replace_allowed_ips p,
     jp_allowed_ips = (map ip_net_str (pc_allowed_ips p), length (pc_allowed_ips p))\<rparr>"

lemma fold_res_opt:
  "fold_res f (opt_member k g v) x = (case v of None \<Rightarrow> Inr x | Some y \<Rightarrow> f (k, g y) x)"
  by (cases v) (auto simp: opt_member_def bind_res_def split: sum.split)

lemma fold_res_omit: "fold_res f (omit b k v) x = (if b then Inr x else f (k, v) x)"
  by (auto simp: omit_def bind_res_def split: sum.split)

lemma fold_res_one: "fold_res f [m] x = f m x"
  by (auto simp: bind_res_def split: sum.split)

lemma dec_peer_members:
  "dec_peer_member (''name'', v) p = bind_res (dec_ptr dec_string [] v (jp_name p)) (\<lambda>x. Inr (p\<lparr>jp_name := x\<rparr>))"
  "dec_peer_member (''public_key'', v) p = bind_res (dec_string v (jp_public_key p)) (\<lambda>x. Inr (p\<lparr>jp_public_key := x\<rparr>))"
  "dec_peer_member (''remove'', v) p = bind_res (dec_bool v (jp_remove p)) (\<lambda>x. Inr (p\<lparr>jp_remove := x\<rparr>))"
  "dec_peer_member (''update_only'', v) p = bind_res (dec_bool v (jp_update_only p)) (\<lambda>x. Inr (p\<lparr>jp_update_only := x\<rparr>))"
  "dec_peer_member (''preshared_key'', v) p = bind_res (dec_ptr dec_string [] v (jp_preshared_key p)) (\<lambda>x. Inr (p\<lparr>jp_preshared_key := x\<rparr>))"
  "dec_peer_member (''endpoint'', v) p = bind_res (dec_ptr dec_string [] v (jp_endpoint p)) (\<lambda>x. Inr (p\<lparr>jp_endpoint := x\<rparr>))"
  "dec_peer_member (''persistent_keepalive_seconds'', v) p =
     bind_res (dec_ptr json_int_field 0 v (jp_keepalive_seconds p)) (\<lambda>x. Inr (p\<lparr>jp_keepalive_seconds := x\<rparr>))"
  "dec_peer_member (''replace_allowed_ips'', v) p = bind_res (dec_bool v (jp_replace_allowed_ips p)) (\<lambda>x. Inr (p\<lparr>jp_replace_allowed_ips := x\<rparr>))"
  "dec_peer_member (''allowed_ips'', v) p = bind_res (dec_slice dec_string [] v (jp_allowed_ips p)) (\<lambda>x. Inr (p\<lparr>jp_allowed_ips := x\<rparr>))"
  by (simp_all add: dec_peer_member_def Let_def peer_members_def)

lemma dec_config_members:
  "dec_config_member (''private_key'', v) c = bind_res (dec_ptr dec_string [] v (jc_private_key c)) (\<lambda>x. Inr (c\<lparr>jc_private_key := x\<rparr>))"
  "dec_config_member (''listen_port'', v) c = bind_res (dec_ptr json_int_field 0 v (jc_listen_port c)) (\<lambda>x. Inr (c\<lparr>jc_listen_port := x\<rparr>))"
  "dec_config_member (''fwmark'', v) c = bind_res (dec_ptr json_int_field 0 v (jc_fwmark c)) (\<lambda>x. Inr (c\<lparr>jc_fwmark := x\<rparr>))"
  "dec_config_member (''replace_peers'', v) c = bind_res (dec_bool v (jc_replace_peers c)) (\<lambda>x. Inr (c\<lparr>jc_replace_peers := x\<rparr>))"
  "dec_config_member (''peers'', v) c =
     bind_res (dec_slice (dec_struct dec_peer_member) zero_api_peer_config v (jc_peers c)) (\<lambda>x. Inr (c\<lparr>jc_peers := x\<rparr>))"
  by (simp_all add: dec_config_member_def Let_def config_members_def)

lemmas decode_members = fold_res_append fold_res_opt fold_res_omit fold_res_one dec_peer_members dec_config_members dec_ptr_def

lemma int_seconds64: "int64 d \<Longrightarrow> int64 (d div second)"
  by (auto simp: int64_def second_def)

lemma dec_sent_peer:
  assumes "sendable_peer p"
  shows "dec_struct dec_peer_member (peer_config_value p) zero_api_peer_config = Inr (sent_peer p)"
proof -
  have k: "json_int_field (int_value (d div second)) 0 = Inr (d div second)" if "pc_keepalive p = Some d" for d
    using assms that by (intro json_int_field_int int_seconds64) (simp add: sendable_peer_def)
  have ips: "dec_slice dec_string [] (JArr (map (\<lambda>n. JStr (ip_net_str n)) ns)) ([], 0) = Inr (map ip_net_str ns, length ns)"
    if "ns \<noteq> []" for ns
    using that by (intro dec_slice_map) simp_all
  show ?thesis
    unfolding peer_config_value_def dec_struct.simps
    by (cases "pc_name p"; cases "pc_preshared_key p"; cases "pc_endpoint p"; cases "pc_keepalive p"; cases "pc_allowed_ips p = []")
       (simp_all add: decode_members zero_api_peer_config_def sent_peer_def k ips del: dec_slice.simps(1))
qed

definition sent_config :: "config \<Rightarrow> api_config" where
  "sent_config c = \<lparr>jc_private_key = map_option key_str (c_private_key c), jc_listen_port = c_listen_port c,
     jc_fwmark = c_firewall_mark c, jc_replace_peers = c_replace_peers c,
     jc_peers = (map sent_peer (c_peers c), length (c_peers c))\<rparr>"

lemma dec_sent_config:
  assumes "sendable c"
  shows "dec_config (config_value c) = Inr (sent_config c)"
proof -
  have n: "json_int_field (int_value i) 0 = Inr i" if "c_listen_port c = Some i \<or> c_firewall_mark c = Some i" for i
    using assms that by (intro json_int_field_int) (auto simp: sendable_def)
  have ps: "dec_slice (dec_struct dec_peer_member) zero_api_peer_config (JArr (map peer_config_value (c_peers c))) ([], 0) =
      Inr (map sent_peer (c_peers c), length (c_peers c))" if "c_peers c \<noteq> []"
    using assms that by (intro dec_slice_map dec_sent_peer) (simp_all add: sendable_def list_all_iff)
  show ?thesis
    unfolding config_value_def dec_config_def dec_struct.simps
    by (cases "c_private_key c"; cases "c_listen_port c"; cases "c_firewall_mark c"; cases "c_peers c = []")
       (simp_all add: decode_members zero_api_config_def sent_config_def n ps del: dec_slice.simps(1))
qed

lemma opt_res_ok: "opt_all (\<lambda>x. f (g x) = Inr (h x)) v \<Longrightarrow> opt_res field f (map_option g v) = Inr (map_option h v)"
  by (cases v) (simp_all add: opt_res_def)

lemma ip_net_str_trim:
  assumes n: "canonical_net n" shows "trim_space (ip_net_str n) = ip_net_str n"
proof -
  have graph: "graph c" if "c \<in> set (ip_net_str n)" for c
    using plain_graph ip_net_str_set(1) [OF n] that by blast
  show ?thesis using ip_net_str_not_Nil [OF n] graph by (intro trim_space_graph) auto
qed

lemma api_allowed_ip_str:
  assumes "canonical_net n" and "ip_masked (net_ip n) (net_mask n) = net_ip n"
  shows "api_allowed_ip (ip_net_str n) = Inr n"
  using assms by (simp add: api_allowed_ip_def ip_net_str_trim parse_cidr_ip_net_str ip_masked_net16)

lemma parse_sent_peer:
  assumes p: "sendable_peer p"
  shows "parse_peer_config rs (sent_peer p) = Inr (peer_addr16 p)"
proof -
  have psk: "opt_res ''preshared_key'' parse_key (map_option key_str (pc_preshared_key p)) = Inr (map_option id (pc_preshared_key p))"
    using p by (intro opt_res_ok) (cases "pc_preshared_key p"; simp add: sendable_peer_def)
  have ep: "opt_res ''endpoint'' (resolve_udp_addr rs) (map_option udp_addr_str (pc_endpoint p)) = Inr (map_option addr16 (pc_endpoint p))"
  proof (intro opt_res_ok, cases "pc_endpoint p")
    case (Some a)
    then have "resolve_udp_addr rs (udp_addr_str a) = Inr (a\<lparr>ua_ip := the (to16 (ua_ip a))\<rparr>)" "length (ua_ip a) = 4 \<or> length (ua_ip a) = 16"
      using p by (auto simp: sendable_peer_def intro!: resolve_udp_addr_str)
    then show "opt_all (\<lambda>x. resolve_udp_addr rs (udp_addr_str x) = Inr (addr16 x)) (pc_endpoint p)"
      using Some to16_length [of "ua_ip a"] by (auto simp: addr16_def)
  qed simp
  have ips: "map_res api_allowed_ip (live (map ip_net_str (pc_allowed_ips p), length (pc_allowed_ips p))) = Inr (pc_allowed_ips p)"
  proof -
    have "map_res (api_allowed_ip \<circ> ip_net_str) (pc_allowed_ips p) = Inr (map id (pc_allowed_ips p))"
      using p by (intro map_res_all_ok) (auto simp: sendable_peer_def list_all_iff api_allowed_ip_str)
    then show ?thesis by (simp add: live_def)
  qed
  have k: "map_option (\<lambda>s. wrap64 (s * second)) (map_option (\<lambda>d. d div second) (pc_keepalive p)) = pc_keepalive p"
  proof (cases "pc_keepalive p")
    case (Some d)
    then have "d div second * second = d" "int64 d" using p by (auto simp: sendable_peer_def)
    then show ?thesis using Some by (simp add: int64_def)
  qed simp
  have key: "parse_key (key_str (pc_public_key p)) = Inr (pc_public_key p)" using p by (simp add: sendable_peer_def)
  have ops: "pc_allowed_ip_ops p = []" using p by (simp add: sendable_peer_def)
  show ?thesis
    using psk ep ips k key ops by (simp add: parse_peer_config_def sent_peer_def peer_addr16_def option.map_id)
qed

lemma parse_sent_config:
  assumes c: "sendable c"
  shows "parse_config rs (sent_config c) = Inr (c\<lparr>c_peers := map peer_addr16 (c_peers c)\<rparr>)"
proof -
  have key: "opt_res ''private_key'' parse_key (map_option key_str (c_private_key c)) = Inr (map_option id (c_private_key c))"
    using c by (intro opt_res_ok) (cases "c_private_key c"; simp add: sendable_def)
  have "map_res (\<lambda>(i, p). case parse_peer_config rs p of Inl e \<Rightarrow> Inl (ErrWrap (''peers['' @ itoa (int i) @ '']'') e) | Inr pc \<Rightarrow> Inr pc)
      (enumerate n (map sent_peer ps)) = Inr (map peer_addr16 ps)" if "list_all sendable_peer ps" for n ps
    using that by (induction ps arbitrary: n) (simp_all add: parse_sent_peer)
  then show ?thesis using c key
    by (simp add: parse_config_def sent_config_def live_def sendable_def option.map_id)
qed

lemma plain_valid: "set s \<subseteq> plain \<Longrightarrow> valid_string s"
  using plain_graph by (intro ascii_valid graph_ascii) blast

lemma key_str_valid: "valid_string (key_str k)"
  using key_str_graph by (intro ascii_valid graph_ascii) blast

lemma ascii_subset: "set s \<subseteq> set t \<Longrightarrow> ascii t \<Longrightarrow> ascii s"
  unfolding ascii_def list_all_iff by blast

lemma udp_addr_str_valid:
  assumes "length (ua_ip a) = 4 \<or> length (ua_ip a) = 16" and "ua_zone a = []"
  shows "valid_string (udp_addr_str a)"
proof -
  have ne: "ua_ip a \<noteq> []" using assms(1) by auto
  have asc: "ascii ''.:0123456789abcdef''" "ascii ''0123456789''" by code_simp+
  have "ascii (ip_str (ua_ip a))" by (rule ascii_subset [OF ip_str_set [OF assms(1)] asc(1)])
  moreover have "ascii (nat_str 10 n)" for n by (rule ascii_subset [OF nat_str_dec_set asc(2)])
  ultimately show ?thesis
    using ne assms(2) by (intro ascii_valid) (simp add: udp_addr_str_def join_host_port_def itoa_def int_str_def Let_def)
qed

lemma member_names_valid: "list_all valid_string (peer_members @ config_members)"
  by code_simp

lemma valid_member: "k \<in> set peer_members \<or> k \<in> set config_members \<Longrightarrow> valid_string k"
  using member_names_valid by (auto simp: list_all_iff)

lemma opt_all_True [simp]: "opt_all (\<lambda>_. True) v"
  by (cases v) simp_all

lemma json_ok_opt:
  "valid_string k \<Longrightarrow> list_all (\<lambda>(k, v). valid_string k \<and> json_ok v) (opt_member k f v) \<longleftrightarrow> opt_all (\<lambda>x. json_ok (f x)) v"
  by (cases v) (auto simp: opt_member_def)

lemma json_ok_omit:
  "list_all (\<lambda>(k, v). valid_string k \<and> json_ok v) (omit b k v) \<longleftrightarrow> b \<or> valid_string k \<and> json_ok v"
  by (simp add: omit_def)

lemma json_fits_opt: "list_all (\<lambda>(k, v). json_fits d v) (opt_member k f v) \<longleftrightarrow> opt_all (\<lambda>x. json_fits d (f x)) v"
  by (cases v) (auto simp: opt_member_def)

lemma json_fits_omit: "list_all (\<lambda>(k, v). json_fits d v) (omit b k v) \<longleftrightarrow> b \<or> json_fits d v"
  by (simp add: omit_def)

lemma int_value_ok [simp]: "json_ok (int_value i)" "json_fits d (int_value i)"
  by (auto simp: int_value_def)

lemma peer_value_ok:
  assumes p: "sendable_peer p"
  shows "json_ok (peer_config_value p)" and "2 \<le> d \<Longrightarrow> json_fits d (peer_config_value p)"
proof -
  have k: "valid_string ''name''" "valid_string ''public_key''" "valid_string ''remove''" "valid_string ''update_only''"
    "valid_string ''preshared_key''" "valid_string ''endpoint''" "valid_string ''persistent_keepalive_seconds''"
    "valid_string ''replace_allowed_ips''" "valid_string ''allowed_ips''"
    by (rule valid_member; simp add: peer_members_def)+
  have "opt_all valid_string (pc_name p)" using p by (simp add: sendable_peer_def)
  moreover have "opt_all (\<lambda>a. valid_string (udp_addr_str a)) (pc_endpoint p)"
    using p by (cases "pc_endpoint p") (auto simp: sendable_peer_def udp_addr_str_valid)
  moreover have "list_all (\<lambda>n. valid_string (ip_net_str n)) (pc_allowed_ips p)"
    using p ip_net_str_set(1) by (auto simp: sendable_peer_def list_all_iff intro!: plain_valid)
  ultimately show "json_ok (peer_config_value p)"
    by (simp add: peer_config_value_def json_ok_opt json_ok_omit k key_str_valid list.pred_map comp_def)
  show "2 \<le> d \<Longrightarrow> json_fits d (peer_config_value p)"
    by (simp add: peer_config_value_def json_fits_opt json_fits_omit list.pred_map comp_def list.pred_True)
qed

lemma config_value_ok:
  assumes c: "sendable c"
  shows "json_ok (config_value c)" and "json_fits 10000 (config_value c)"
proof -
  have k: "valid_string ''private_key''" "valid_string ''listen_port''" "valid_string ''fwmark''"
    "valid_string ''replace_peers''" "valid_string ''peers''"
    by (rule valid_member; simp add: config_members_def)+
  have ps: "list_all (\<lambda>p. json_ok (peer_config_value p)) (c_peers c)" "list_all (\<lambda>p. json_fits 9998 (peer_config_value p)) (c_peers c)"
    using c peer_value_ok by (auto simp: sendable_def list_all_iff)
  show "json_ok (config_value c)"
    using ps by (simp add: config_value_def json_ok_opt json_ok_omit k key_str_valid list.pred_map comp_def)
  show "json_fits 10000 (config_value c)"
    using ps by (simp add: config_value_def json_fits_opt json_fits_omit list.pred_map comp_def)
qed

lemma json_decode_config:
  assumes "sendable c"
  shows "json_decode \<lparr>rd_data = json_text (config_value c), rd_err = e\<rparr> = Inr (config_value c)"
proof -
  obtain ms where ms: "config_value c = JObj ms" by (simp add: config_value_def)
  show ?thesis using json_decode_text [of ms "[]" e] config_value_ok [OF assms] by (simp add: ms del: json_text.simps)
qed

end
