(* ===== verification/WgCli.thy ===== *)
theory WgCli
  imports WgConfig
begin

text \<open>
  internal/wgcli: the output of \<open>wg show\<close> (format.go), and when it is coloured (terminal.go).
  What is written is a string; a writer that fails is not modelled.
\<close>

section \<open>Colours\<close>

definition color_enabled_for :: "string \<Rightarrow> bool \<Rightarrow> bool" where
  "color_enabled_for mode is_tty =
     (if mode = ''always'' then True else if mode = ''never'' then False else is_tty)"

text \<open>\<open>fd\<close> is whether the writer's file is a terminal, when it has a file.\<close>

definition color_enabled :: "bool option \<Rightarrow> string \<Rightarrow> bool" where
  "color_enabled fd mode =
     (if color_enabled_for mode False then True
      else if mode = ''never'' then False
      else case fd of None \<Rightarrow> False | Some tty \<Rightarrow> color_enabled_for mode tty)"

definition styled :: "bool \<Rightarrow> string \<Rightarrow> string \<Rightarrow> string" where
  "styled color sgr v = (if \<not> color then v else sgr @ v @ ansi ''0'')"

definition bold :: "bool \<Rightarrow> string \<Rightarrow> string" where
  "bold color v = styled color (ansi ''1'') v"

section \<open>Times\<close>

definition time_after :: "go_time \<Rightarrow> go_time \<Rightarrow> bool" where
  "time_after t u \<longleftrightarrow> fst t > fst u \<or> fst t = fst u \<and> snd t > snd u"

definition time_is_zero :: "go_time \<Rightarrow> bool" where
  "time_is_zero t \<longleftrightarrow> t = zero_time"

text \<open>\<open>now.Sub(then)\<close>, which stops at the ends of \<open>int64\<close>.\<close>

definition time_sub :: "go_time \<Rightarrow> go_time \<Rightarrow> int" where
  "time_sub t u =
     max (- (2 ^ 63)) (min (2 ^ 63 - 1) ((fst t - fst u) * second + (snd t - snd u)))"

definition handshake_seconds :: "go_time \<Rightarrow> int" where
  "handshake_seconds t = (if time_is_zero t then 0 else time_unix_seconds t)"

definition non_negative :: "int \<Rightarrow> int" where
  "non_negative v = (if v < 0 then 0 else v)"

text \<open>The units that fit into \<open>v\<close> seconds, with their counts.\<close>

definition duration_units :: "(nat \<times> string) list" where
  "duration_units = [(31536000, ''year''), (86400, ''day''), (3600, ''hour''), (60, ''minute''), (1, ''second'')]"

fun duration_parts :: "(nat \<times> string) list \<Rightarrow> nat \<Rightarrow> (nat \<times> string) list" where
  "duration_parts [] v = []"
| "duration_parts ((n, s) # us) v =
     (if n \<le> v then (v div n, s) # duration_parts us (v mod n) else duration_parts us v)"

definition duration_part :: "bool \<Rightarrow> nat \<times> string \<Rightarrow> string" where
  "duration_part color p =
     nat_str 10 (fst p) @ '' '' @ styled color (ansi ''36'') (if fst p \<noteq> 1 then snd p @ ''s'' else snd p)"

definition pretty_duration :: "nat \<Rightarrow> bool \<Rightarrow> string" where
  "pretty_duration v color = join '', '' (map (duration_part color) (duration_parts duration_units v))"

definition duration_text :: "int \<Rightarrow> bool \<Rightarrow> string" where
  "duration_text d color = pretty_duration (to_uint 64 (tdiv d second)) color"

definition ago :: "go_time \<Rightarrow> go_time \<Rightarrow> bool \<Rightarrow> string" where
  "ago now t color =
     (if now = t then ''Now''
      else if time_after t now then
        ''('' @ styled color (ansi ''31'') ''System clock wound backward; connection problems may ensue.'' @ '')''
      else pretty_duration (to_uint 64 (tdiv (time_sub now t) second)) color @ '' ago'')"

section \<open>Numbers of bytes\<close>

text \<open>The quotient, rounded to the nearest integer, and to the even one when two are as near.\<close>

definition round_half_even :: "nat \<Rightarrow> nat \<Rightarrow> nat" where
  "round_half_even n d =
     (let q = n div d; r = n mod d
      in if 2 * r < d \<or> 2 * r = d \<and> even q then q else q + 1)"

text \<open>\<open>float64(v)\<close>: all but the 53 leading bits are rounded away.\<close>

fun excess_bits :: "nat \<Rightarrow> nat" where
  "excess_bits v = (if v < 2 ^ 53 then 0 else Suc (excess_bits (v div 2)))"

declare excess_bits.simps [simp del]

definition float64_of :: "nat \<Rightarrow> nat" where
  "float64_of v = round_half_even v (2 ^ excess_bits v) * 2 ^ excess_bits v"

text \<open>
  The loop, where \<open>n\<close> is the float \<open>f / 1024 ^ i\<close>; a division by 1024 changes only the
  exponent of the float, so that it is exact.
\<close>

definition byte_units :: "string list" where
  "byte_units = [''B'', ''KiB'', ''MiB'', ''GiB'', ''TiB'']"

function byte_unit :: "nat \<Rightarrow> nat \<Rightarrow> nat" where
  "byte_unit f i = (if 1024 * 1024 ^ i \<le> f \<and> i < length byte_units - 1 then byte_unit f (i + 1) else i)"
  by pat_completeness auto
termination by (relation "measure (\<lambda>(f, i). length byte_units - i)") auto

declare byte_unit.simps [simp del]

text \<open>\<open>%.2f\<close> of a number that is \<open>q\<close> hundredths after rounding.\<close>

definition two_decimals :: "nat \<Rightarrow> string" where
  "two_decimals q = nat_str 10 (q div 100) @ ''.'' @ [digit_char (q div 10 mod 10), digit_char (q mod 10)]"

definition byte_count :: "int \<Rightarrow> bool \<Rightarrow> string" where
  "byte_count v color =
     (let f = float64_of (nat (non_negative v));
          i = byte_unit f 0;
          u = styled color (ansi ''36'') (byte_units ! i)
      in if i = 0 then nat_str 10 f @ '' '' @ u
         else two_decimals (round_half_even (100 * f) (1024 ^ i)) @ '' '' @ u)"

section \<open>The order of the peers\<close>

text \<open>\<open>sort.SliceStable\<close>: an element stays before those that are not less than it.\<close>

fun stable_insert :: "('a \<Rightarrow> 'a \<Rightarrow> bool) \<Rightarrow> 'a \<Rightarrow> 'a list \<Rightarrow> 'a list" where
  "stable_insert lt x [] = [x]"
| "stable_insert lt x (y # ys) = (if lt y x then y # stable_insert lt x ys else x # y # ys)"

fun slice_stable :: "('a \<Rightarrow> 'a \<Rightarrow> bool) \<Rightarrow> 'a list \<Rightarrow> 'a list" where
  "slice_stable lt [] = []"
| "slice_stable lt (x # xs) = stable_insert lt x (slice_stable lt xs)"

definition later_handshake :: "peer \<Rightarrow> peer \<Rightarrow> bool" where
  "later_handshake p q =
     (if time_is_zero (p_last_handshake p) \<noteq> time_is_zero (p_last_handshake q)
      then \<not> time_is_zero (p_last_handshake p)
      else time_after (p_last_handshake p) (p_last_handshake q))"

section \<open>The pretty form\<close>

definition field_line :: "bool \<Rightarrow> string \<Rightarrow> string \<Rightarrow> string" where
  "field_line color name v = ''  '' @ bold color name @ '': '' @ v @ nl"

definition display_key :: "key \<Rightarrow> bool \<Rightarrow> string" where
  "display_key k show_keys = (if show_keys then key_str k else ''(hidden)'')"

definition display_key_value :: "key \<Rightarrow> bool \<Rightarrow> string" where
  "display_key_value k present = (if present then key_str k else ''(none)'')"

definition pretty_allowed_ip :: "bool \<Rightarrow> ip_net \<Rightarrow> string" where
  "pretty_allowed_ip color n =
     (case cut_last (CHR ''/'') (ip_net_str n) of
        Some (a, b) \<Rightarrow> if color then a @ styled True (ansi ''36'') ''/'' @ b else ip_net_str n
      | None \<Rightarrow> ip_net_str n)"

definition pretty_allowed_ips :: "ip_net list \<Rightarrow> bool \<Rightarrow> string" where
  "pretty_allowed_ips ips color =
     (if ips = [] then ''(none)'' else join '', '' (map (pretty_allowed_ip color) ips))"

definition has_address :: "udp_addr option \<Rightarrow> udp_addr option" where
  "has_address e =
     (case e of None \<Rightarrow> None
      | Some a \<Rightarrow> if to4 (ua_ip a) \<noteq> None \<or> to16 (ua_ip a) \<noteq> None then Some a else None)"

definition pretty_peer :: "peer \<Rightarrow> go_time \<Rightarrow> bool \<Rightarrow> bool \<Rightarrow> string" where
  "pretty_peer p now show_keys color =
     styled color (ansi ''33'' @ ansi ''1'') ''peer'' @ '': ''
       @ styled color (ansi ''33'') (key_str (p_public_key p)) @ nl
     @ (case p_name p of None \<Rightarrow> [] | Some n \<Rightarrow> if n \<noteq> [] then field_line color ''name'' n else [])
     @ (if p_has_preshared_key p
        then field_line color ''preshared key'' (display_key (p_preshared_key p) show_keys) else [])
     @ (case has_address (p_endpoint p) of
          None \<Rightarrow> [] | Some a \<Rightarrow> field_line color ''endpoint'' (udp_addr_str a))
     @ field_line color ''allowed ips'' (pretty_allowed_ips (p_allowed_ips p) color)
     @ (if \<not> time_is_zero (p_last_handshake p)
        then field_line color ''latest handshake'' (ago now (p_last_handshake p) color) else [])
     @ (if p_receive_bytes p \<noteq> 0 \<or> p_transmit_bytes p \<noteq> 0
        then field_line color ''transfer'' (byte_count (p_receive_bytes p) color @ '' received, ''
               @ byte_count (p_transmit_bytes p) color @ '' sent'') else [])
     @ (if p_keepalive p \<noteq> 0
        then field_line color ''persistent keepalive'' (''every '' @ duration_text (p_keepalive p) color) else [])"

definition pretty_interface :: "device \<Rightarrow> bool \<Rightarrow> bool \<Rightarrow> string" where
  "pretty_interface d show_keys color =
     (if color then ansi ''0'' else [])
     @ styled color (ansi ''32'' @ ansi ''1'') ''interface'' @ '': '' @ styled color (ansi ''32'') (d_name d) @ nl
     @ (if d_has_public_key d then field_line color ''public key'' (key_str (d_public_key d)) else [])
     @ (if d_has_private_key d
        then field_line color ''private key'' (display_key (d_private_key d) show_keys) else [])
     @ (if d_listen_port d \<noteq> 0 then field_line color ''listening port'' (itoa (d_listen_port d)) else [])
     @ (if d_firewall_mark d \<noteq> 0
        then field_line color ''fwmark'' (''0x'' @ int_str 16 (d_firewall_mark d)) else [])"

fun pretty_peers :: "bool \<Rightarrow> peer list \<Rightarrow> go_time \<Rightarrow> bool \<Rightarrow> bool \<Rightarrow> string" where
  "pretty_peers first [] now show_keys color = []"
| "pretty_peers first (p # ps) now show_keys color =
     (if first then [] else nl) @ pretty_peer p now show_keys color
     @ pretty_peers False ps now show_keys color"

definition pretty :: "device \<Rightarrow> go_time \<Rightarrow> bool \<Rightarrow> bool \<Rightarrow> string" where
  "pretty d now show_keys color =
     (let peers = slice_stable later_handshake (d_peers d)
      in pretty_interface d show_keys color @ (if peers \<noteq> [] then nl else [])
         @ pretty_peers True peers now show_keys color)"

section \<open>One field, and the dump\<close>

definition joined_allowed_ips :: "string \<Rightarrow> ip_net list \<Rightarrow> string" where
  "joined_allowed_ips sep ips = (if ips = [] then ''(none)'' else join sep (map ip_net_str ips))"

definition tab :: string where
  "tab = [CHR 0x09]"

definition endpoint_value :: "peer \<Rightarrow> string" where
  "endpoint_value p = (case has_address (p_endpoint p) of None \<Rightarrow> ''(none)'' | Some a \<Rightarrow> udp_addr_str a)"

definition keepalive_value :: "peer \<Rightarrow> string" where
  "keepalive_value p = (if p_keepalive p \<noteq> 0 then itoa (tdiv (p_keepalive p) second) else ''off'')"

definition fwmark_value :: "device \<Rightarrow> string" where
  "fwmark_value d = (if d_firewall_mark d \<noteq> 0 then ''0x'' @ int_str 16 (d_firewall_mark d) else ''off'')"

definition interface_prefix :: "device \<Rightarrow> bool \<Rightarrow> string" where
  "interface_prefix d with_interface = (if with_interface then d_name d @ tab else [])"

definition dump_columns :: "peer \<Rightarrow> string list" where
  "dump_columns p = [key_str (p_public_key p), display_key_value (p_preshared_key p) (p_has_preshared_key p),
     endpoint_value p, joined_allowed_ips '','' (p_allowed_ips p),
     itoa (handshake_seconds (p_last_handshake p)), itoa (non_negative (p_receive_bytes p)),
     itoa (non_negative (p_transmit_bytes p)), keepalive_value p]"

definition dump :: "device \<Rightarrow> bool \<Rightarrow> string" where
  "dump d with_interface =
     interface_prefix d with_interface
     @ display_key_value (d_private_key d) (d_has_private_key d) @ tab
     @ display_key_value (d_public_key d) (d_has_public_key d) @ tab @ itoa (d_listen_port d) @ tab
     @ fwmark_value d @ nl
     @ concat (map (\<lambda>p. interface_prefix d with_interface @ join tab (dump_columns p) @ nl) (d_peers d))"

text \<open>A loop over the peers that prints the interface, the key and a value of each.\<close>

definition peer_lines :: "device \<Rightarrow> bool \<Rightarrow> (peer \<Rightarrow> string) \<Rightarrow> string" where
  "peer_lines d with_interface v =
     concat (map (\<lambda>p. interface_prefix d with_interface @ key_str (p_public_key p) @ tab @ v p @ nl) (d_peers d))"

definition show_field :: "device \<Rightarrow> string \<Rightarrow> bool \<Rightarrow> written" where
  "show_field d field wi =
     (let line = (\<lambda>v. (interface_prefix d wi @ v @ nl, None))
      in if field = ''public-key'' then line (if d_has_public_key d then key_str (d_public_key d) else ''(none)'')
      else if field = ''private-key'' then line (display_key_value (d_private_key d) (d_has_private_key d))
      else if field = ''listen-port'' then line (itoa (d_listen_port d))
      else if field = ''fwmark'' then line (fwmark_value d)
      else if field = ''peers'' then
        (concat (map (\<lambda>p. interface_prefix d wi @ key_str (p_public_key p) @ nl) (d_peers d)), None)
      else if field = ''preshared-keys'' then
        (peer_lines d wi (\<lambda>p. display_key_value (p_preshared_key p) (p_has_preshared_key p)), None)
      else if field = ''endpoints'' then (peer_lines d wi endpoint_value, None)
      else if field = ''allowed-ips'' then (peer_lines d wi (\<lambda>p. joined_allowed_ips '' '' (p_allowed_ips p)), None)
      else if field = ''latest-handshakes'' then
        (peer_lines d wi (\<lambda>p. itoa (handshake_seconds (p_last_handshake p))), None)
      else if field = ''transfer'' then
        (peer_lines d wi (\<lambda>p. itoa (non_negative (p_receive_bytes p)) @ tab
           @ itoa (non_negative (p_transmit_bytes p))), None)
      else if field = ''persistent-keepalive'' then (peer_lines d wi keepalive_value, None)
      else if field = ''dump'' then (dump d wi, None)
      else ([], Some (ErrText ''invalid parameter'')))"

section \<open>Sorting\<close>

text \<open>
  How recent a handshake is: the later, the smaller. The peers are sorted by it, which makes
  the sorting of the library the reference for \<open>sort.SliceStable\<close>.
\<close>

datatype recency = HandshakeAt int int | NoHandshake

instantiation recency :: linorder
begin

fun less_recency :: "recency \<Rightarrow> recency \<Rightarrow> bool" where
  "less_recency (HandshakeAt s n) (HandshakeAt s' n') \<longleftrightarrow> s' < s \<or> s' = s \<and> n' < n"
| "less_recency (HandshakeAt s n) NoHandshake \<longleftrightarrow> True"
| "less_recency NoHandshake r \<longleftrightarrow> False"

definition less_eq_recency :: "recency \<Rightarrow> recency \<Rightarrow> bool" where
  "less_eq_recency r r' \<longleftrightarrow> \<not> r' < r"

instance
proof
  fix x y z :: recency
  show "x < y \<longleftrightarrow> x \<le> y \<and> \<not> y \<le> x" by (cases x; cases y) (auto simp: less_eq_recency_def)
  show "x \<le> x" by (cases x) (auto simp: less_eq_recency_def)
  show "x \<le> y \<or> y \<le> x" by (cases x; cases y) (auto simp: less_eq_recency_def)
  show "x = y" if "x \<le> y" "y \<le> x" using that by (cases x; cases y) (auto simp: less_eq_recency_def)
  show "x \<le> z" if "x \<le> y" "y \<le> z" using that by (cases x; cases y; cases z) (auto simp: less_eq_recency_def)
qed

end

definition recency :: "go_time \<Rightarrow> recency" where
  "recency t = (if time_is_zero t then NoHandshake else HandshakeAt (fst t) (snd t))"

lemma later_handshake_recency:
  "later_handshake p q \<longleftrightarrow> recency (p_last_handshake p) < recency (p_last_handshake q)"
  by (auto simp: later_handshake_def recency_def time_after_def time_is_zero_def)

lemma recency_inject: "recency t = recency u \<longleftrightarrow> t = u"
  by (auto simp: recency_def time_is_zero_def prod_eq_iff)

lemma stable_insert_key: "stable_insert (\<lambda>x y. f x < f y) x ys = insort_key f x ys"
  by (induction ys) auto

lemma slice_stable_key: "slice_stable (\<lambda>x y. f x < f y) xs = sort_key f xs"
  by (induction xs) (simp_all add: stable_insert_key)

lemma sorted_peers_key: "slice_stable later_handshake ps = sort_key (recency \<circ> p_last_handshake) ps"
  by (simp add: later_handshake_recency [abs_def] slice_stable_key comp_def)

lemma set_stable_insert [simp]: "set (stable_insert lt x ys) = insert x (set ys)"
  by (induction ys) auto

lemma set_slice_stable [simp]: "set (slice_stable lt xs) = set xs"
  by (induction xs) simp_all

lemma slice_stable_map:
  assumes "\<And>x y. lt (g x) (g y) = lt x y"
  shows "slice_stable lt (map g xs) = map g (slice_stable lt xs)"
proof -
  have ins: "stable_insert lt (g x) (map g ys) = map g (stable_insert lt x ys)" for x ys
    by (induction ys) (simp_all add: assms)
  show ?thesis by (induction xs) (simp_all add: ins)
qed

lemma pretty_peers_join:
  "pretty_peers True ps now sk c = join nl (map (\<lambda>p. pretty_peer p now sk c) ps)"
proof -
  have rest: "pretty_peers False ps now sk c = concat (map (\<lambda>p. nl @ pretty_peer p now sk c) ps)" for ps
    by (induction ps) simp_all
  have "join nl (x # xs) = x @ concat (map (\<lambda>y. nl @ y) xs)" for x xs
    by (induction xs arbitrary: x) simp_all
  then show ?thesis by (cases ps) (simp_all add: rest comp_def)
qed

section \<open>Secrets\<close>

text \<open>A device with other secrets: another private key, and other preshared keys.\<close>

definition with_secrets :: "key \<Rightarrow> (peer \<Rightarrow> key) \<Rightarrow> device \<Rightarrow> device" where
  "with_secrets k psk d =
     d\<lparr>d_private_key := k, d_peers := map (\<lambda>p. p\<lparr>p_preshared_key := psk p\<rparr>) (d_peers d)\<rparr>"

lemma pretty_peer_psk [simp]: "pretty_peer (p\<lparr>p_preshared_key := k\<rparr>) now False c = pretty_peer p now False c"
  by (simp add: pretty_peer_def display_key_def)

lemma pretty_secrets: "pretty (with_secrets k psk d) now False c = pretty d now False c"
proof -
  have sorted: "slice_stable later_handshake (map (\<lambda>p. p\<lparr>p_preshared_key := psk p\<rparr>) ps) =
      map (\<lambda>p. p\<lparr>p_preshared_key := psk p\<rparr>) (slice_stable later_handshake ps)" for ps
    by (rule slice_stable_map) (simp add: later_handshake_def)
  have "pretty_interface (with_secrets k psk d) False c = pretty_interface d False c"
    by (simp add: pretty_interface_def with_secrets_def display_key_def)
  then show ?thesis by (simp add: pretty_def pretty_peers_join with_secrets_def sorted comp_def)
qed

section \<open>Durations and bytes\<close>

lemma duration_parts_sum:
  assumes "\<forall>(n, s) \<in> set us. 0 < n" and "us \<noteq> []" and "fst (last us) = 1" and "distinct (map snd us)"
  shows "sum_list (map (\<lambda>(k, s). k * the (map_of (map (\<lambda>(n, s). (s, n)) us) s)) (duration_parts us v)) = v"
  using assms
proof (induction us arbitrary: v)
  case (Cons u us)
  obtain n s where u: "u = (n, s)" by (cases u)
  have n: "0 < n" using Cons.prems u by auto
  have names: "snd ` set (duration_parts us w) \<subseteq> snd ` set us" for w
    by (induction us w rule: duration_parts.induct) auto
  have skip: "sum_list (map (\<lambda>(k, t). k * the (map_of (map (\<lambda>(n, s). (s, n)) (u # us)) t)) (duration_parts us w)) =
      sum_list (map (\<lambda>(k, t). k * the (map_of (map (\<lambda>(n, s). (s, n)) us) t)) (duration_parts us w))" for w
  proof (rule arg_cong [where f = sum_list], rule map_cong [OF refl])
    fix x assume "x \<in> set (duration_parts us w)"
    then have "snd x \<in> snd ` set us" using names by blast
    then have "snd x \<noteq> s" using Cons.prems u by auto
    then show "(case x of (k, t) \<Rightarrow> k * the (map_of (map (\<lambda>(n, s). (s, n)) (u # us)) t)) =
        (case x of (k, t) \<Rightarrow> k * the (map_of (map (\<lambda>(n, s). (s, n)) us) t))"
      by (cases x) (simp add: u)
  qed
  show ?case
  proof (cases "us = []")
    case True
    then show ?thesis using Cons.prems u by simp
  next
    case False
    then have IH: "sum_list (map (\<lambda>(k, t). k * the (map_of (map (\<lambda>(n, s). (s, n)) us) t)) (duration_parts us w)) = w" for w
      using Cons by simp
    show ?thesis using skip IH n by (simp add: u)
  qed
qed simp

definition unit_seconds :: "string \<Rightarrow> nat" where
  "unit_seconds s = the (map_of (map (\<lambda>(n, s). (s, n)) duration_units) s)"

lemma duration_sum: "sum_list (map (\<lambda>(k, s). k * unit_seconds s) (duration_parts duration_units v)) = v"
  unfolding unit_seconds_def by (rule duration_parts_sum) (simp_all add: duration_units_def)

lemma duration_parts_pos:
  "\<forall>(n, s) \<in> set us. 0 < n \<Longrightarrow> \<forall>(k, s) \<in> set (duration_parts us v). 0 < k"
  by (induction us v rule: duration_parts.induct) (auto simp: div_greater_zero_iff)

lemma round_half_even_near:
  assumes "0 < d" shows "2 * \<bar>int (round_half_even n d) * int d - int n\<bar> \<le> int d"
proof -
  have n: "int n = int (n div d) * int d + int (n mod d)"
    by (metis div_mult_mod_eq of_nat_add of_nat_mult)
  have r: "n mod d < d" using assms by simp
  consider "2 * (n mod d) < d \<or> 2 * (n mod d) = d \<and> even (n div d)" | "d \<le> 2 * (n mod d)"
      "\<not> (2 * (n mod d) < d \<or> 2 * (n mod d) = d \<and> even (n div d))" by linarith
  then show ?thesis
  proof cases
    case 1
    then have "round_half_even n d = n div d" by (simp add: round_half_even_def Let_def)
    then show ?thesis using n 1 by auto
  next
    case 2
    then have "round_half_even n d = n div d + 1" by (simp add: round_half_even_def Let_def)
    then have "int (round_half_even n d) * int d - int n = int d - int (n mod d)"
      using n by (simp add: algebra_simps)
    then show ?thesis using 2(1) r by simp
  qed
qed

lemma float64_of_exact: "v < 2 ^ 53 \<Longrightarrow> float64_of v = v"
  by (simp add: float64_of_def excess_bits.simps [of v] round_half_even_def)

lemma byte_unit_spec:
  "i \<le> 4 \<Longrightarrow> i = 0 \<or> 1024 ^ i \<le> f \<Longrightarrow>
   byte_unit f i \<le> 4 \<and> (byte_unit f i = 0 \<or> 1024 ^ byte_unit f i \<le> f) \<and> (f < 1024 * 1024 ^ byte_unit f i \<or> byte_unit f i = 4)"
proof (induction f i rule: byte_unit.induct)
  case (1 f i)
  have len: "length byte_units = 5" by (simp add: byte_units_def)
  show ?case
  proof (cases "1024 * 1024 ^ i \<le> f \<and> i < 4")
    case True
    then have "byte_unit f i = byte_unit f (i + 1)" by (simp add: byte_unit.simps [of f i] len)
    then show ?thesis using 1 True by (simp add: len)
  next
    case False
    then have "byte_unit f i = i" by (subst byte_unit.simps) (auto simp: len)
    then show ?thesis using 1 False by auto
  qed
qed

section \<open>Colours\<close>

text \<open>\<open>a\<close> shows as \<open>b\<close> on a terminal, whatever follows it.\<close>

definition shows_as :: "string \<Rightarrow> string \<Rightarrow> bool" where
  "shows_as a b \<longleftrightarrow> (\<forall>r. strip_ansi (a @ r) = b @ strip_ansi r)"

definition no_escape :: "string \<Rightarrow> bool" where
  "no_escape s \<longleftrightarrow> CHR 0x1B \<notin> set s"

lemma no_escape_simps [simp]:
  "no_escape []" "no_escape (c # s) \<longleftrightarrow> c \<noteq> CHR 0x1B \<and> no_escape s" "no_escape (s @ t) \<longleftrightarrow> no_escape s \<and> no_escape t"
  by (auto simp: no_escape_def)

lemma shows_as_plain: "no_escape s \<Longrightarrow> shows_as s s"
  by (simp add: shows_as_def no_escape_def strip_ansi_plain)

lemma shows_as_append: "shows_as a b \<Longrightarrow> shows_as c d \<Longrightarrow> shows_as (a @ c) (b @ d)"
  by (simp add: shows_as_def)

lemma shows_as_ansi: "CHR ''m'' \<notin> set sgr \<Longrightarrow> shows_as (ansi sgr) []"
  by (simp add: shows_as_def strip_ansi_ansi)

lemma shows_as_styled: "shows_as sgr [] \<Longrightarrow> no_escape v \<Longrightarrow> shows_as (styled c sgr v) (styled False sgr v)"
  using shows_as_append [OF shows_as_append [OF _ shows_as_plain [of v]] shows_as_ansi [of "''0''"], of sgr "[]"]
  by (simp add: styled_def shows_as_plain)

lemma shows_as_bold: "no_escape v \<Longrightarrow> shows_as (bold c v) (bold False v)"
  unfolding bold_def by (rule shows_as_styled) (simp_all add: shows_as_ansi)

lemma shows_as_field:
  assumes "shows_as v w" and "no_escape name" shows "shows_as (field_line c name v) (field_line False name w)"
  unfolding field_line_def
  by (intro shows_as_append shows_as_plain shows_as_bold assms) (simp_all add: nl_def)

lemma shows_as_field_plain: "no_escape v \<Longrightarrow> no_escape name \<Longrightarrow> shows_as (field_line c name v) (field_line False name v)"
  by (intro shows_as_field shows_as_plain)

lemma shows_as_concat:
  "(\<And>x. x \<in> set xs \<Longrightarrow> shows_as (f x) (g x)) \<Longrightarrow> shows_as (concat (map f xs)) (concat (map g xs))"
  by (induction xs) (simp_all add: shows_as_plain shows_as_append)

lemma shows_as_join:
  assumes "\<And>x. x \<in> set xs \<Longrightarrow> shows_as (f x) (g x)" and "no_escape sep"
  shows "shows_as (join sep (map f xs)) (join sep (map g xs))"
  using assms
proof (induction xs rule: induct_list012)
  case (3 x y zs)
  then have "shows_as (join sep (map f (y # zs))) (join sep (map g (y # zs)))" "shows_as (f x) (g x)" by simp_all
  then show ?case using 3(4) by (simp add: shows_as_append shows_as_plain)
qed (simp_all add: shows_as_plain)

text \<open>What the program makes itself has no control characters at all.\<close>

definition no_control :: "string \<Rightarrow> bool" where
  "no_control s \<longleftrightarrow> list_all (\<lambda>c. 32 \<le> code c) s"

definition no_tab :: "string \<Rightarrow> bool" where
  "no_tab s \<longleftrightarrow> CHR 0x09 \<notin> set s"

lemma no_control_simps [simp]:
  "no_control []" "no_control (c # s) \<longleftrightarrow> 32 \<le> code c \<and> no_control s" "no_control (s @ t) \<longleftrightarrow> no_control s \<and> no_control t"
  by (simp_all add: no_control_def)

lemma no_control_escape: "no_control s \<Longrightarrow> no_escape s"
  by (auto simp: no_control_def no_escape_def list_all_iff)

lemma no_control_tab: "no_control s \<Longrightarrow> no_tab s"
  by (auto simp: no_control_def no_tab_def list_all_iff)

lemma no_control_subset: "set s \<subseteq> S \<Longrightarrow> \<forall>c \<in> S. 32 \<le> code c \<Longrightarrow> no_control s"
  by (auto simp: no_control_def list_all_iff)

lemma digit_set_code: "\<forall>c \<in> digit_set. 32 \<le> code c"
  by (simp add: digit_set_def)

lemma nat_str_no_control: "2 \<le> b \<Longrightarrow> b \<le> 16 \<Longrightarrow> no_control (nat_str b n)"
  using set_nat_str digit_set_code by (rule no_control_subset)

lemma int_str_no_control: "2 \<le> b \<Longrightarrow> b \<le> 16 \<Longrightarrow> no_control (int_str b i)"
  by (simp add: int_str_def nat_str_no_control)

lemma itoa_no_control: "no_control (itoa i)"
  by (simp add: itoa_def int_str_no_control)

lemma digit_no_control: "d < 16 \<Longrightarrow> 32 \<le> code (digit_char d)"
  using digit_char_in digit_set_code by blast

lemma key_no_control: "no_control (key_str k)"
proof -
  have "\<forall>c \<in> insert (CHR ''='') (set b64_alphabet). 32 \<le> code c" by code_simp
  with set_b64_encode show ?thesis unfolding key_str_def by (rule no_control_subset)
qed

lemma hex_encode_no_control: "no_control (hex_encode bs)"
proof -
  have "no_control (hex_byte b)" for b
    using unat_byte_less_256 [of b] by (simp add: hex_byte_def digit_no_control)
  then show ?thesis by (induction bs) (simp_all add: hex_encode_def)
qed

lemma v4_str_no_control: "no_control (v4_str bs)"
proof -
  have "\<forall>c \<in> set ''.0123456789''. 32 \<le> code c" by code_simp
  with v4_str_set show ?thesis by (rule no_control_subset)
qed

lemma v6_str_no_control: "no_control (v6_str bs)"
  using v6_str_set by (rule no_control_subset) (simp add: digit_set_code)

lemma ip_str_no_control: "no_control (ip_str i)"
  by (simp add: ip_str_def v4_str_no_control v6_str_no_control hex_encode_no_control split: option.split)

lemma ip_net_str_no_control: "no_control (ip_net_str n)"
  by (simp add: ip_net_str_def ip_str_no_control hex_encode_no_control nat_str_no_control split: option.split)

lemmas made_no_escape = nat_str_no_control [THEN no_control_escape] int_str_no_control [THEN no_control_escape]
  itoa_no_control [THEN no_control_escape] key_no_control [THEN no_control_escape]
  ip_str_no_control [THEN no_control_escape] ip_net_str_no_control [THEN no_control_escape]

lemma digit_no_escape: "d < 16 \<Longrightarrow> digit_char d \<noteq> CHR 0x1B"
  using digit_no_control [of d] by auto

lemma shows_as_Cons: "c \<noteq> CHR 0x1B \<Longrightarrow> shows_as s t \<Longrightarrow> shows_as (c # s) (c # t)"
  by (simp add: shows_as_def)

lemma udp_addr_str_no_escape: "no_escape (ua_zone a) \<Longrightarrow> no_escape (udp_addr_str a)"
  by (simp add: udp_addr_str_def join_host_port_def made_no_escape Let_def)

lemma cut_last_Some: "cut_last c s = Some (a, b) \<Longrightarrow> s = a @ c # b"
proof -
  assume "cut_last c s = Some (a, b)"
  then obtain x y where "cut_at c (rev s) = Some (x, y)" "a = rev y" "b = rev x"
    by (auto simp: cut_last_def split: option.splits)
  then show ?thesis using cut_at_Some_eq [of c "rev s" x y] by (metis append.assoc append_Cons append_Nil rev.simps(2) rev_append rev_rev_ident)
qed

lemma shows_as_allowed_ip: "shows_as (pretty_allowed_ip c n) (pretty_allowed_ip False n)"
proof (cases "cut_last (CHR ''/'') (ip_net_str n)")
  case None
  then show ?thesis by (simp add: pretty_allowed_ip_def shows_as_plain made_no_escape)
next
  case (Some ab)
  obtain a b where ab: "ab = (a, b)" by (cases ab)
  then have eq: "ip_net_str n = a @ ''/'' @ b" using Some cut_last_Some by simp
  moreover have "no_escape (ip_net_str n)" by (rule made_no_escape)
  ultimately have no: "no_escape a" "no_escape b" by simp_all
  have "shows_as (a @ styled True (ansi ''36'') ''/'' @ b) (a @ styled False (ansi ''36'') ''/'' @ b)"
    using no by (intro shows_as_append shows_as_plain shows_as_styled shows_as_ansi) simp_all
  moreover have "shows_as (a @ ''/'' @ b) (a @ ''/'' @ b)" using no by (simp add: shows_as_plain)
  ultimately show ?thesis using Some ab eq
    by (simp add: pretty_allowed_ip_def shows_as_plain made_no_escape styled_def shows_as_Cons shows_as_append split: if_splits)
qed

lemma shows_as_allowed_ips: "shows_as (pretty_allowed_ips ips c) (pretty_allowed_ips ips False)"
  by (simp add: pretty_allowed_ips_def shows_as_plain shows_as_join shows_as_allowed_ip)

lemma shows_as_duration: "shows_as (pretty_duration v c) (pretty_duration v False)"
proof -
  have names: "\<forall>(k, s) \<in> set (duration_parts us v). no_escape s" if "\<forall>(n, s) \<in> set us. no_escape s" for us v
    using that by (induction us v rule: duration_parts.induct) auto
  have "\<forall>(k, s) \<in> set (duration_parts duration_units v). no_escape s"
    by (rule names) (simp add: duration_units_def)
  then show ?thesis unfolding pretty_duration_def duration_part_def
    by (intro shows_as_join shows_as_append shows_as_plain shows_as_styled shows_as_ansi)
       (auto simp: made_no_escape)
qed

lemma shows_as_byte_count: "shows_as (byte_count v c) (byte_count v False)"
proof -
  define i where "i = byte_unit (float64_of (nat (non_negative v))) 0"
  have "i \<le> 4" using byte_unit_spec [of 0] by (simp add: i_def)
  then have "i \<in> set [0..<5]" by simp
  moreover have "list_all (\<lambda>j. no_escape (byte_units ! j)) [0..<5]" by code_simp
  ultimately have u: "no_escape (byte_units ! i)" by (simp only: list_all_iff)
  have "shows_as (styled c (ansi ''36'') (byte_units ! i)) (styled False (ansi ''36'') (byte_units ! i))"
    by (intro shows_as_styled shows_as_ansi u) simp
  then show ?thesis unfolding byte_count_def Let_def two_decimals_def i_def
    by (auto simp: made_no_escape digit_no_escape shows_as_plain [of "[]"] intro!: shows_as_append shows_as_Cons shows_as_plain)
qed

lemma shows_as_ago: "shows_as (ago now t c) (ago now t False)"
proof -
  have "shows_as (styled c (ansi ''31'') ''System clock wound backward; connection problems may ensue.'')
      (styled False (ansi ''31'') ''System clock wound backward; connection problems may ensue.'')"
    by (intro shows_as_styled shows_as_ansi) (simp_all add: no_escape_def)
  then show ?thesis unfolding ago_def
    by (auto intro!: shows_as_append shows_as_Cons shows_as_plain shows_as_duration)
qed

text \<open>The texts of a device that come from outside: its name, the names and zones of its peers.\<close>

definition plain_peer :: "peer \<Rightarrow> bool" where
  "plain_peer p \<longleftrightarrow> opt_all no_escape (p_name p) \<and> opt_all (\<lambda>a. no_escape (ua_zone a)) (p_endpoint p)"

lemma shows_as_if: "(b \<Longrightarrow> shows_as x y) \<Longrightarrow> (\<not> b \<Longrightarrow> shows_as u v) \<Longrightarrow> shows_as (if b then x else u) (if b then y else v)"
  by simp

lemma shows_as_peer:
  assumes p: "plain_peer p"
  shows "shows_as (pretty_peer p now sk c) (pretty_peer p now sk False)"
proof -
  have head: "shows_as (styled c (ansi ''33'' @ ansi ''1'') ''peer'') (styled False (ansi ''33'' @ ansi ''1'') ''peer'')"
    "shows_as (styled c (ansi ''33'') (key_str k)) (styled False (ansi ''33'') (key_str k))" for k
    using shows_as_append [OF shows_as_ansi shows_as_ansi, of "''33''" "''1''"]
    by (intro shows_as_styled; simp add: shows_as_ansi made_no_escape)+
  have nm: "shows_as (case p_name p of None \<Rightarrow> [] | Some n \<Rightarrow> if n \<noteq> [] then field_line c ''name'' n else [])
      (case p_name p of None \<Rightarrow> [] | Some n \<Rightarrow> if n \<noteq> [] then field_line False ''name'' n else [])"
    using p by (cases "p_name p") (auto simp: plain_peer_def shows_as_plain intro!: shows_as_field_plain)
  have ep: "shows_as (case has_address (p_endpoint p) of None \<Rightarrow> [] | Some a \<Rightarrow> field_line c ''endpoint'' (udp_addr_str a))
      (case has_address (p_endpoint p) of None \<Rightarrow> [] | Some a \<Rightarrow> field_line False ''endpoint'' (udp_addr_str a))"
    using p by (cases "p_endpoint p")
      (auto simp: plain_peer_def has_address_def shows_as_plain udp_addr_str_no_escape intro!: shows_as_field_plain)
  have key: "no_escape (display_key k sk)" for k by (simp add: display_key_def made_no_escape)
  show ?thesis unfolding pretty_peer_def
    by (intro shows_as_append head nm ep shows_as_if shows_as_field shows_as_field_plain shows_as_allowed_ips
        shows_as_ago shows_as_byte_count shows_as_plain shows_as_duration key; simp add: nl_def duration_text_def shows_as_duration shows_as_append shows_as_plain)
qed

lemma shows_as_interface:
  assumes "no_escape (d_name d)"
  shows "shows_as (pretty_interface d sk c) (pretty_interface d sk False)"
proof -
  have head: "shows_as (styled c (ansi ''32'' @ ansi ''1'') ''interface'') (styled False (ansi ''32'' @ ansi ''1'') ''interface'')"
    "shows_as (styled c (ansi ''32'') (d_name d)) (styled False (ansi ''32'') (d_name d))"
    using shows_as_append [OF shows_as_ansi shows_as_ansi, of "''32''" "''1''"] assms
    by (intro shows_as_styled; simp add: shows_as_ansi)+
  have reset: "shows_as (if c then ansi ''0'' else []) (if False then ansi ''0'' else [])"
    by (cases c) (simp_all add: shows_as_ansi shows_as_plain)
  have key: "no_escape (display_key k sk)" for k by (simp add: display_key_def made_no_escape)
  show ?thesis unfolding pretty_interface_def
    by (intro shows_as_append head reset shows_as_if shows_as_field_plain shows_as_plain key; simp add: nl_def made_no_escape)
qed

lemma strip_pretty:
  assumes "no_escape (d_name d)" and "list_all plain_peer (d_peers d)"
  shows "strip_ansi (pretty d now sk c) = pretty d now sk False"
proof -
  have "shows_as (pretty_peers True (slice_stable later_handshake (d_peers d)) now sk c)
      (pretty_peers True (slice_stable later_handshake (d_peers d)) now sk False)"
    unfolding pretty_peers_join using assms(2)
    by (intro shows_as_join) (auto simp: list_all_iff shows_as_peer nl_def)
  then have "shows_as (pretty d now sk c) (pretty d now sk False)"
    unfolding pretty_def Let_def using assms(1)
    by (intro shows_as_append shows_as_interface) (auto simp: nl_def shows_as_plain)
  from this [unfolded shows_as_def, rule_format, of "[]"] show ?thesis by simp
qed

section \<open>Properties\<close>

text \<open>
  Hidden keys stay hidden: without \<open>showKeys\<close>, what \<open>Pretty\<close> writes does not depend on the
  private key nor on any preshared key.
\<close>

theorem pretty_hides_keys: "pretty (with_secrets k psk d) now False color = pretty d now False color"
  by (rule pretty_secrets)

text \<open>
  The order of the peers: \<open>Pretty\<close> writes the interface and then every peer once, the
  latest handshake first and those without one last, peers of the same time in their old order.
\<close>

theorem pretty_order:
  "\<exists>ps. pretty d now sk c = pretty_interface d sk c @ (if ps \<noteq> [] then nl else []) @ join nl (map (\<lambda>p. pretty_peer p now sk c) ps)
     \<and> sorted_wrt (\<lambda>p q. \<not> later_handshake q p) ps
     \<and> (\<forall>t. filter (\<lambda>p. p_last_handshake p = t) ps = filter (\<lambda>p. p_last_handshake p = t) (d_peers d))"
proof (intro exI conjI allI)
  let ?f = "recency \<circ> p_last_handshake"
  show "pretty d now sk c = pretty_interface d sk c @ (if sort_key ?f (d_peers d) \<noteq> [] then nl else [])
      @ join nl (map (\<lambda>p. pretty_peer p now sk c) (sort_key ?f (d_peers d)))"
    by (simp add: pretty_def Let_def pretty_peers_join sorted_peers_key)
  have "sorted (map ?f (sort_key ?f (d_peers d)))" by (rule sorted_sort_key)
  then show "sorted_wrt (\<lambda>p q. \<not> later_handshake q p) (sort_key ?f (d_peers d))"
    by (simp add: sorted_map later_handshake_recency not_less)
  show "filter (\<lambda>p. p_last_handshake p = t) (sort_key ?f (d_peers d)) = filter (\<lambda>p. p_last_handshake p = t) (d_peers d)" for t
    using sort_key_stable [of ?f "recency t" "d_peers d"] by (simp add: recency_inject)
qed

text \<open>
  Colour changes nothing but colour: without its escape sequences the coloured text is the
  plain one.
\<close>

theorem pretty_color_plain:
  assumes "no_escape (d_name d)" and "list_all plain_peer (d_peers d)"
  shows "strip_ansi (pretty d now sk True) = pretty d now sk False"
  using assms by (rule strip_pretty)

definition sample_shown :: device where
  "sample_shown = zero_device\<lparr>d_name := ''wg0'', d_has_private_key := True, d_listen_port := 51820,
     d_peers := [zero_peer\<lparr>p_name := Some ''laptop'', p_receive_bytes := 1536\<rparr>,
       zero_peer\<lparr>p_last_handshake := (unix_to_internal + 1700000000, 5), p_keepalive := 25 * second\<rparr>]\<rparr>"

theorem pretty_color_plain_witness:
  "strip_ansi (pretty sample_shown (unix_to_internal + 1700000090, 5) True True)
     = pretty sample_shown (unix_to_internal + 1700000090, 5) True False"
  by (rule pretty_color_plain) (simp_all add: sample_shown_def zero_device_def zero_peer_def plain_peer_def)

text \<open>
  A duration is printed as counts of units, none of them zero, that add up to exactly the
  number of its seconds.
\<close>

theorem pretty_duration_exact:
  "\<exists>ps. pretty_duration v False = join '', '' (map (\<lambda>(k, s). nat_str 10 k @ '' '' @ (if k \<noteq> 1 then s @ ''s'' else s)) ps)
     \<and> sum_list (map (\<lambda>(k, s). k * unit_seconds s) ps) = v \<and> list_all (\<lambda>(k, s). 0 < k) ps"
proof (intro exI conjI)
  let ?ps = "duration_parts duration_units v"
  show "pretty_duration v False = join '', '' (map (\<lambda>(k, s). nat_str 10 k @ '' '' @ (if k \<noteq> 1 then s @ ''s'' else s)) ?ps)"
    by (simp add: pretty_duration_def duration_part_def [abs_def] styled_def case_prod_beta')
  show "sum_list (map (\<lambda>(k, s). k * unit_seconds s) ?ps) = v" by (rule duration_sum)
  show "list_all (\<lambda>(k, s). 0 < k) ?ps"
    using duration_parts_pos [of duration_units v] by (simp add: duration_units_def list_all_iff)
qed

text \<open>
  A number of bytes is printed in the largest unit it fills, up to TiB, with an error of at
  most half a hundredth of that unit; below 1024 it is exact. The bound is that of a float64.
\<close>

theorem byte_count_near:
  assumes "0 \<le> v" and "v < 2 ^ 53"
  shows "\<exists>i q. i \<le> 4 \<and> byte_count v False = (if i = 0 then itoa v else two_decimals q) @ '' '' @ byte_units ! i
     \<and> (i = 0 \<or> 1024 ^ i \<le> v) \<and> (v < 1024 ^ Suc i \<or> i = 4) \<and> 2 * \<bar>int q * 1024 ^ i - 100 * v\<bar> \<le> 1024 ^ i"
proof (intro exI conjI)
  let ?n = "nat v"
  let ?i = "byte_unit ?n 0"
  let ?q = "round_half_even (100 * ?n) (1024 ^ ?i)"
  have f: "float64_of ?n = ?n" using assms by (intro float64_of_exact) (simp add: nat_less_iff)
  have nn: "non_negative v = v" using assms by (simp add: non_negative_def)
  have it: "itoa v = nat_str 10 ?n" using assms(1) by (simp add: itoa_def int_str_def)
  note u = byte_unit_spec [of 0 ?n]
  show "?i \<le> 4" using u by simp
  show "byte_count v False = (if ?i = 0 then itoa v else two_decimals ?q) @ '' '' @ byte_units ! ?i"
    by (simp add: byte_count_def nn f it styled_def Let_def)
  have pow: "(1024 ^ k \<le> ?n) = (1024 ^ k \<le> v)" "(?n < 1024 ^ k) = (v < 1024 ^ k)" for k
    using assms(1) by (simp_all add: le_nat_iff nat_less_iff)
  show "?i = 0 \<or> 1024 ^ ?i \<le> v" using u pow(1) [of ?i] by auto
  show "v < 1024 ^ Suc ?i \<or> ?i = 4" using u pow(2) [of "Suc ?i"] by auto
  show "2 * \<bar>int ?q * 1024 ^ ?i - 100 * v\<bar> \<le> 1024 ^ ?i"
    using round_half_even_near [of "1024 ^ ?i" "100 * ?n"] assms(1) by simp
qed

theorem byte_count_near_witness:
  "\<exists>i q. i \<le> 4 \<and> byte_count 1536 False = (if i = 0 then itoa 1536 else two_decimals q) @ '' '' @ byte_units ! i
     \<and> (i = 0 \<or> 1024 ^ i \<le> (1536::int)) \<and> ((1536::int) < 1024 ^ Suc i \<or> i = 4)
     \<and> 2 * \<bar>int q * 1024 ^ i - 100 * 1536\<bar> \<le> (1024::int) ^ i"
  by (rule byte_count_near) simp_all

text \<open>
  A handshake less than a second ago is printed as no time at all: only two equal times, to
  the nanosecond, give "Now".
\<close>

theorem ago_subsecond:
  assumes "time_after now t" and "0 < (fst now - fst t) * second + (snd now - snd t)"
    and "(fst now - fst t) * second + (snd now - snd t) < second"
  shows "ago now t color = '' ago''"
proof -
  let ?d = "(fst now - fst t) * second + (snd now - snd t)"
  have "time_sub now t = ?d" using assms by (simp add: time_sub_def second_def)
  moreover have "tdiv ?d second = 0" using assms by (simp add: tdiv_def second_def div_pos_pos_trivial)
  moreover have "\<not> time_after t now" "now \<noteq> t" using assms(1) by (auto simp: time_after_def)
  moreover have "pretty_duration 0 color = []" by (cases color; code_simp)
  ultimately show ?thesis by (simp add: ago_def to_uint_def)
qed

theorem ago_subsecond_witness: "ago (1000, 500) (1000, 0) False = '' ago''"
  by (rule ago_subsecond) (simp_all add: time_after_def second_def)

section \<open>The dump and the fields\<close>

lemma no_tab_simps [simp]:
  "no_tab []" "no_tab (c # s) \<longleftrightarrow> c \<noteq> CHR 0x09 \<and> no_tab s" "no_tab (s @ t) \<longleftrightarrow> no_tab s \<and> no_tab t"
  by (auto simp: no_tab_def)

definition tabless_endpoint :: "peer \<Rightarrow> bool" where
  "tabless_endpoint p \<longleftrightarrow> opt_all (\<lambda>a. no_tab (ua_zone a)) (p_endpoint p)"

lemma join_no_control: "list_all no_control (sep # xs) \<Longrightarrow> no_control (join sep xs)"
  by (induction sep xs rule: join.induct) simp_all

lemmas made_no_tab = itoa_no_control [THEN no_control_tab] key_no_control [THEN no_control_tab]
  ip_str_no_control [THEN no_control_tab]

lemma allowed_no_tab: "no_control sep \<Longrightarrow> no_tab (joined_allowed_ips sep ips)"
  by (auto simp: joined_allowed_ips_def list_all_iff ip_net_str_no_control intro!: no_control_tab join_no_control)

lemma endpoint_no_tab: "tabless_endpoint p \<Longrightarrow> no_tab (endpoint_value p)"
  by (auto simp: endpoint_value_def has_address_def tabless_endpoint_def udp_addr_str_def join_host_port_def
      Let_def made_no_tab split: option.splits)

lemma dump_columns_no_tab: "tabless_endpoint p \<Longrightarrow> list_all no_tab (dump_columns p)"
  by (simp add: dump_columns_def display_key_value_def keepalive_value_def made_no_tab allowed_no_tab endpoint_no_tab)

lemma split_dump_columns:
  assumes "tabless_endpoint p"
  shows "split_on (CHR 0x09) (join tab (dump_columns p)) = dump_columns p"
proof -
  have "dump_columns p \<noteq> []" by (simp add: dump_columns_def)
  then show ?thesis
    using split_on_join [of "dump_columns p" "CHR 0x09" "[]"] dump_columns_no_tab [OF assms]
    by (simp add: tab_def list_all_iff no_tab_def)
qed

text \<open>The field that prints a column of the dump.\<close>

definition column_fields :: "(string \<times> nat) list" where
  "column_fields = [(''preshared-keys'', 1), (''endpoints'', 2), (''latest-handshakes'', 4), (''persistent-keepalive'', 7)]"



end
