(* ===== verification/WgApi.thy ===== *)
theory WgApi
  imports WgApiJson WgCli WgNetlink
begin

text \<open>
  internal/wgapi/server.go: the REST API over a client, the files of the metadata store and the
  readers of configurations. A request is handled from its arrival to its response; the state is
  the system the client talks to and the files. Requests that write take turns (the mutex), so
  that the requests are handled in a sequence. The log is left out, but not what logging does to
  the body of a request.
\<close>

section \<open>Requests and responses\<close>

text \<open>
  A request as net/http hands it over: \<open>rq_escaped\<close> is the escaped path of the URL,
  \<open>rq_mode\<close> the first query parameter "mode" and \<open>rq_api_key\<close> the header "X-API-Key", each
  empty when missing; \<open>rq_length\<close> is the \<open>ContentLength\<close>, -1 when unknown.
\<close>

record request =
  rq_method :: string
  rq_escaped :: string
  rq_mode :: string
  rq_api_key :: string
  rq_length :: int
  rq_body :: reader

text \<open>The body of a response: its bytes, or the JSON object that holds an error's text.\<close>

datatype body = Bytes string | ErrorJson go_error

record response =
  rs_status :: nat
  rs_headers :: "(string \<times> string) list"
  rs_body :: body

record 's server =
  sv_client :: "'s client"
  sv_metadata :: string
  sv_hide_keys :: bool
  sv_version :: string
  sv_build_time :: string
  sv_platform :: string
  sv_api_key :: string

text \<open>The rest of the program's environment: the files, name resolution, randomness, the curve.\<close>

record api_env =
  ae_os :: os_env
  ae_endpoints :: endpoint_env
  ae_random :: "byte list res"
  ae_base_mult :: "byte list \<Rightarrow> byte list"

type_synonym 's option_fun = "'s server \<Rightarrow> 's server"

definition hide_keys_option :: "'s option_fun" where
  "hide_keys_option s = s\<lparr>sv_hide_keys := True\<rparr>"

definition version_option :: "string \<Rightarrow> 's option_fun" where
  "version_option v s = s\<lparr>sv_version := v\<rparr>"

definition build_info_option :: "string \<Rightarrow> string \<Rightarrow> 's option_fun" where
  "build_info_option t p s = s\<lparr>sv_build_time := t, sv_platform := p\<rparr>"

definition api_key_option :: "string \<Rightarrow> 's option_fun" where
  "api_key_option k s = s\<lparr>sv_api_key := k\<rparr>"

definition new_rest_server :: "'s client \<Rightarrow> string \<Rightarrow> 's option_fun list \<Rightarrow> 's server" where
  "new_rest_server c path opts =
     fold (\<lambda>f s. f s) opts \<lparr>sv_client = c, sv_metadata = path, sv_hide_keys = False,
       sv_version = ''wgctrl-go'', sv_build_time = [], sv_platform = [], sv_api_key = []\<rparr>"

definition json_headers :: "(string \<times> string) list" where
  "json_headers = [(''Content-Type'', ''application/json; charset=utf-8'')]"

definition plain_headers :: "(string \<times> string) list" where
  "plain_headers = [(''Content-Type'', ''text/plain; charset=utf-8'')]"

definition write_json :: "nat \<Rightarrow> json \<Rightarrow> response" where
  "write_json status v = \<lparr>rs_status = status, rs_headers = json_headers, rs_body = Bytes (json_text v @ nl)\<rparr>"

definition write_error :: "nat \<Rightarrow> go_error \<Rightarrow> response" where
  "write_error status e = \<lparr>rs_status = status, rs_headers = json_headers, rs_body = ErrorJson e\<rparr>"

definition method_not_allowed :: "string \<Rightarrow> response" where
  "method_not_allowed allow =
     (write_error 405 (ErrText ''method not allowed''))\<lparr>rs_headers := (''Allow'', allow) # json_headers\<rparr>"

definition status_ok :: response where
  "status_ok = write_json 200 (JObj [(''status'', JStr ''ok'')])"

definition device_error_status :: "go_error \<Rightarrow> nat" where
  "device_error_status e = (if errors_Is e ErrNotExist then 404 else 500)"

section \<open>Bodies\<close>

definition err_unexpected_eof :: go_error where
  "err_unexpected_eof = ErrText ''unexpected EOF''"

text \<open>
  What logging leaves of a body. Up to 1024 bytes are read first; if that fails with an error
  other than the two of an early end, the handler gets the rest of the body with that error.
  Otherwise the rest is read too, its error dropped, and everything is put together.
\<close>

definition peek_limit :: "int \<Rightarrow> nat" where
  "peek_limit cl = (if 0 < cl \<and> cl < 1024 then nat cl else 1024)"

definition peek_request_body :: "int \<Rightarrow> reader \<Rightarrow> reader" where
  "peek_request_body cl r =
     (if cl = 0 then r
      else if length (rd_data r) < peek_limit cl
          \<and> (case rd_err r of None \<Rightarrow> False | Some e \<Rightarrow> e \<noteq> err_unexpected_eof) then r\<lparr>rd_data := []\<rparr>
      else \<lparr>rd_data = rd_data r, rd_err = None\<rparr>)"

text \<open>\<open>http.MaxBytesReader\<close>\<close>

definition max_bytes_reader :: "nat \<Rightarrow> reader \<Rightarrow> reader" where
  "max_bytes_reader n r =
     (if length (rd_data r) \<le> n then r
      else \<lparr>rd_data = take n (rd_data r), rd_err = Some (ErrText ''http: request body too large'')\<rparr>)"

definition max_body :: nat where
  "max_body = 4194304"

definition decode_json :: "reader \<Rightarrow> json res" where
  "decode_json r = json_decode (max_bytes_reader max_body r)"

section \<open>Paths\<close>

text \<open>\<open>url.PathUnescape\<close>\<close>

fun path_unescape :: "string \<Rightarrow> string res" where
  "path_unescape [] = Inr []"
| "path_unescape (c # s) =
     (if c = CHR ''%'' then
        (case s of
           a # b # t \<Rightarrow>
             (case (hex_digit a, hex_digit b) of
                (Some x, Some y) \<Rightarrow> bind_res (path_unescape t) (\<lambda>u. Inr (char_of (16 * x + y) # u))
              | _ \<Rightarrow> Inl (ErrText ''invalid URL escape''))
         | _ \<Rightarrow> Inl (ErrText ''invalid URL escape''))
      else bind_res (path_unescape s) (\<lambda>u. Inr (c # u)))"

text \<open>\<open>r.URL.Path\<close>; a request whose path cannot be unescaped does not reach the handler.\<close>

definition rq_path :: "request \<Rightarrow> string" where
  "rq_path r = (case path_unescape (rq_escaped r) of Inl _ \<Rightarrow> [] | Inr p \<Rightarrow> p)"

datatype endpoint =
  Autotest | Health | Version | Interfaces | Devices | DevicePath | GenKey | GenPsk | Pubkey

definition api_patterns :: "(string list \<times> endpoint) list" where
  "api_patterns =
     [([''autotest''], Autotest), ([''api'', ''v1'', ''health''], Health), ([''api'', ''v1'', ''version''], Version),
      ([''api'', ''v1'', ''interfaces''], Interfaces), ([''api'', ''v1'', ''devices''], Devices),
      ([''api'', ''v1'', ''genkey''], GenKey), ([''api'', ''v1'', ''genpsk''], GenPsk), ([''api'', ''v1'', ''pubkey''], Pubkey)]"

text \<open>
  \<open>http.ServeMux\<close> compares the segments of the escaped path, each unescaped on its own; the
  pattern that ends in a slash matches whatever follows. A path that is not clean is redirected
  first, except for the method CONNECT.
\<close>

datatype route = Serve endpoint | Redirect | NotFound

definition mux_clean :: "string \<Rightarrow> string" where
  "mux_clean p =
     (if p = [] then ''/''
      else (let q = (if prefix ''/'' p then p else ''/'' @ p); np = path_clean q
            in if suffix ''/'' q \<and> np \<noteq> ''/'' then np @ ''/'' else np))"

definition unescaped_segment :: "string \<Rightarrow> string" where
  "unescaped_segment s = (case path_unescape s of Inl _ \<Rightarrow> s | Inr t \<Rightarrow> t)"

definition match_path :: "string \<Rightarrow> endpoint option" where
  "match_path p =
     (let segs = map unescaped_segment (tl (split_on (CHR ''/'') p))
      in case map_of api_patterns segs of
           Some e \<Rightarrow> Some e
         | None \<Rightarrow>
             if 3 < length segs \<and> take 3 segs = [''api'', ''v1'', ''devices''] then Some DevicePath else None)"

definition mux_route :: "request \<Rightarrow> route" where
  "mux_route r =
     (let p = (if rq_method r = ''CONNECT'' then rq_escaped r else mux_clean (rq_escaped r))
      in if p \<noteq> rq_escaped r then Redirect
         else case match_path p of None \<Rightarrow> NotFound | Some e \<Rightarrow> Serve e)"

definition trim_prefix :: "string \<Rightarrow> string \<Rightarrow> string" where
  "trim_prefix s pre = (if prefix pre s then drop (length pre) s else s)"

definition trim_slashes :: "string \<Rightarrow> string" where
  "trim_slashes s = rev (dropWhile (\<lambda>c. c = CHR ''/'') (rev (dropWhile (\<lambda>c. c = CHR ''/'') s)))"

section \<open>Handlers\<close>

text \<open>
  A handler gives the response and the state after it; None stands for a handler that never
  returns, because the endpoint of a configuration is looked up for ever.
\<close>

type_synonym 's handled = "(response \<times> 's \<times> fs) option"

definition handle_autotest :: "request \<Rightarrow> response" where
  "handle_autotest r =
     (if rq_method r \<noteq> ''GET'' then method_not_allowed ''GET''
      else \<lparr>rs_status = 200, rs_headers = plain_headers, rs_body = Bytes ''OK''\<rparr>)"

definition handle_health :: response where
  "handle_health = status_ok"

definition handle_version :: "'s server \<Rightarrow> response" where
  "handle_version sv = write_json 200 (JObj [(''build_time'', JStr (sv_build_time sv)),
     (''platform'', JStr (sv_platform sv)), (''version'', JStr (sv_version sv))])"

definition handle_interfaces :: "'s server \<Rightarrow> 's \<times> fs \<Rightarrow> response \<times> 's \<times> fs" where
  "handle_interfaces sv st =
     (case cl_devices (sv_client sv) (fst st) of
        (Inl e, s) \<Rightarrow> (write_error 500 (ErrWrap ''list interfaces'' e), s, snd st)
      | (Inr ds, s) \<Rightarrow> (write_json 200 (JArr (map (\<lambda>d. JStr (d_name d)) ds)), s, snd st))"

text \<open>A failure to read the names is only logged.\<close>

definition named_device :: "api_env \<Rightarrow> 's server \<Rightarrow> device \<Rightarrow> fs \<Rightarrow> device" where
  "named_device env sv d files = with_names (ae_os env) d (sv_metadata sv) files"

definition handle_devices :: "api_env \<Rightarrow> 's server \<Rightarrow> 's \<times> fs \<Rightarrow> response \<times> 's \<times> fs" where
  "handle_devices env sv st =
     (case cl_devices (sv_client sv) (fst st) of
        (Inl e, s) \<Rightarrow> (write_error 500 (ErrWrap ''list interfaces'' e), s, snd st)
      | (Inr ds, s) \<Rightarrow>
          (write_json 200 (JArr (map (\<lambda>d. api_device_value (device_to_json (named_device env sv d (snd st)) (sv_hide_keys sv))) ds)),
           s, snd st))"

text \<open>The end of every handler that changes a device.\<close>

definition changed_response :: "unit res \<Rightarrow> response" where
  "changed_response r = (case r of Inl e \<Rightarrow> write_error (device_error_status e) e | Inr _ \<Rightarrow> status_ok)"

definition handle_device_resource ::
  "api_env \<Rightarrow> 's server \<Rightarrow> request \<Rightarrow> string \<Rightarrow> 's \<times> fs \<Rightarrow> response \<times> 's \<times> fs" where
  "handle_device_resource env sv r name st =
     (if rq_method r = ''GET'' then
        (case cl_device (sv_client sv) name (fst st) of
           (Inl e, s) \<Rightarrow> (write_error (device_error_status e) (ErrWrap (''interface '' @ name) e), s, snd st)
         | (Inr d, s) \<Rightarrow>
             (write_json 200 (api_device_value (device_to_json (named_device env sv d (snd st)) (sv_hide_keys sv))), s, snd st))
      else if rq_method r = ''POST'' then
        (case bind_res (decode_json (rq_body r)) dec_config of
           Inl e \<Rightarrow> (write_error 400 (ErrWrap ''parse'' e), st)
         | Inr c \<Rightarrow>
             (case parse_config (ev_resolver (ae_endpoints env)) c of
                Inl e \<Rightarrow> (write_error 400 e, st)
              | Inr cfg \<Rightarrow>
                  (case conf_apply (ae_os env) (sv_client sv) name cfg (sv_metadata sv) st of
                     (res, st') \<Rightarrow> (changed_response res, st'))))
      else (method_not_allowed ''GET, POST'', st))"

text \<open>The three booleans of \<open>confMode\<close>: append, replace the peers, synchronise the peers.\<close>

definition conf_mode :: "string \<Rightarrow> (bool \<times> bool \<times> bool) res" where
  "conf_mode mode =
     (if mode = ''add'' then Inr (True, False, False)
      else if mode = ''set'' then Inr (False, True, False)
      else if mode = ''sync'' then Inr (False, False, True)
      else Inl (ErrText ''invalid mode''))"

definition request_mode :: "request \<Rightarrow> string" where
  "request_mode r =
     (if rq_mode r \<noteq> [] then rq_mode r else if rq_method r = ''PUT'' then ''set'' else ''add'')"

definition handle_conf_write ::
  "api_env \<Rightarrow> 's server \<Rightarrow> request \<Rightarrow> string \<Rightarrow> 's \<times> fs \<Rightarrow> 's handled" where
  "handle_conf_write env sv r name st =
     (case conf_mode (request_mode r) of
        Inl e \<Rightarrow> Some (write_error 400 e, st)
      | Inr (append_mode, replace_peers, sync_peers) \<Rightarrow>
          (case parse (ae_endpoints env) (max_bytes_reader max_body (rq_body r)) append_mode of
             None \<Rightarrow> None
           | Some (Inl e) \<Rightarrow> Some (write_error 400 (ErrWrap ''parse'' e), st)
           | Some (Inr cfg0) \<Rightarrow>
               (let cfg = cfg0\<lparr>c_replace_peers := replace_peers\<rparr>;
                    go = (if sync_peers then conf_sync else conf_apply)
                in case go (ae_os env) (sv_client sv) name cfg (sv_metadata sv) st of
                     (res, st') \<Rightarrow> Some (changed_response res, st'))))"

definition handle_device_conf ::
  "api_env \<Rightarrow> 's server \<Rightarrow> request \<Rightarrow> string \<Rightarrow> 's \<times> fs \<Rightarrow> 's handled" where
  "handle_device_conf env sv r name st =
     (if rq_method r = ''GET'' then
        (case cl_device (sv_client sv) name (fst st) of
           (Inl e, s) \<Rightarrow> Some (write_error (device_error_status e) (ErrWrap (''interface '' @ name) e), s, snd st)
         | (Inr d, s) \<Rightarrow>
             Some (\<lparr>rs_status = 200, rs_headers = plain_headers,
                     rs_body = Bytes (fst (encode (named_device env sv d (snd st))))\<rparr>, s, snd st))
      else if rq_method r = ''PUT'' \<or> rq_method r = ''POST'' then handle_conf_write env sv r name st
      else Some (method_not_allowed ''GET, PUT, POST'', st))"

definition device_parts :: "string \<Rightarrow> string list res" where
  "device_parts path =
     bind_res (path_unescape (trim_prefix path ''/api/v1/devices/''))
       (\<lambda>rest. Inr (split_on (CHR ''/'') (trim_slashes rest)))"

definition handle_device :: "api_env \<Rightarrow> 's server \<Rightarrow> request \<Rightarrow> 's \<times> fs \<Rightarrow> 's handled" where
  "handle_device env sv r st =
     (case device_parts (rq_path r) of
        Inl e \<Rightarrow> Some (write_error 400 (ErrWrap ''device name'' e), st)
      | Inr parts \<Rightarrow>
          if parts = [] \<or> hd parts = [] then Some (write_error 404 (ErrText ''no device name''), st)
          else if length parts = 1 then Some (handle_device_resource env sv r (hd parts) st)
          else if length parts = 2 \<and> parts ! 1 = ''conf'' then handle_device_conf env sv r (hd parts) st
          else Some (write_error 404 (ErrText ''unknown path''), st))"

definition key_response :: "key res \<Rightarrow> response" where
  "key_response r =
     (case r of
        Inl e \<Rightarrow> write_error 500 (ErrWrap ''generate key'' e)
      | Inr k \<Rightarrow> write_json 200 (JObj [(''key'', JStr (key_str k))]))"

definition handle_gen_key :: "api_env \<Rightarrow> response" where
  "handle_gen_key env = key_response (generate_private_key (ae_random env))"

definition handle_gen_psk :: "api_env \<Rightarrow> response" where
  "handle_gen_psk env = key_response (generate_key (ae_random env))"

definition dec_key_member :: "string \<times> json \<Rightarrow> string \<Rightarrow> string res" where
  "dec_key_member m k = (if equal_fold_ascii (fst m) ''key'' then dec_string (snd m) k else Inr k)"

definition handle_pubkey :: "api_env \<Rightarrow> request \<Rightarrow> response" where
  "handle_pubkey env r =
     (case bind_res (decode_json (rq_body r)) (\<lambda>v. dec_struct dec_key_member v []) of
        Inl e \<Rightarrow> write_error 400 (ErrWrap ''parse'' e)
      | Inr s \<Rightarrow>
          (case parse_key (trim_space s) of
             Inl e \<Rightarrow> write_error 400 (ErrWrap ''private key'' e)
           | Inr k \<Rightarrow> write_json 200 (JObj [(''key'', JStr (key_str (key_public (ae_base_mult env) k)))])))"

text \<open>The handlers by their patterns; the two answers of the mux itself carry no body of ours.\<close>

definition mux :: "api_env \<Rightarrow> 's server \<Rightarrow> request \<Rightarrow> 's \<times> fs \<Rightarrow> 's handled" where
  "mux env sv r st =
     (case mux_route r of
        Redirect \<Rightarrow> Some (\<lparr>rs_status = 301, rs_headers = [], rs_body = Bytes []\<rparr>, st)
      | NotFound \<Rightarrow> Some (\<lparr>rs_status = 404, rs_headers = [], rs_body = Bytes []\<rparr>, st)
      | Serve Autotest \<Rightarrow> Some (handle_autotest r, st)
      | Serve Health \<Rightarrow> Some (handle_health, st)
      | Serve Version \<Rightarrow> Some (handle_version sv, st)
      | Serve Interfaces \<Rightarrow> Some (handle_interfaces sv st)
      | Serve Devices \<Rightarrow> Some (handle_devices env sv st)
      | Serve DevicePath \<Rightarrow> handle_device env sv r st
      | Serve GenKey \<Rightarrow> Some (handle_gen_key env, st)
      | Serve GenPsk \<Rightarrow> Some (handle_gen_psk env, st)
      | Serve Pubkey \<Rightarrow> Some (handle_pubkey env r, st))"

section \<open>Authentication\<close>

text \<open>The loop of \<open>constantTimeEq\<close>, which looks at every byte.\<close>

definition constant_time_eq :: "string \<Rightarrow> string \<Rightarrow> bool" where
  "constant_time_eq a b =
     (if length a \<noteq> length b then False
      else fold (\<lambda>(x, y) diff. diff OR (byte_of_char x XOR byte_of_char y)) (zip a b) 0 = (0 :: byte))"

definition refuse :: "nat \<Rightarrow> string \<Rightarrow> response" where
  "refuse status msg =
     (write_error status (ErrText msg))\<lparr>rs_headers := (''WWW-Authenticate'', ''X-API-Key'') # json_headers\<rparr>"

definition with_auth :: "api_env \<Rightarrow> 's server \<Rightarrow> request \<Rightarrow> 's \<times> fs \<Rightarrow> 's handled" where
  "with_auth env sv r st =
     (if rq_path r = ''/autotest'' \<or> rq_path r = ''/api/v1/health'' then mux env sv r st
      else if sv_api_key sv = [] then Some (refuse 500 ''server misconfigured: api key not set'', st)
      else if rq_api_key r = [] then Some (refuse 401 ''unauthorized: missing X-API-Key header'', st)
      else if \<not> constant_time_eq (sv_api_key sv) (rq_api_key r) then Some (refuse 401 ''unauthorized: invalid X-API-Key'', st)
      else mux env sv r st)"

definition api_handler :: "api_env \<Rightarrow> 's server \<Rightarrow> request \<Rightarrow> 's \<times> fs \<Rightarrow> 's handled" where
  "api_handler env sv r st =
     with_auth env sv (r\<lparr>rq_body := peek_request_body (rq_length r) (rq_body r)\<rparr>) st"

section \<open>Authentication, properly\<close>

lemma fold_or_zero:
  "fold (\<lambda>(x, y) diff. diff OR f x y) zs d = (0 :: byte) \<longleftrightarrow> d = 0 \<and> list_all (\<lambda>(x, y). f x y = 0) zs"
proof (induction zs arbitrary: d)
  case (Cons z zs)
  have "(a OR b = 0) = (a = 0 \<and> b = 0)" for a b :: byte by (rule or_eq_0_iff)
  then show ?case using Cons by (cases z) simp
qed simp

lemma byte_xor_zero: "byte_of_char x XOR byte_of_char y = 0 \<longleftrightarrow> x = y"
proof
  assume z: "byte_of_char x XOR byte_of_char y = 0"
  have "byte_of_char x = (byte_of_char x XOR byte_of_char y) XOR byte_of_char y" by (simp add: xor.assoc)
  then have "byte_of_char x = byte_of_char y" by (simp add: z)
  then show "x = y" by (metis char_of_byte_of_char)
qed simp

lemma constant_time_eq_iff: "constant_time_eq a b \<longleftrightarrow> a = b"
proof (cases "length a = length b")
  case True
  then show ?thesis
    by (induction a b rule: list_induct2) (auto simp: constant_time_eq_def fold_or_zero byte_xor_zero)
qed (auto simp: constant_time_eq_def)

lemma path_unescape_slash:
  "path_unescape (s @ CHR ''/'' # t) = Inr u \<Longrightarrow> CHR ''/'' \<notin> set s \<Longrightarrow>
   \<exists>a b. path_unescape s = Inr a \<and> path_unescape t = Inr b \<and> u = a @ CHR ''/'' # b"
proof (induction "length s" arbitrary: s u rule: less_induct)
  case less
  have sl: "hex_digit (CHR ''/'') = None" by code_simp
  show ?case
  proof (cases s)
    case Nil
    then show ?thesis using less.prems by (auto simp: bind_res_Inr_iff)
  next
    case (Cons c r)
    show ?thesis
    proof (cases "c = CHR ''%''")
      case False
      then obtain w where w: "path_unescape (r @ CHR ''/'' # t) = Inr w" "u = c # w"
        using less.prems(1) Cons by (auto simp: bind_res_Inr_iff)
      then obtain a b where "path_unescape r = Inr a" "path_unescape t = Inr b" "w = a @ CHR ''/'' # b"
        using less.hyps [of r w] less.prems(2) Cons by auto
      then show ?thesis using False Cons w by simp
    next
      case True
      obtain x y q where r: "r = x # y # q"
        using less.prems(1) Cons True sl by (cases r; cases "tl r") (auto split: list.splits option.splits)
      obtain i j where ij: "hex_digit x = Some i" "hex_digit y = Some j"
        using less.prems(1) Cons True r by (auto split: option.splits)
      obtain w where w: "path_unescape (q @ CHR ''/'' # t) = Inr w" "u = char_of (16 * i + j) # w"
        using less.prems(1) Cons True r ij by (auto simp: bind_res_Inr_iff)
      then obtain a b where "path_unescape q = Inr a" "path_unescape t = Inr b" "w = a @ CHR ''/'' # b"
        using less.hyps [of q w] less.prems(2) Cons r by auto
      then show ?thesis using True Cons r ij w by simp
    qed
  qed
qed

lemma unescape_segments:
  "path_unescape p = Inr u \<Longrightarrow> u = join ''/'' (map unescaped_segment (split_on (CHR ''/'') p))"
proof (induction "length p" arbitrary: p u rule: less_induct)
  case less
  show ?case
  proof (cases "CHR ''/'' \<in> set p")
    case False
    then show ?thesis using less.prems by (simp add: split_on_none unescaped_segment_def)
  next
    case True
    then obtain s t where st: "p = s @ CHR ''/'' # t" "CHR ''/'' \<notin> set s" by (meson split_list_first)
    then obtain a b where ab: "path_unescape s = Inr a" "path_unescape t = Inr b" "u = a @ CHR ''/'' # b"
      using path_unescape_slash less.prems by blast
    have "b = join ''/'' (map unescaped_segment (split_on (CHR ''/'') t))"
      using less.hyps [OF _ ab(2)] st by simp
    then show ?thesis using st ab
      by (cases "split_on (CHR ''/'') t") (simp_all add: split_on_append unescaped_segment_def)
  qed
qed

lemma join_slash_last:
  "xs \<noteq> [] \<Longrightarrow> last xs \<noteq> [] \<Longrightarrow> last (join ''/'' (x # xs)) = last (last xs)"
proof (induction xs arbitrary: x)
  case (Cons y ys)
  have ne: "join ''/'' (y # zs) = y \<Longrightarrow> zs = []" if "zs \<noteq> []" for zs using that by (cases zs) auto
  show ?case
  proof (cases ys)
    case Nil
    then show ?thesis using Cons.prems by simp
  next
    case (Cons z zs)
    then have "join ''/'' (y # ys) \<noteq> []" by (cases zs) simp_all
    then show ?thesis using Cons.IH [of y] Cons.prems Cons by simp
  qed
qed simp

lemma join_slash_length: "length (concat xs) \<le> length (join ''/'' xs)"
  by (induction "''/''" xs rule: join.induct) simp_all

lemma join_slash_long: "length (join ''/'' (y # zs)) = length y + length zs + length (concat zs)"
  by (induction zs arbitrary: y) simp_all

lemma pattern_ends:
  assumes "(segs, e) \<in> set api_patterns"
  shows "segs \<noteq> [] \<and> last segs \<noteq> [] \<and> (last (last segs) \<in> set ''th'' \<longrightarrow> e = Autotest \<or> e = Health)"
proof -
  have "list_all (\<lambda>(s, e). s \<noteq> [] \<and> last s \<noteq> [] \<and> (last (last s) \<in> set ''th'' \<longrightarrow> e = Autotest \<or> e = Health)) api_patterns"
    by code_simp
  then show ?thesis using assms by (simp add: list_all_iff) blast
qed

text \<open>What a matched path looks like when it is unescaped as a whole.\<close>

lemma match_path_unescaped:
  assumes "match_path p = Some e" and "path_unescape p = Inr u"
  shows "16 \<le> length u \<or> e = Autotest \<or> e = Health \<or> last u \<notin> set ''th''"
proof -
  obtain x xs where x: "split_on (CHR ''/'') p = x # xs" by (cases "split_on (CHR ''/'') p") auto
  define segs where "segs = map unescaped_segment xs"
  have u: "u = join ''/'' (unescaped_segment x # segs)"
    using unescape_segments [OF assms(2)] x by (simp add: segs_def)
  show ?thesis
  proof (cases "map_of api_patterns segs")
    case None
    then have long: "3 < length segs" "take 3 segs = [''api'', ''v1'', ''devices'']"
      using assms(1) x by (simp_all add: match_path_def Let_def segs_def [symmetric] split: if_splits)
    have "concat segs = concat (take 3 segs) @ concat (drop 3 segs)"
      by (metis append_take_drop_id concat_append)
    then have "12 \<le> length (concat segs)" using long(2) by simp
    then show ?thesis using long(1) by (simp add: u join_slash_long)
  next
    case (Some e')
    then have "e = e'" using assms(1) x by (simp add: match_path_def Let_def segs_def [symmetric])
    moreover note pattern_ends [OF map_of_SomeD [OF Some]]
    moreover have "last u = last (last segs)" unfolding u using pattern_ends [OF map_of_SomeD [OF Some]] by (intro join_slash_last) simp_all
    ultimately show ?thesis by auto
  qed
qed

text \<open>The paths that need no key lead to their own handlers only.\<close>

lemma public_route:
  assumes "rq_path r = ''/autotest'' \<or> rq_path r = ''/api/v1/health''"
  shows "mux_route r \<in> {Redirect, NotFound, Serve Autotest, Serve Health}"
proof (cases "match_path (rq_escaped r)")
  case None
  then show ?thesis by (simp add: mux_route_def Let_def)
next
  case (Some e)
  have "rq_path r \<noteq> []" "length (rq_path r) < 16" "last (rq_path r) \<in> set ''th''" using assms by (elim disjE; simp)+
  moreover have "path_unescape (rq_escaped r) = Inr (rq_path r)"
    using calculation(1) by (simp add: rq_path_def split: sum.splits)
  ultimately have "e = Autotest \<or> e = Health" using match_path_unescaped [OF Some] by fastforce
  then show ?thesis using Some by (auto simp: mux_route_def Let_def)
qed

lemma mux_public:
  assumes "mux_route r \<in> {Redirect, NotFound, Serve Autotest, Serve Health}"
  obtains resp where "\<And>env sv st. mux env sv r st = Some (resp, st)"
proof -
  have "\<exists>resp. \<forall>env sv st. mux env sv r st = Some (resp, st)"
    using assms by (auto simp: mux_def)
  then show ?thesis using that by blast
qed

section \<open>Secrets\<close>

text \<open>A client whose devices have other secrets.\<close>

definition secret_client :: "key \<Rightarrow> (peer \<Rightarrow> key) \<Rightarrow> 's client \<Rightarrow> 's client" where
  "secret_client k psk c = c
     \<lparr>cl_devices := (\<lambda>s. case cl_devices c s of (Inl e, s') \<Rightarrow> (Inl e, s') | (Inr ds, s') \<Rightarrow> (Inr (map (with_secrets k psk) ds), s')),
      cl_device := (\<lambda>n s. case cl_device c n s of (Inl e, s') \<Rightarrow> (Inl e, s') | (Inr d, s') \<Rightarrow> (Inr (with_secrets k psk d), s'))\<rparr>"

definition no_secrets :: "device \<Rightarrow> device" where
  "no_secrets d = with_secrets zero_key (\<lambda>_. zero_key) d"

lemma peer_to_json_psk [simp]: "peer_to_json (p\<lparr>p_preshared_key := k\<rparr>) True = peer_to_json p True"
  by (cases "p_endpoint p") (simp_all add: peer_to_json_def)

lemma device_to_json_no_secrets: "device_to_json (no_secrets d) True = device_to_json d True"
  by (simp add: device_to_json_def no_secrets_def with_secrets_def)

lemma no_secrets_with [simp]: "no_secrets (with_secrets k psk d) = no_secrets d"
  by (simp add: no_secrets_def with_secrets_def)

lemma attach_no_secrets:
  "attach_names env (with_secrets k psk d) path files = Inl e \<longleftrightarrow> attach_names env d path files = Inl e"
  "attach_names env d path files = Inr d1 \<Longrightarrow> attach_names env (with_secrets k psk d) path files = Inr d2 \<Longrightarrow>
     no_secrets d1 = no_secrets d2"
  by (cases "store_names env path (d_name d) files";
      auto simp: attach_names_def with_secrets_def no_secrets_def split: option.splits)+

lemma with_names_no_secrets: "no_secrets (with_names env (with_secrets k psk d) path files) = no_secrets (with_names env d path files)"
proof (cases "attach_names env d path files")
  case (Inl e)
  moreover from this have "attach_names env (with_secrets k psk d) path files = Inl e"
    by (simp add: attach_no_secrets(1))
  ultimately show ?thesis by (simp add: with_names_def)
next
  case (Inr d1)
  then obtain d2 where "attach_names env (with_secrets k psk d) path files = Inr d2"
    using attach_no_secrets(1) [of env k psk d path files]
    by (cases "attach_names env (with_secrets k psk d) path files") auto
  then show ?thesis using attach_no_secrets(2) [OF Inr] Inr by (simp add: with_names_def)
qed

lemma hidden_value:
  "device_to_json (named_device env sv (with_secrets k psk d) files) True = device_to_json (named_device env sv d files) True"
  unfolding named_device_def using with_names_no_secrets device_to_json_no_secrets by metis

lemma named_device_client [simp]: "named_device env (sv\<lparr>sv_client := c\<rparr>) = named_device env sv"
  by (simp add: named_device_def fun_eq_iff)

lemma devices_hidden:
  "sv_hide_keys sv \<Longrightarrow> handle_devices env (sv\<lparr>sv_client := secret_client k psk (sv_client sv)\<rparr>) st = handle_devices env sv st"
  by (cases "cl_devices (sv_client sv) (fst st)" rule: prod.exhaust)
     (auto simp: handle_devices_def secret_client_def hidden_value comp_def split: sum.split)

lemma device_hidden:
  "sv_hide_keys sv \<Longrightarrow> rq_method r = ''GET'' \<Longrightarrow>
   handle_device_resource env (sv\<lparr>sv_client := secret_client k psk (sv_client sv)\<rparr>) r name st = handle_device_resource env sv r name st"
  by (cases "cl_device (sv_client sv) name (fst st)" rule: prod.exhaust)
     (auto simp: handle_device_resource_def secret_client_def hidden_value split: sum.split)

section \<open>Properties\<close>

text \<open>
  C20. Nothing without the key: a request with a wrong or missing key leaves the device and the
  files as they are, and its response is the same whatever they are; so is that of every
  request to a server that was given no key.
\<close>

theorem api_needs_key:
  assumes "sv_api_key sv = [] \<or> rq_api_key r \<noteq> sv_api_key sv"
  shows "\<exists>resp. \<forall>env client meta st. api_handler env (sv\<lparr>sv_client := client, sv_metadata := meta\<rparr>) r st = Some (resp, st)"
proof -
  let ?r = "r\<lparr>rq_body := peek_request_body (rq_length r) (rq_body r)\<rparr>"
  have p: "rq_path ?r = rq_path r" by (simp add: rq_path_def)
  show ?thesis
  proof (cases "rq_path r = ''/autotest'' \<or> rq_path r = ''/api/v1/health''")
    case True
    then obtain resp where "\<And>env (sv :: 'a server) st. mux env sv ?r st = Some (resp, st)"
      using mux_public [OF public_route [of ?r]] p by metis
    then show ?thesis using True p by (auto simp: api_handler_def with_auth_def)
  next
    case False
    have "\<exists>resp. \<forall>env client meta st. with_auth env (sv\<lparr>sv_client := client, sv_metadata := meta\<rparr>) ?r st = Some (resp, st)"
      using assms False p
      by (cases "sv_api_key sv = []"; cases "rq_api_key r = []") (auto simp: with_auth_def constant_time_eq_iff)
    then show ?thesis by (simp add: api_handler_def)
  qed
qed

definition sample_request :: request where
  "sample_request = \<lparr>rq_method = ''GET'', rq_escaped = ''/api/v1/devices/wg0'', rq_mode = [], rq_api_key = ''guess'',
     rq_length = 0, rq_body = \<lparr>rd_data = [], rd_err = None\<rparr>\<rparr>"

definition sample_server :: "unit server" where
  "sample_server = new_rest_server
     \<lparr>cl_close = (\<lambda>s. (Inr (), s)), cl_devices = (\<lambda>s. (Inr [sample_shown], s)), cl_device = (\<lambda>n s. (Inr sample_shown, s)),
      cl_configure = (\<lambda>n c s. (Inr (), s))\<rparr> ''/etc/wireguard'' [hide_keys_option, api_key_option ''0123456789abcdef'']"

theorem api_needs_key_witness:
  "\<exists>resp. \<forall>env client meta st. api_handler env (sample_server\<lparr>sv_client := client, sv_metadata := meta\<rparr>) sample_request st = Some (resp, st)"
  by (rule api_needs_key) (simp add: sample_server_def new_rest_server_def hide_keys_option_def api_key_option_def sample_request_def)

text \<open>
  \<open>constantTimeEq\<close>, which folds the differences of all bytes into one, is equality.
\<close>

theorem constant_time_eq_equality: "constant_time_eq a b \<longleftrightarrow> a = b"
  by (rule constant_time_eq_iff)


definition sample_api_env :: api_env where
  "sample_api_env = \<lparr>ae_os = no_faults, ae_endpoints = \<lparr>ev_retries = None, ev_resolver = \<lparr>lookup_service = (\<lambda>_. Inr 0), lookup_host = (\<lambda>_. Inr [])\<rparr>,
     ev_lookup_ips = (\<lambda>_ _. Inr [])\<rparr>, ae_random = Inr (replicate 32 7), ae_base_mult = (\<lambda>k. k)\<rparr>"


text \<open>
  What logging does to a broken upload: when the connection breaks off after the first 1024
  bytes, the error is lost, and the request is handled as if its body ended there.
\<close>

theorem api_truncated_body:
  assumes "rq_length r \<noteq> 0" and "1024 \<le> length b"
  shows "api_handler env sv (r\<lparr>rq_body := \<lparr>rd_data = b, rd_err = Some e\<rparr>\<rparr>) st
    = api_handler env sv (r\<lparr>rq_body := \<lparr>rd_data = b, rd_err = None\<rparr>\<rparr>) st"
proof -
  have "peek_limit (rq_length r) \<le> 1024" by (auto simp: peek_limit_def)
  then show ?thesis using assms by (simp add: api_handler_def peek_request_body_def)
qed

theorem api_truncated_body_witness:
  "api_handler sample_api_env sample_server
     (sample_request\<lparr>rq_length := 5000, rq_body := \<lparr>rd_data = replicate 1024 (CHR 0x0A), rd_err = Some (ErrText ''connection reset'')\<rparr>\<rparr>) ((), Map.empty)
   = api_handler sample_api_env sample_server
     (sample_request\<lparr>rq_length := 5000, rq_body := \<lparr>rd_data = replicate 1024 (CHR 0x0A), rd_err = None\<rparr>\<rparr>) ((), Map.empty)"
  using api_truncated_body [of "sample_request\<lparr>rq_length := 5000\<rparr>" "replicate 1024 (CHR 0x0A)"] by simp

text \<open>
  In a configuration document, null is no different from a missing member: it changes
  nothing, for every setting that is a pointer.
\<close>

theorem api_null_changes_nothing:
  "list_all (\<lambda>k. bind_res (dec_config (JObj [(k, JNull)])) (parse_config rs) = Inr zero_config)
     [''private_key'', ''listen_port'', ''fwmark'']"
  by code_simp

text \<open>
  C19. A configuration gets through the API: its document, of at most four megabytes, is decoded
  and converted into the configuration itself, with every address of an endpoint in sixteen
  bytes; posted to a device, it is applied as \<open>wgconf.Apply\<close> applies it.
\<close>

theorem api_config_round_trip:
  assumes "sendable c" and "length (json_text (config_value c)) \<le> max_body"
    and "rq_method r = ''POST''" and "rq_body r = \<lparr>rd_data = json_text (config_value c), rd_err = None\<rparr>"
  shows "handle_device_resource env sv r name st =
    (case conf_apply (ae_os env) (sv_client sv) name (c\<lparr>c_peers := map peer_addr16 (c_peers c)\<rparr>) (sv_metadata sv) st of
       (res, st') \<Rightarrow> (changed_response res, st'))"
proof -
  have "decode_json (rq_body r) = Inr (config_value c)"
    using assms(2) json_decode_config [OF assms(1)] by (simp add: decode_json_def max_bytes_reader_def assms(4))
  then show ?thesis
    by (simp add: handle_device_resource_def assms(3) dec_sent_config [OF assms(1)] parse_sent_config [OF assms(1)])
qed

definition posted :: config where
  "posted = zero_config\<lparr>c_listen_port := Some 51820, c_peers := [zero_peer_config\<lparr>pc_name := Some ''office'',
     pc_public_key := replicate 32 1, pc_allowed_ips := [\<lparr>net_ip = [10, 0, 0, 2], net_mask = [255, 255, 255, 255]\<rparr>]\<rparr>]\<rparr>"

theorem api_config_round_trip_witness:
  "handle_device_resource sample_api_env sample_server
     (sample_request\<lparr>rq_method := ''POST'', rq_body := \<lparr>rd_data = json_text (config_value posted), rd_err = None\<rparr>\<rparr>) ''wg0'' ((), Map.empty)
   = (case conf_apply no_faults (sv_client sample_server) ''wg0'' (posted\<lparr>c_peers := map peer_addr16 (c_peers posted)\<rparr>) ''/etc/wireguard'' ((), Map.empty) of
        (res, st') \<Rightarrow> (changed_response res, st'))"
proof -
  have "sendable posted" "length (json_text (config_value posted)) \<le> max_body" by code_simp+
  moreover have "ae_os sample_api_env = no_faults" "sv_metadata sample_server = ''/etc/wireguard''"
    by (simp_all add: sample_api_env_def sample_server_def new_rest_server_def hide_keys_option_def api_key_option_def)
  ultimately show ?thesis
    using api_config_round_trip [of posted "sample_request\<lparr>rq_method := ''POST'', rq_body := \<lparr>rd_data = json_text (config_value posted), rd_err = None\<rparr>\<rparr>"
      sample_api_env sample_server "''wg0''" "((), Map.empty)"] by simp
qed

text \<open>
  A listen port is passed on without a check of its range: of whatever number the document
  names, the kernel is told the low sixteen bits.
\<close>

theorem api_port_unchecked:
  assumes "int64 p"
  shows "bind_res (bind_res (dec_config (JObj [(''listen_port'', JNum (itoa p))])) (parse_config rs)) (config_attrs name)
    = Inr [(WGDEVICE_A_IFNAME, PText name), (WGDEVICE_A_LISTEN_PORT, PU16 (to_uint 16 p))]"
proof -
  let ?c = "zero_config\<lparr>c_listen_port := Some p\<rparr>"
  have v: "config_value ?c = JObj [(''listen_port'', JNum (itoa p))]"
    by (simp add: config_value_def zero_config_def opt_member_def omit_def int_value_def)
  have "sendable ?c" using assms by (simp add: sendable_def zero_config_def)
  from dec_sent_config [OF this] parse_sent_config [OF this, of rs] show ?thesis
    unfolding v by (simp add: zero_config_def config_attrs_def)
qed

theorem api_port_unchecked_witness:
  "bind_res (bind_res (dec_config (JObj [(''listen_port'', JNum ''70000'')])) (parse_config \<lparr>lookup_service = (\<lambda>_. Inr 0), lookup_host = (\<lambda>_. Inr [])\<rparr>)) (config_attrs ''wg0'')
    = Inr [(WGDEVICE_A_IFNAME, PText ''wg0''), (WGDEVICE_A_LISTEN_PORT, PU16 4464)]"
proof -
  have "int64 70000" "itoa 70000 = ''70000''" "to_uint 16 70000 = 4464" by code_simp+
  with api_port_unchecked [of 70000 _ "''wg0''"] show ?thesis by simp
qed

text \<open>
  An empty key does not switch authentication off: every request but the public ones is refused.
\<close>

theorem api_empty_key_refuses:
  assumes "sv_api_key sv = []" and "rq_path r \<noteq> ''/autotest''" and "rq_path r \<noteq> ''/api/v1/health''"
  shows "api_handler env sv r st = Some (refuse 500 ''server misconfigured: api key not set'', st)"
  using assms by (simp add: api_handler_def with_auth_def rq_path_def)

theorem api_empty_key_refuses_witness:
  "api_handler sample_api_env (sample_server\<lparr>sv_api_key := []\<rparr>) sample_request ((), Map.empty)
    = Some (refuse 500 ''server misconfigured: api key not set'', ((), Map.empty))"
proof -
  have "rq_path sample_request = ''/api/v1/devices/wg0''" by code_simp
  then show ?thesis by (intro api_empty_key_refuses) simp_all
qed

end
