(* ===== verification/WgCmd.thy ===== *)
theory WgCmd
  imports WgApi
begin

text \<open>
  cmd/wg: the commands that show interfaces and apply configuration files (config.go, list.go,
  show.go). A command gives its exit code, what it prints on standard output and the state after
  it; messages on standard error are left out. The state is the system and the files.
\<close>

section \<open>Running a command\<close>

text \<open>
  \<open>ce_new_client\<close> is \<open>wgctrl.New\<close>, \<open>ce_tty\<close> whether standard output is a terminal, when it is a
  file, and \<open>ce_now i\<close> the time when the i-th interface is printed.
\<close>

record 's cmd_env =
  ce_os :: os_env
  ce_endpoints :: endpoint_env
  ce_new_client :: "'s \<Rightarrow> 's client res \<times> 's"
  ce_tty :: "bool option"
  ce_now :: "nat \<Rightarrow> go_time"

type_synonym 's ran = "nat \<times> string \<times> 's \<times> fs"

definition is_help :: "string list \<Rightarrow> bool" where
  "is_help args \<longleftrightarrow> length args = 1 \<and> (hd args = ''help'' \<or> hd args = ''-h'' \<or> hd args = ''--help'')"

definition metadata_path :: "'s cmd_env \<Rightarrow> fs \<Rightarrow> string" where
  "metadata_path env files = default_path (ce_os env) OtherOS path_join files"

definition color_mode :: "'s cmd_env \<Rightarrow> bool" where
  "color_mode env = color_enabled (ce_tty env) (os_getenv (ce_os env) ''WG_COLOR_MODE'')"

text \<open>A client is opened, used, and closed when the command returns.\<close>

definition with_client :: "'s cmd_env \<Rightarrow> ('s client \<Rightarrow> 's \<times> fs \<Rightarrow> 's ran) \<Rightarrow> 's \<times> fs \<Rightarrow> 's ran" where
  "with_client env body st =
     (case ce_new_client env (fst st) of
        (Inl e, s) \<Rightarrow> (1, [], s, snd st)
      | (Inr c, s) \<Rightarrow>
          (case body c (s, snd st) of (rc, out, s', files) \<Rightarrow> (rc, out, snd (cl_close c s'), files)))"

text \<open>A failure to read the names is only a warning.\<close>

definition shown_device :: "'s cmd_env \<Rightarrow> device \<Rightarrow> fs \<Rightarrow> device" where
  "shown_device env d files = with_names (ce_os env) d (metadata_path env files) files"

definition exit_of :: "written \<Rightarrow> nat \<times> string" where
  "exit_of w = (case w of (t, None) \<Rightarrow> (0, t) | (t, Some e) \<Rightarrow> (1, t))"

section \<open>showconf\<close>

definition showconf_cmd :: "'s cmd_env \<Rightarrow> string list \<Rightarrow> 's \<times> fs \<Rightarrow> 's ran" where
  "showconf_cmd env args st =
     (if is_help args then (0, [], st)
      else if args = [] then
        with_client env (\<lambda>c st.
          case cl_devices c (fst st) of
            (Inl e, s) \<Rightarrow> (1, [], s, snd st)
          | (Inr ds, s) \<Rightarrow> (1, [], s, snd st)) st
      else if length args \<noteq> 1 then (1, [], st)
      else
        with_client env (\<lambda>c st.
          case cl_device c (hd args) (fst st) of
            (Inl e, s) \<Rightarrow> (1, [], s, snd st)
          | (Inr d, s) \<Rightarrow>
              (case exit_of (encode_color (shown_device env d (snd st)) (color_mode env)) of
                 (rc, out) \<Rightarrow> (rc, out, s, snd st))) st)"

section \<open>setconf, addconf and syncconf\<close>

definition conf_change :: "'s cmd_env \<Rightarrow> bool \<Rightarrow> string \<Rightarrow> config \<Rightarrow> 's \<times> fs \<Rightarrow> 's ran" where
  "conf_change env sync_peers iface cfg st =
     with_client env (\<lambda>c st.
       let change = (if sync_peers then conf_sync else conf_apply)
       in case change (ce_os env) c iface cfg (metadata_path env (snd st)) st of
            (Inl e, st') \<Rightarrow> (1, [], st')
          | (Inr _, st') \<Rightarrow> (0, [], st')) st"

text \<open>The three booleans and the command of \<open>applyConfig\<close>; None is a run that never returns.\<close>

definition apply_conf_cmd ::
  "'s cmd_env \<Rightarrow> string list \<Rightarrow> bool \<Rightarrow> bool \<Rightarrow> bool \<Rightarrow> 's \<times> fs \<Rightarrow> 's ran option" where
  "apply_conf_cmd env args append_mode replace_peers sync_peers st =
     (if is_help args then Some (0, [], st)
      else if length args \<noteq> 2 then Some (1, [], st)
      else case os_open (ce_os env) (args ! 1) (snd st) of
        Inl e \<Rightarrow> Some (1, [], st)
      | Inr file \<Rightarrow>
          (case parse (ce_endpoints env) file append_mode of
             None \<Rightarrow> None
           | Some (Inl e) \<Rightarrow> Some (1, [], st)
           | Some (Inr cfg0) \<Rightarrow>
               Some (conf_change env sync_peers (hd args) (cfg0\<lparr>c_replace_peers := replace_peers\<rparr>) st)))"

definition syncconf :: "'s cmd_env \<Rightarrow> string list \<Rightarrow> 's \<times> fs \<Rightarrow> 's ran option" where
  "syncconf env args st = apply_conf_cmd env args False False True st"

definition setconf_cmd :: "'s cmd_env \<Rightarrow> string list \<Rightarrow> 's \<times> fs \<Rightarrow> 's ran option" where
  "setconf_cmd env args st = apply_conf_cmd env args False True False st"

definition addconf :: "'s cmd_env \<Rightarrow> string list \<Rightarrow> 's \<times> fs \<Rightarrow> 's ran option" where
  "addconf env args st = apply_conf_cmd env args True False False st"

section \<open>show\<close>

definition show_fields :: "string list" where
  "show_fields = [''public-key'', ''private-key'', ''listen-port'', ''fwmark'', ''peers'', ''preshared-keys'',
     ''endpoints'', ''allowed-ips'', ''latest-handshakes'', ''transfer'', ''persistent-keepalive'', ''dump'']"

definition valid_show_field :: "string \<Rightarrow> bool" where
  "valid_show_field field \<longleftrightarrow> field \<in> set show_fields"

definition show_keys :: "'s cmd_env \<Rightarrow> bool" where
  "show_keys env \<longleftrightarrow> os_getenv (ce_os env) ''WG_HIDE_KEYS'' = ''never''"

text \<open>The loop over all interfaces, \<open>i\<close> of which have been printed.\<close>

fun show_all :: "'s cmd_env \<Rightarrow> string option \<Rightarrow> fs \<Rightarrow> nat \<Rightarrow> device list \<Rightarrow> nat \<times> string" where
  "show_all env field files i [] = (0, [])"
| "show_all env field files i (d # ds) =
     (case field of
        Some f \<Rightarrow>
          (case show_field d f True of
             (t, Some e) \<Rightarrow> (1, t)
           | (t, None) \<Rightarrow> (case show_all env field files (i + 1) ds of (rc, out) \<Rightarrow> (rc, t @ out)))
      | None \<Rightarrow>
          (let t = (if 0 < i then nl else []) @ pretty (shown_device env d files) (ce_now env i) (show_keys env) (color_mode env)
           in case show_all env field files (i + 1) ds of (rc, out) \<Rightarrow> (rc, t @ out)))"

definition show_one :: "'s cmd_env \<Rightarrow> string option \<Rightarrow> fs \<Rightarrow> device \<Rightarrow> nat \<times> string" where
  "show_one env field files d =
     (case field of
        Some f \<Rightarrow> exit_of (show_field d f False)
      | None \<Rightarrow> (0, pretty (shown_device env d files) (ce_now env 0) (show_keys env) (color_mode env)))"

definition show_cmd :: "'s cmd_env \<Rightarrow> string list \<Rightarrow> 's \<times> fs \<Rightarrow> 's ran" where
  "show_cmd env args st =
     (if is_help args then (0, [], st)
      else if 2 < length args \<or> length args = 2 \<and> hd args = ''interfaces'' then (1, [], st)
      else if length args = 2 \<and> \<not> valid_show_field (args ! 1) then (1, [], st)
      else with_client env (\<lambda>c st.
        let field = (if length args = 2 then Some (args ! 1) else None)
        in if args \<noteq> [] \<and> hd args = ''interfaces'' then
             (case cl_devices c (fst st) of
                (Inl e, s) \<Rightarrow> (1, [], s, snd st)
              | (Inr ds, s) \<Rightarrow> (0, if ds = [] then [] else join '' '' (map d_name ds) @ nl, s, snd st))
           else if args = [] \<or> hd args = ''all'' then
             (case cl_devices c (fst st) of
                (Inl e, s) \<Rightarrow> (1, [], s, snd st)
              | (Inr ds, s) \<Rightarrow> (case show_all env field (snd st) 0 ds of (rc, out) \<Rightarrow> (rc, out, s, snd st)))
           else
             (case cl_device c (hd args) (fst st) of
                (Inl e, s) \<Rightarrow> (1, [], s, snd st)
              | (Inr d, s) \<Rightarrow> (case show_one env field (snd st) d of (rc, out) \<Rightarrow> (rc, out, s, snd st)))) st)"

section \<open>list\<close>

text \<open>\<open>%-12s\<close>: spaces up to a width, which is counted in characters.\<close>

definition pad_right :: "nat \<Rightarrow> string \<Rightarrow> string" where
  "pad_right w s = s @ replicate (w - length (runes s)) (CHR 0x20)"

definition list_config_path :: "'s cmd_env \<Rightarrow> fs \<Rightarrow> string \<Rightarrow> string" where
  "list_config_path env files iface = path_join [metadata_path env files, iface @ ''.conf'']"

definition list_last_octet :: "peer \<Rightarrow> nat" where
  "list_last_octet p =
     (case p_allowed_ips p of
        [] \<Rightarrow> 256
      | n # _ \<Rightarrow> (case to4 (net_ip n) of Some v4 \<Rightarrow> unat (v4 ! 3) | None \<Rightarrow> 256))"

definition sorted_peers :: "peer list \<Rightarrow> peer list" where
  "sorted_peers ps = slice_stable (\<lambda>p q. list_last_octet p < list_last_octet q) ps"

definition list_peer_key :: "key \<Rightarrow> string" where
  "list_peer_key k =
     (let s = key_str k in if 12 < length s then take 5 s @ ''***'' @ drop (length s - 4) s else s)"

definition list_allowed_ip :: "peer \<Rightarrow> string" where
  "list_allowed_ip p = (case p_allowed_ips p of [] \<Rightarrow> ''(none)'' | n # _ \<Rightarrow> ip_net_str n)"

definition list_endpoint :: "peer \<Rightarrow> string" where
  "list_endpoint p = (case p_endpoint p of None \<Rightarrow> ''(none)'' | Some a \<Rightarrow> udp_addr_str a)"

definition list_row :: "string \<Rightarrow> string \<Rightarrow> string \<Rightarrow> string" where
  "list_row a b c = ''  '' @ pad_right 12 a @ '' '' @ pad_right 18 b @ '' '' @ c @ nl"

definition pretty_list :: "'s cmd_env \<Rightarrow> fs \<Rightarrow> device \<Rightarrow> string" where
  "pretty_list env files d =
     ''interface: '' @ d_name d @ nl
     @ ''  config file: '' @ list_config_path env files (d_name d) @ nl
     @ (if d_has_public_key d then ''  public key: '' @ key_str (d_public_key d) @ nl else [])
     @ ''  private key: (hidden)'' @ nl
     @ (if d_listen_port d \<noteq> 0 then ''  listening port: '' @ itoa (d_listen_port d) @ nl else [])
     @ nl @ ''peer: '' @ itoa (int (length (d_peers d))) @ nl
     @ (if 0 < length (d_peers d) then
          list_row ''public key'' ''allowed ips'' ''endpoint''
          @ concat (map (\<lambda>p. list_row (list_peer_key (p_public_key p)) (list_allowed_ip p) (list_endpoint p))
              (sorted_peers (d_peers d)))
        else [])"

definition list_cmd :: "'s cmd_env \<Rightarrow> string list \<Rightarrow> 's \<times> fs \<Rightarrow> 's ran" where
  "list_cmd env args st =
     (if is_help args then (0, [], st)
      else if 1 < length args then (1, [], st)
      else with_client env (\<lambda>c st.
        if args = [] then
          (case cl_devices c (fst st) of
             (Inl e, s) \<Rightarrow> (1, [], s, snd st)
           | (Inr ds, s) \<Rightarrow> (0, join nl (map (pretty_list env (snd st)) ds), s, snd st))
        else
          (case cl_device c (hd args) (fst st) of
             (Inl e, s) \<Rightarrow> (1, [], s, snd st)
           | (Inr d, s) \<Rightarrow> (0, pretty_list env (snd st) d, s, snd st))) st)"

section \<open>The kernel of a device\<close>

text \<open>The kernel's state for a device that \<open>wg showconf\<close> has printed.\<close>

definition peer_state :: "peer \<Rightarrow> kernel_peer" where
  "peer_state p = \<lparr>kp_preshared_key = (if p_has_preshared_key p then p_preshared_key p else zero_key),
     kp_endpoint = (if p_has_endpoint p then map_option addr16 (p_endpoint p) else None),
     kp_keepalive = tdiv (p_keepalive p) second * second\<rparr>"

definition peer_nets :: "peer \<Rightarrow> (ip_net \<times> key) list" where
  "peer_nets p = map (\<lambda>n. (net16 n, p_public_key p)) (p_allowed_ips p)"

definition device_state :: "device \<Rightarrow> kernel" where
  "device_state d = \<lparr>k_private_key = (if d_has_private_key d then d_private_key d else zero_key),
     k_listen_port = d_listen_port d, k_firewall_mark = d_firewall_mark d,
     k_peers = map_of (map (\<lambda>p. (p_public_key p, peer_state p)) (d_peers d)),
     k_allowed = map_of (rev (concat (map peer_nets (d_peers d))))\<rparr>"

lemma fold_apply_ips: "fold (apply_ip k) (map (\<lambda>n. (f n, False)) ns) m = m ++ map_of (rev (map (\<lambda>n. (f n, k)) ns))"
  by (induction ns arbitrary: m) (simp_all add: map_add_assoc [symmetric])

lemma drop_owner_none: "k \<notin> ran m \<Longrightarrow> drop_owner k m = m"
  by (auto simp: drop_owner_def ran_def fun_eq_iff)

lemma update_showconf: "update_kernel_peer ((showconf_peer p)\<lparr>pc_name := x\<rparr>) new_kernel_peer = peer_state p"
  by (cases "p_endpoint p")
     (simp_all add: update_kernel_peer_def showconf_peer_def zero_peer_config_def set_opt_def new_kernel_peer_def
        peer_state_def tdiv_def)

lemma apply_showconf_peer:
  assumes "k_peers s (p_public_key p) = None" and "p_public_key p \<notin> ran (k_allowed s)"
  shows "apply_peer ((showconf_peer p)\<lparr>pc_name := x\<rparr>) s =
    s\<lparr>k_peers := (k_peers s)(p_public_key p \<mapsto> peer_state p), k_allowed := k_allowed s ++ map_of (rev (peer_nets p))\<rparr>"
proof -
  have "entries ((showconf_peer p)\<lparr>pc_name := x\<rparr>) = map (\<lambda>n. (net16 n, False)) (p_allowed_ips p)"
    by (simp add: entries_def showconf_peer_def zero_peer_config_def comp_def)
  moreover have "pc_public_key (showconf_peer p) = p_public_key p" "\<not> pc_remove (showconf_peer p)"
    "\<not> pc_update_only (showconf_peer p)" "pc_replace_allowed_ips (showconf_peer p)"
    by (simp_all add: showconf_peer_def zero_peer_config_def)
  ultimately show ?thesis
    using assms by (simp add: apply_peer_def Let_def update_showconf drop_owner_none fold_apply_ips peer_nets_def)
qed

lemma ran_nets: "k \<in> ran (m ++ map_of (rev (peer_nets p))) \<Longrightarrow> k \<in> ran m \<or> k = p_public_key p"
  by (fastforce simp: ran_def peer_nets_def map_add_Some_iff dest!: map_of_SomeD)

lemma kernel_overwrite:
  "(s\<lparr>k_peers := a, k_allowed := b\<rparr>)\<lparr>k_peers := m, k_allowed := n\<rparr> = s\<lparr>k_peers := m, k_allowed := n\<rparr>"
  by simp

lemma fold_showconf_peers:
  assumes "distinct (map p_public_key ps)" and "set (map p_public_key ps) \<inter> dom (k_peers s) = {}"
    and "set (map p_public_key ps) \<inter> ran (k_allowed s) = {}"
  shows "fold apply_peer (map (\<lambda>p. (showconf_peer p)\<lparr>pc_name := x\<rparr>) ps) s =
    s\<lparr>k_peers := k_peers s ++ map_of (map (\<lambda>p. (p_public_key p, peer_state p)) ps),
      k_allowed := k_allowed s ++ map_of (rev (concat (map peer_nets ps)))\<rparr>"
  using assms
proof (induction ps arbitrary: s)
  case (Cons p ps)
  let ?s = "s\<lparr>k_peers := (k_peers s)(p_public_key p \<mapsto> peer_state p), k_allowed := k_allowed s ++ map_of (rev (peer_nets p))\<rparr>"
  have new: "p_public_key p \<notin> set (map p_public_key ps)" using Cons.prems(1) by simp
  have step: "apply_peer ((showconf_peer p)\<lparr>pc_name := x\<rparr>) s = ?s"
    using Cons.prems by (intro apply_showconf_peer) auto
  have "fold apply_peer (map (\<lambda>p. (showconf_peer p)\<lparr>pc_name := x\<rparr>) ps) ?s =
    ?s\<lparr>k_peers := k_peers ?s ++ map_of (map (\<lambda>p. (p_public_key p, peer_state p)) ps),
      k_allowed := k_allowed ?s ++ map_of (rev (concat (map peer_nets ps)))\<rparr>"
  proof (rule Cons.IH)
    show "set (map p_public_key ps) \<inter> ran (k_allowed ?s) = {}"
    proof (rule ccontr)
      assume "set (map p_public_key ps) \<inter> ran (k_allowed ?s) \<noteq> {}"
      then obtain k where k: "k \<in> set (map p_public_key ps)" "k \<in> ran (k_allowed s ++ map_of (rev (peer_nets p)))" by auto
      have "k \<in> set (map p_public_key (p # ps))" using k(1) by simp
      then have "k \<notin> ran (k_allowed s)" using Cons.prems(3) by blast
      moreover have "k \<noteq> p_public_key p" using k(1) new by blast
      ultimately show False using ran_nets [OF k(2)] by simp
    qed
    show "set (map p_public_key ps) \<inter> dom (k_peers ?s) = {}" using Cons.prems(2) new by auto
    show "distinct (map p_public_key ps)" using Cons.prems(1) by simp
  qed
  also have "k_peers ?s ++ map_of (map (\<lambda>p. (p_public_key p, peer_state p)) ps)
      = k_peers s ++ map_of (map (\<lambda>p. (p_public_key p, peer_state p)) (p # ps))"
  proof -
    have "map_of (map (\<lambda>p. (p_public_key p, peer_state p)) ps) (p_public_key p) = None"
      using new by (simp add: map_of_eq_None_iff image_image)
    then show ?thesis by (auto simp: fun_eq_iff map_add_def split: option.split)
  qed
  also have "k_allowed ?s ++ map_of (rev (concat (map peer_nets ps))) = k_allowed s ++ map_of (rev (concat (map peer_nets (p # ps))))"
    by simp
  finally have "fold apply_peer (map (\<lambda>p. (showconf_peer p)\<lparr>pc_name := x\<rparr>) ps) ?s =
    s\<lparr>k_peers := k_peers s ++ map_of (map (\<lambda>p. (p_public_key p, peer_state p)) (p # ps)),
      k_allowed := k_allowed s ++ map_of (rev (concat (map peer_nets (p # ps))))\<rparr>" unfolding kernel_overwrite .
  then show ?case unfolding list.map fold_simps step .
qed simp

lemma apply_showconf:
  assumes "distinct (map p_public_key (d_peers d))"
  shows "apply_config (native_config (showconf d)) k = device_state d"
proof -
  let ?s = "\<lparr>k_private_key = (if d_has_private_key d then d_private_key d else zero_key),
     k_listen_port = d_listen_port d, k_firewall_mark = d_firewall_mark d, k_peers = \<lambda>_. None, k_allowed = \<lambda>_. None\<rparr>"
  have "apply_device (native_config (showconf d)) k = ?s"
    by (cases k) (simp add: apply_device_def native_config_def showconf_def set_opt_def)
  moreover have "c_peers (native_config (showconf d)) = map (\<lambda>p. (showconf_peer p)\<lparr>pc_name := None\<rparr>) (d_peers d)"
    by (simp add: native_config_def showconf_def)
  ultimately show ?thesis
    using fold_showconf_peers [OF assms, of ?s None] by (simp add: apply_config_def device_state_def)
qed

text \<open>Names play no part.\<close>

lemma named_state [simp]:
  "p_public_key (named n p) = p_public_key p" "peer_state (named n p) = peer_state p" "peer_nets (named n p) = peer_nets p"
  by (simp_all add: named_def peer_state_def peer_nets_def split: option.split)

lemma device_state_named: "device_state (with_names env d path files) = device_state d"
proof (cases "store_names env path (d_name d) files")
  case (Inr m)
  from attach_names_named [OF this] show ?thesis by (simp add: with_names_def device_state_def comp_def)
qed (simp add: with_names_def attach_names_def)

lemma with_names_keys: "map p_public_key (d_peers (with_names env d path files)) = map p_public_key (d_peers d)"
proof (cases "store_names env path (d_name d) files")
  case (Inr m)
  from attach_names_named [OF this] show ?thesis by (simp add: with_names_def comp_def)
qed (simp add: with_names_def attach_names_def)

section \<open>Properties\<close>

text \<open>
  C17. Saved and loaded: what \<open>wg showconf\<close> prints for an interface, stored in a file and given to
  \<open>wg setconf\<close>, sends the interface a configuration after which the kernel, whatever its state, is
  again that of the device: its keys, port and mark, exactly its peers with their preshared keys,
  endpoints and keepalives, and every allowed IP at its peer.
\<close>

theorem showconf_setconf_restores:
  assumes "ce_new_client env s = (Inr c, s1)" and "cl_device c iface s1 = (Inr d, s2)" and "\<not> color_mode env"
    and "\<not> is_help [iface]" and "resolves (ce_endpoints env)" and "distinct (map p_public_key (d_peers d))"
    and "wf_device (shown_device env d files)"
    and "list_all (\<lambda>l. length l < max_line) (raw_lines (fst (encode (shown_device env d files))))"
    and "showconf_cmd env [iface] (s, files) = (rc, out, st1)"
    and "os_open (ce_os env) path (snd st) = Inr \<lparr>rd_data = out, rd_err = None\<rparr>"
  shows "rc = 0 \<and> (\<exists>cfg. setconf_cmd env [iface, path] st = Some (conf_change env False iface cfg st)
    \<and> (\<forall>k. apply_config (native_config cfg) k = device_state d))"
proof -
  let ?d = "shown_device env d files"
  have parsed: "parse (ce_endpoints env) \<lparr>rd_data = fst (encode ?d), rd_err = None\<rparr> False = Some (Inr (WgConfig.showconf ?d))"
    using assms(5,7,8) by (intro parse_encode_lines) (simp_all add: list_all_iff)
  have "list_all valid_name (d_peers ?d)" using assms(7) by (auto simp: wf_device_def wf_peer_def list_all_iff)
  then have "snd (encode ?d) = None" by (simp add: encode_lines list_all_iff)
  then have "showconf_cmd env [iface] (s, files) = (0, fst (encode ?d), snd (cl_close c s2), files)"
    using assms(1-4) by (cases "encode ?d") (simp add: showconf_cmd_def with_client_def encode_color_def exit_of_def)
  then have out: "rc = 0" "out = fst (encode ?d)" using assms(9) by simp_all
  have "setconf_cmd env [iface, path] st = Some (conf_change env False iface (WgConfig.showconf ?d) st)"
    using assms(10) parsed out by (simp add: setconf_cmd_def apply_conf_cmd_def is_help_def WgConfig.showconf_def)
  moreover have "map p_public_key (d_peers ?d) = map p_public_key (d_peers d)"
    unfolding shown_device_def by (rule with_names_keys)
  then have "apply_config (native_config (WgConfig.showconf ?d)) k = device_state d" for k
    using apply_showconf [of ?d k] assms(6) device_state_named by (simp add: shown_device_def)
  ultimately show ?thesis using out(1) by blast
qed

text \<open>A system whose one interface is \<open>home_device\<close>.\<close>

definition fixed_client :: "device \<Rightarrow> unit client" where
  "fixed_client d = \<lparr>cl_close = (\<lambda>s. (Inr (), s)), cl_devices = (\<lambda>s. (Inr [d], s)),
     cl_device = (\<lambda>n s. (Inr d, s)), cl_configure = (\<lambda>n c s. (Inr (), s))\<rparr>"

definition home_device :: device where
  "home_device = sample_device\<lparr>d_name := ''wg0'', d_peers := [sample_peer]\<rparr>"

definition sample_cmd :: "unit cmd_env" where
  "sample_cmd = \<lparr>ce_os = no_faults, ce_endpoints = sample_env, ce_new_client = (\<lambda>s. (Inr (fixed_client home_device), s)),
     ce_tty = None, ce_now = (\<lambda>_. (unix_to_internal + 1700000000, 0))\<rparr>"

definition saved_text :: string where
  "saved_text = fst (snd (showconf_cmd sample_cmd [''wg0''] ((), Map.empty)))"

theorem showconf_setconf_restores_witness:
  "\<exists>cfg. setconf_cmd sample_cmd [''wg0'', ''wg0.conf''] ((), Map.empty(''wg0.conf'' \<mapsto> File saved_text))
      = Some (conf_change sample_cmd False ''wg0'' cfg ((), Map.empty(''wg0.conf'' \<mapsto> File saved_text)))
    \<and> (\<forall>k. apply_config (native_config cfg) k = device_state home_device)"
proof -
  obtain rc st1 where run: "showconf_cmd sample_cmd [''wg0''] ((), Map.empty) = (rc, saved_text, st1)"
    unfolding saved_text_def by (cases "showconf_cmd sample_cmd [''wg0''] ((), Map.empty)") auto
  have opened: "os_open (ce_os sample_cmd) ''wg0.conf'' (snd ((), Map.empty(''wg0.conf'' \<mapsto> File saved_text))) = Inr \<lparr>rd_data = saved_text, rd_err = None\<rparr>"
    by (simp add: sample_cmd_def no_faults_def os_open_def)
  have "\<not> color_mode sample_cmd" "\<not> is_help [''wg0'']" "resolves (ce_endpoints sample_cmd)"
    "distinct (map p_public_key (d_peers home_device))" "wf_device (shown_device sample_cmd home_device Map.empty)"
    "list_all (\<lambda>l. length l < max_line) (raw_lines (fst (encode (shown_device sample_cmd home_device Map.empty))))"
    by code_simp+
  moreover have "ce_new_client sample_cmd () = (Inr (fixed_client home_device), ())"
    "cl_device (fixed_client home_device) ''wg0'' () = (Inr home_device, ())" by (simp_all add: sample_cmd_def fixed_client_def)
  ultimately show ?thesis using showconf_setconf_restores [OF _ _ _ _ _ _ _ _ run opened] by blast
qed

text \<open>
  C18. The REST API does what the commands do: writing a configuration file to an interface through
  \<open>/conf\<close> in one of the three modes gives the same outcome and the same state as the command of
  that mode on a file of the same contents, with success exactly where the command exits with 0.
\<close>

theorem rest_conf_is_command:
  assumes "conf_mode (request_mode r) = Inr (a, replace, sync)" and "rq_method r = ''PUT'' \<or> rq_method r = ''POST''"
    and "os_open (ce_os env) path (snd st) = Inr (rq_body r)" and "length (rd_data (rq_body r)) \<le> max_body"
    and "\<And>s. ce_new_client env s = (Inr (sv_client sv), s)" and "\<And>s. snd (cl_close (sv_client sv) s) = s"
    and "ae_os aenv = ce_os env" and "ae_endpoints aenv = ce_endpoints env" and "sv_metadata sv = metadata_path env (snd st)"
  shows "map_option (\<lambda>(resp, st'). (rs_status resp = 200, st')) (handle_device_conf aenv sv r iface st)
    = map_option (\<lambda>(rc, out, st'). (rc = 0, st')) (apply_conf_cmd env [iface, path] a replace sync st)"
proof -
  let ?body = "max_bytes_reader max_body (rq_body r)"
  obtain s0 f0 where st: "st = (s0, f0)" by (cases st)
  have body: "?body = rq_body r" using assms(4) by (simp add: max_bytes_reader_def)
  have status: "device_error_status e \<noteq> 200" for e by (simp add: device_error_status_def)
  show ?thesis
  proof (cases "parse (ce_endpoints env) (rq_body r) a")
    case None
    then show ?thesis using assms(1-3,8) body
      by (auto simp: handle_device_conf_def handle_conf_write_def apply_conf_cmd_def is_help_def)
  next
    case (Some res)
    show ?thesis
    proof (cases res)
      case (Inl e)
      then show ?thesis using Some assms(1-3,8) body
        by (auto simp: handle_device_conf_def handle_conf_write_def apply_conf_cmd_def is_help_def write_error_def st)
    next
      case (Inr cfg)
      obtain res' st' where go: "(if sync then conf_sync else conf_apply) (ce_os env) (sv_client sv) iface
          (cfg\<lparr>c_replace_peers := replace\<rparr>) (sv_metadata sv) st = (res', st')" by (cases "(if sync then conf_sync else conf_apply) (ce_os env) (sv_client sv) iface
          (cfg\<lparr>c_replace_peers := replace\<rparr>) (sv_metadata sv) st")
      have api: "handle_device_conf aenv sv r iface st = Some (changed_response res', st')"
        using Some Inr go assms(1,2,7,8) body by (auto simp: handle_device_conf_def handle_conf_write_def Let_def)
      have "apply_conf_cmd env [iface, path] a replace sync st = Some (if is_ok res' then 0 else 1, [], st')"
        using Some Inr go assms(3,5,6,9)
        by (cases res') (simp_all add: apply_conf_cmd_def is_help_def conf_change_def with_client_def Let_def is_ok_def split_beta)
      then show ?thesis
        using api status by (cases res') (simp_all add: changed_response_def status_ok_def write_json_def write_error_def is_ok_def)
    qed
  qed
qed

text \<open>A server and an upload for the same system.\<close>

definition sample_rest :: "unit server" where
  "sample_rest = new_rest_server (fixed_client home_device) ''/etc/wireguard'' []"

definition sample_upload :: request where
  "sample_upload = sample_request\<lparr>rq_method := ''PUT'', rq_mode := ''sync'', rq_body := \<lparr>rd_data = saved_text, rd_err = None\<rparr>\<rparr>"

theorem rest_conf_is_command_witness:
  "map_option (\<lambda>(resp, st'). (rs_status resp = 200, st'))
     (handle_device_conf (sample_api_env\<lparr>ae_endpoints := sample_env\<rparr>) sample_rest sample_upload ''wg0'' ((), Map.empty(''wg0.conf'' \<mapsto> File saved_text)))
   = map_option (\<lambda>(rc, out, st'). (rc = 0, st'))
       (apply_conf_cmd sample_cmd [''wg0'', ''wg0.conf''] False False True ((), Map.empty(''wg0.conf'' \<mapsto> File saved_text)))"
proof (rule rest_conf_is_command)
  show "conf_mode (request_mode sample_upload) = Inr (False, False, True)" "length (rd_data (rq_body sample_upload)) \<le> max_body"
    by code_simp+
  show "sv_metadata sample_rest = metadata_path sample_cmd (snd ((), Map.empty(''wg0.conf'' \<mapsto> File saved_text)))"
    by code_simp
  show "os_open (ce_os sample_cmd) ''wg0.conf'' (snd ((), Map.empty(''wg0.conf'' \<mapsto> File saved_text))) = Inr (rq_body sample_upload)"
    by (simp add: sample_cmd_def no_faults_def os_open_def sample_upload_def)
  show "rq_method sample_upload = ''PUT'' \<or> rq_method sample_upload = ''POST''" by (simp add: sample_upload_def)
  show "ae_os (sample_api_env\<lparr>ae_endpoints := sample_env\<rparr>) = ce_os sample_cmd" by (simp add: sample_api_env_def sample_cmd_def)
  show "ae_endpoints (sample_api_env\<lparr>ae_endpoints := sample_env\<rparr>) = ce_endpoints sample_cmd" by (simp add: sample_cmd_def)
qed (simp_all add: sample_cmd_def sample_rest_def new_rest_server_def fixed_client_def)

lemma pretty_no_secrets: "pretty (no_secrets d) now False color = pretty d now False color"
  by (simp add: no_secrets_def pretty_secrets)

lemma pretty_shown_secrets:
  "pretty (shown_device env (with_secrets k psk d) files) now False color = pretty (shown_device env d files) now False color"
  unfolding shown_device_def using with_names_no_secrets pretty_no_secrets by metis

lemma show_all_secrets:
  "\<not> show_keys env \<Longrightarrow> show_all env None files i (map (with_secrets k psk) ds) = show_all env None files i ds"
  by (induction ds arbitrary: i) (simp_all add: pretty_shown_secrets)

text \<open>The same system with other secrets.\<close>

definition secret_cmd :: "key \<Rightarrow> (peer \<Rightarrow> key) \<Rightarrow> 's cmd_env \<Rightarrow> 's cmd_env" where
  "secret_cmd k psk env = env\<lparr>ce_new_client := (\<lambda>s.
     case ce_new_client env s of (Inl e, s') \<Rightarrow> (Inl e, s') | (Inr c, s') \<Rightarrow> (Inr (secret_client k psk c), s'))\<rparr>"

lemma secret_cmd_simps [simp]:
  "shown_device (secret_cmd k psk env) = shown_device env" "show_keys (secret_cmd k psk env) = show_keys env"
  "color_mode (secret_cmd k psk env) = color_mode env" "ce_now (secret_cmd k psk env) = ce_now env"
  "pretty_list (secret_cmd k psk env) = pretty_list env"
  by (simp_all add: fun_eq_iff shown_device_def metadata_path_def secret_cmd_def show_keys_def color_mode_def pretty_list_def
      list_config_path_def)

lemma show_all_env [simp]: "show_all (secret_cmd k psk env) f files i ds = show_all env f files i ds"
  by (cases f; induction ds arbitrary: i; simp)

lemma secret_client_devices [simp]:
  "cl_devices (secret_client k psk c) s = (case cl_devices c s of (Inl e, s') \<Rightarrow> (Inl e, s') | (Inr ds, s') \<Rightarrow> (Inr (map (with_secrets k psk) ds), s'))"
  "cl_device (secret_client k psk c) n s = (case cl_device c n s of (Inl e, s') \<Rightarrow> (Inl e, s') | (Inr d, s') \<Rightarrow> (Inr (with_secrets k psk d), s'))"
  "cl_close (secret_client k psk c) = cl_close c"
  by (simp_all add: secret_client_def)

lemma with_client_secrets:
  assumes "\<And>c st. body (secret_client k psk c) st = body' c st"
  shows "with_client (secret_cmd k psk env) body st = with_client env body' st"
proof (cases "ce_new_client env (fst st)")
  case (Pair r s)
  then show ?thesis by (cases r) (simp_all add: with_client_def secret_cmd_def assms)
qed

lemma with_secrets_name [simp]: "d_name (with_secrets k psk d) = d_name d"
  by (simp add: with_secrets_def)

lemma pretty_list_secrets [simp]: "pretty_list env files (with_secrets k psk d) = pretty_list env files d"
proof -
  have sorted: "sorted_peers (map (\<lambda>p. p\<lparr>p_preshared_key := psk p\<rparr>) ps) = map (\<lambda>p. p\<lparr>p_preshared_key := psk p\<rparr>) (sorted_peers ps)" for ps
    unfolding sorted_peers_def by (rule slice_stable_map) (simp add: list_last_octet_def)
  show ?thesis by (simp add: pretty_list_def with_secrets_def sorted comp_def list_allowed_ip_def list_endpoint_def)
qed

text \<open>
  C39. \<open>wg show\<close> without a field, for one interface or for all, and \<open>wg --list\<close> never show a secret:
  unless \<open>WG_HIDE_KEYS\<close> is "never", what they print, and their exit code, is the same whatever the
  private and preshared keys are.
\<close>

theorem show_hides_keys:
  assumes "length args \<le> 1" and "\<not> show_keys env"
  shows "show_cmd (secret_cmd k psk env) args st = show_cmd env args st
    \<and> list_cmd (secret_cmd k psk env) args st = list_cmd env args st"
proof
  have "length args \<noteq> 2" "\<not> 2 < length args" using assms(1) by simp_all
  then show "show_cmd (secret_cmd k psk env) args st = show_cmd env args st" using assms(2) unfolding show_cmd_def
    by (auto intro!: with_client_secrets simp: show_one_def show_all_secrets pretty_shown_secrets comp_def split: sum.split prod.split)
  show "list_cmd (secret_cmd k psk env) args st = list_cmd env args st" unfolding list_cmd_def
    by (auto intro!: with_client_secrets simp: comp_def split: sum.split prod.split)
qed

theorem show_hides_keys_witness:
  "show_cmd (secret_cmd (replicate 32 1) (\<lambda>_. replicate 32 2) sample_cmd) [''wg0''] ((), Map.empty) = show_cmd sample_cmd [''wg0''] ((), Map.empty)"
proof -
  have "\<not> show_keys sample_cmd" by code_simp
  then show ?thesis using show_hides_keys [of "[''wg0'']" sample_cmd] by simp
qed

text \<open>The rows of a list are the peers, in the order of their last octets; equal ones stay in order.\<close>

lemma sorted_peers_order:
  "sorted (map list_last_octet (sorted_peers ps))"
  "filter (\<lambda>p. list_last_octet p = n) (sorted_peers ps) = filter (\<lambda>p. list_last_octet p = n) ps"
  by (simp_all add: sorted_peers_def slice_stable_key sort_key_stable)

end
