(* ===== verification/WgGitee.thy ===== *)
theory WgGitee
  imports WgCmd
begin

text \<open>
  cmd/wg/syncgitee_linux.go: the command that keeps the peers of an interface in a file of a
  Gitee snippet. HTTP requests, the addresses of the interface and the name of the host are
  those of the environment; the file is text in the form of \<open>encode_nodes\<close>.
\<close>

section \<open>Nodes\<close>

record gitee_node =
  gn_name :: string
  gn_public_key :: key
  gn_private_key :: "key option"
  gn_preshared_key :: key
  gn_allowed_ips :: "ip_net list"
  gn_endpoint :: "udp_addr option"
  gn_keepalive :: int

definition zero_node :: gitee_node where
  "zero_node = \<lparr>gn_name = [], gn_public_key = zero_key, gn_private_key = None, gn_preshared_key = zero_key,
     gn_allowed_ips = [], gn_endpoint = None, gn_keepalive = 0\<rparr>"

text \<open>\<open>ip.IsLoopback()\<close>\<close>

definition is_loopback :: "ip \<Rightarrow> bool" where
  "is_loopback i = (case to4 i of Some v4 \<Rightarrow> v4 ! 0 = 127 | None \<Rightarrow> i = replicate 15 0 @ [1])"

text \<open>The addresses of an interface: those of the system whose text is a network.\<close>

definition interface_addresses :: "string list res \<Rightarrow> ip_net list res" where
  "interface_addresses addrs =
     (case addrs of
        Inl e \<Rightarrow> Inl (ErrWrap ''interface'' e)
      | Inr ts \<Rightarrow>
          Inr (concat (map (\<lambda>t. case parse_cidr t of
             Inl e \<Rightarrow> []
           | Inr (i, n) \<Rightarrow> if is_loopback i then [] else [n\<lparr>net_ip := i\<rparr>]) ts)))"

definition preferred_address :: "ip_net list \<Rightarrow> ip option" where
  "preferred_address addrs =
     (case find (\<lambda>a. to4 (net_ip a) \<noteq> None \<and> \<not> is_loopback (net_ip a)) addrs of
        Some a \<Rightarrow> Some (net_ip a)
      | None \<Rightarrow>
          (case find (\<lambda>a. to16 (net_ip a) \<noteq> None \<and> \<not> is_loopback (net_ip a)) addrs of
             Some a \<Rightarrow> Some (net_ip a) | None \<Rightarrow> None))"

definition host_routes :: "ip_net list \<Rightarrow> ip_net list" where
  "host_routes addrs =
     map (\<lambda>a. if to4 (net_ip a) \<noteq> None then \<lparr>net_ip = net_ip a, net_mask = mask_bytes 4 32\<rparr>
              else \<lparr>net_ip = net_ip a, net_mask = mask_bytes 16 128\<rparr>) addrs"

definition gitee_peer_name :: "peer \<Rightarrow> string" where
  "gitee_peer_name p =
     (let n1 = (case p_name p of None \<Rightarrow> [] | Some n \<Rightarrow> n);
          n2 = (if n1 = [] \<and> p_allowed_ips p \<noteq> [] then ip_net_str (hd (p_allowed_ips p)) else n1)
      in if n2 = [] then take 8 (key_str (p_public_key p)) else n2)"

definition gitee_peer_node :: "peer \<Rightarrow> gitee_node" where
  "gitee_peer_node p = \<lparr>gn_name = gitee_peer_name p, gn_public_key = p_public_key p, gn_private_key = None,
     gn_preshared_key = p_preshared_key p, gn_allowed_ips = p_allowed_ips p, gn_endpoint = p_endpoint p,
     gn_keepalive = p_keepalive p\<rparr>"

definition gitee_nodes ::
  "(byte list \<Rightarrow> byte list) \<Rightarrow> device \<Rightarrow> ip_net list \<Rightarrow> string \<Rightarrow> ip option \<Rightarrow> gitee_node list res" where
  "gitee_nodes base_mult d addrs hostname public_ip =
     (if \<not> d_has_private_key d then Inl (ErrText ''interface without a private key'')
      else (let ep_ip = (case public_ip of None \<Rightarrow> preferred_address addrs | Some i \<Rightarrow> Some i);
                self = \<lparr>gn_name = hostname, gn_public_key = key_public base_mult (d_private_key d),
                  gn_private_key = Some (d_private_key d), gn_preshared_key = zero_key,
                  gn_allowed_ips = host_routes addrs,
                  gn_endpoint = (case ep_ip of None \<Rightarrow> None
                    | Some i \<Rightarrow> if d_listen_port d \<noteq> 0 then Some \<lparr>ua_ip = i, ua_port = d_listen_port d, ua_zone = []\<rparr> else None),
                  gn_keepalive = 25 * second\<rparr>
            in Inr (self # map gitee_peer_node (d_peers d))))"

section \<open>The text of the nodes\<close>

definition node_lines :: "gitee_node \<Rightarrow> string list" where
  "node_lines n =
     [''[Peer]'', ''Name = '' @ gn_name n, ''PublicKey = '' @ key_str (gn_public_key n)]
     @ (case gn_private_key n of None \<Rightarrow> [] | Some k \<Rightarrow> [''PrivateKey = '' @ key_str k])
     @ (if gn_allowed_ips n \<noteq> [] then [''AllowedIPs = '' @ join '', '' (map ip_net_str (gn_allowed_ips n))] else [])
     @ (case gn_endpoint n of None \<Rightarrow> [] | Some a \<Rightarrow> [''Endpoint = '' @ udp_addr_str a])
     @ (if gn_keepalive n \<noteq> 0 then [''PersistentKeepalive = '' @ itoa (tdiv (gn_keepalive n) second)] else [])"

definition encode_nodes :: "gitee_node list \<Rightarrow> string" where
  "encode_nodes ns = join nl (map (\<lambda>n. unlines (node_lines n)) ns)"

text \<open>The variables of \<open>parseSyncGiteeNodes\<close>.\<close>

record gitee_state =
  gs_nodes :: "gitee_node list"
  gs_node :: "gitee_node option"
  gs_has_public_key :: bool

definition gitee_init :: gitee_state where
  "gitee_init = \<lparr>gs_nodes = [], gs_node = None, gs_has_public_key = False\<rparr>"

definition gitee_finish :: "(byte list \<Rightarrow> byte list) \<Rightarrow> gitee_state \<Rightarrow> gitee_state res" where
  "gitee_finish base_mult st =
     (case gs_node st of
        None \<Rightarrow> Inr st
      | Some n \<Rightarrow>
          if \<not> gs_has_public_key st then Inl (ErrText ''node without PublicKey'')
          else if (case gn_private_key n of None \<Rightarrow> False | Some k \<Rightarrow> key_public base_mult k \<noteq> gn_public_key n)
            then Inl (ErrText ''PrivateKey and PublicKey of the node do not match'')
          else Inr (st\<lparr>gs_nodes := gs_nodes st @ [n]\<rparr>))"

definition gitee_allowed_ip :: "string \<Rightarrow> ip_net res" where
  "gitee_allowed_ip item = bind_res (parse_cidr (trim_space item)) (\<lambda>(i, n). Inr (n\<lparr>net_ip := i\<rparr>))"

definition gitee_field :: "resolver \<Rightarrow> string \<Rightarrow> string \<Rightarrow> gitee_node \<Rightarrow> gitee_node res" where
  "gitee_field rs key v n =
     (if key = ''Name'' then Inr (n\<lparr>gn_name := v\<rparr>)
      else if key = ''PublicKey'' then map_err (ErrWrap key) (bind_res (parse_key v) (\<lambda>k. Inr (n\<lparr>gn_public_key := k\<rparr>)))
      else if key = ''PrivateKey'' then map_err (ErrWrap key) (bind_res (parse_key v) (\<lambda>k. Inr (n\<lparr>gn_private_key := Some k\<rparr>)))
      else if key = ''PresharedKey'' then map_err (ErrWrap key) (bind_res (parse_key v) (\<lambda>k. Inr (n\<lparr>gn_preshared_key := k\<rparr>)))
      else if key = ''AllowedIPs'' then
        map_err (ErrWrap key) (bind_res (map_res gitee_allowed_ip (split_on (CHR '','') v))
          (\<lambda>ips. Inr (n\<lparr>gn_allowed_ips := gn_allowed_ips n @ ips\<rparr>)))
      else if key = ''Endpoint'' then map_err (ErrWrap key) (bind_res (resolve_udp_addr rs v) (\<lambda>a. Inr (n\<lparr>gn_endpoint := Some a\<rparr>)))
      else if key = ''PersistentKeepalive'' then
        map_err (ErrWrap key) (bind_res (parse_uint 10 16 v) (\<lambda>s. Inr (n\<lparr>gn_keepalive := int s * second\<rparr>)))
      else Inl (ErrText ''unknown field''))"

definition gitee_line :: "resolver \<Rightarrow> (byte list \<Rightarrow> byte list) \<Rightarrow> nat \<Rightarrow> string \<Rightarrow> gitee_state \<Rightarrow> gitee_state res" where
  "gitee_line rs base_mult no raw st =
     (let line = trim_space raw
      in if line = [] \<or> prefix ''#'' line then Inr st
         else if line = ''[Peer]'' then
           bind_res (map_err (ErrLine no) (gitee_finish base_mult st))
             (\<lambda>st. Inr (st\<lparr>gs_node := Some zero_node, gs_has_public_key := False\<rparr>))
         else case gs_node st of
           None \<Rightarrow> Inl (ErrLine no (ErrText ''field outside a [Peer] section''))
         | Some n \<Rightarrow>
             (case cut_at (CHR ''='') line of
                None \<Rightarrow> Inl (ErrLine no (ErrText ''invalid contents''))
              | Some (k, v) \<Rightarrow>
                  bind_res (map_err (ErrLine no) (gitee_field rs (trim_space k) (trim_space v) n))
                    (\<lambda>n. Inr (st\<lparr>gs_node := Some n, gs_has_public_key := gs_has_public_key st \<or> trim_space k = ''PublicKey''\<rparr>))))"

fun gitee_lines :: "resolver \<Rightarrow> (byte list \<Rightarrow> byte list) \<Rightarrow> nat \<Rightarrow> string list \<Rightarrow> gitee_state \<Rightarrow> gitee_state res" where
  "gitee_lines rs base_mult no [] st = Inr st"
| "gitee_lines rs base_mult no (l # ls) st =
     bind_res (gitee_line rs base_mult no l st) (gitee_lines rs base_mult (Suc no) ls)"

text \<open>The scanner's limit is \<open>bufio.MaxScanTokenSize\<close>.\<close>

definition max_token :: nat where
  "max_token = 65536"

definition parse_nodes :: "resolver \<Rightarrow> (byte list \<Rightarrow> byte list) \<Rightarrow> string \<Rightarrow> gitee_node list res" where
  "parse_nodes rs base_mult content =
     (if trim_space content = [] then Inr []
      else case scan_lines max_token \<lparr>rd_data = content, rd_err = None\<rparr> of
        (ls, err) \<Rightarrow>
          bind_res (gitee_lines rs base_mult 1 ls gitee_init) (\<lambda>st.
            case err of
              Some e \<Rightarrow> Inl e
            | None \<Rightarrow> bind_res (gitee_finish base_mult st) (\<lambda>st. Inr (gs_nodes st))))"

section \<open>Merging\<close>

text \<open>
  \<open>indexes\<close> is where a key stands in the merged list; of a key that occurs twice, the last place.
\<close>

definition node_indexes :: "gitee_node list \<Rightarrow> key \<Rightarrow> nat option" where
  "node_indexes ns = fold (\<lambda>(i, n) m. m(gn_public_key n \<mapsto> i)) (enumerate 0 ns) Map.empty"

fun merge_step :: "gitee_node \<Rightarrow> gitee_node list \<times> (key \<Rightarrow> nat option) \<Rightarrow> gitee_node list \<times> (key \<Rightarrow> nat option)" where
  "merge_step n (merged, indexes) =
     (case indexes (gn_public_key n) of
        Some i \<Rightarrow> (merged[i := n], indexes)
      | None \<Rightarrow> (merged @ [n], indexes(gn_public_key n \<mapsto> length merged)))"

definition merge_nodes :: "gitee_node list \<Rightarrow> gitee_node list \<Rightarrow> gitee_node list" where
  "merge_nodes remote local = fst (fold merge_step local (remote, node_indexes remote))"

section \<open>Requests\<close>

text \<open>
  A request for the snippets: its method, the URL without the token, the token, which the query
  gets as \<open>access_token\<close>, and the document sent. \<open>ge_request\<close> makes the request, as
  \<open>http.NewRequest\<close> and the client do, and gives the status and the body of the response.
\<close>

record http_request =
  hq_method :: string
  hq_url :: string
  hq_token :: string
  hq_body :: "string option"

record 's gitee_env =
  ge_cmd :: "'s cmd_env"
  ge_token :: string
  ge_gist_id :: string
  ge_base_url :: string
  ge_request :: "http_request \<Rightarrow> 's \<Rightarrow> (nat \<times> reader) res \<times> 's"
  ge_get :: "string \<Rightarrow> (nat \<times> string) res"
  ge_hostname :: "string res"
  ge_addresses :: "string \<Rightarrow> string list res"
  ge_base_mult :: "byte list \<Rightarrow> byte list"

definition trim_right_slashes :: "string \<Rightarrow> string" where
  "trim_right_slashes s = rev (dropWhile (\<lambda>c. c = CHR ''/'') (rev s))"

text \<open>The body is decoded when a result is asked for; a response outside 200 to 299 is an error.\<close>

definition gitee_request ::
  "'s gitee_env \<Rightarrow> string \<Rightarrow> string \<Rightarrow> json option \<Rightarrow> (json \<Rightarrow> 'a res) option \<Rightarrow> 'a \<Rightarrow> 's \<Rightarrow> 'a res \<times> 's" where
  "gitee_request env meth gist_id doc decode result s =
     (let url = trim_right_slashes (ge_base_url env) @ ''/gists'' @ (if gist_id \<noteq> [] then ''/'' @ gist_id else []);
          rq = \<lparr>hq_method = meth, hq_url = url, hq_token = ge_token env, hq_body = map_option (\<lambda>v. json_text v @ nl) doc\<rparr>
      in case ge_request env rq s of
           (Inl e, s) \<Rightarrow> (Inl (ErrWrap ''Gitee'' e), s)
         | (Inr (status, body), s) \<Rightarrow>
             if status < 200 \<or> 300 \<le> status then (Inl (ErrText ''Gitee API status''), s)
             else (case decode of
                 None \<Rightarrow> (Inr result, s)
               | Some f \<Rightarrow> (map_err (ErrWrap ''Gitee response'') (bind_res (json_decode body) f), s)))"

text \<open>The structs of the responses. A file that occurs twice is decoded into a new struct.\<close>

definition dec_content_member :: "string \<times> json \<Rightarrow> string \<Rightarrow> string res" where
  "dec_content_member m c = (if equal_fold_ascii (fst m) ''content'' then dec_string (snd m) c else Inr c)"

definition dec_file :: "string \<times> json \<Rightarrow> (string \<times> string) list \<Rightarrow> (string \<times> string) list res" where
  "dec_file m files = bind_res (dec_struct dec_content_member (snd m) []) (\<lambda>c. Inr ((fst m, c) # files))"

fun dec_files :: "json \<Rightarrow> (string \<times> string) list \<Rightarrow> (string \<times> string) list res" where
  "dec_files (JObj ms) files = fold_res dec_file ms files"
| "dec_files JNull files = Inr []"
| "dec_files v files = Inl json_mismatch"

definition dec_gist_member :: "string \<times> json \<Rightarrow> (string \<times> string) list \<Rightarrow> (string \<times> string) list res" where
  "dec_gist_member m files = (if equal_fold_ascii (fst m) ''files'' then dec_files (snd m) files else Inr files)"

definition dec_id_member :: "string \<times> json \<Rightarrow> string \<Rightarrow> string res" where
  "dec_id_member m i = (if equal_fold_ascii (fst m) ''id'' then dec_string (snd m) i else Inr i)"

definition read_gist :: "'s gitee_env \<Rightarrow> string \<Rightarrow> 's \<Rightarrow> string res \<times> 's" where
  "read_gist env filename s =
     (case gitee_request env ''GET'' (ge_gist_id env) None (Some (\<lambda>v. dec_struct dec_gist_member v [])) [] s of
        (Inl e, s) \<Rightarrow> (Inl e, s)
      | (Inr files, s) \<Rightarrow> (Inr (case map_of files filename of None \<Rightarrow> [] | Some c \<Rightarrow> c), s))"

definition files_value :: "string \<Rightarrow> string \<Rightarrow> json" where
  "files_value filename content = JObj [(filename, JObj [(''content'', JStr content)])]"

definition update_gist :: "'s gitee_env \<Rightarrow> string \<Rightarrow> string \<Rightarrow> 's \<Rightarrow> unit res \<times> 's" where
  "update_gist env filename content s =
     gitee_request env ''PATCH'' (ge_gist_id env) (Some (JObj [(''files'', files_value filename content)])) None () s"

text \<open>"WireGuard", and "node configuration" in Chinese.\<close>

definition gist_description :: string where
  "gist_description = ''WireGuard '' @ map char_of [232, 138, 130, 231, 130, 185, 233, 133, 141, 231, 189, 174 :: nat]"

definition create_gist :: "'s gitee_env \<Rightarrow> string \<Rightarrow> string \<Rightarrow> 's \<Rightarrow> string res \<times> 's" where
  "create_gist env filename content s =
     gitee_request env ''POST'' [] (Some (JObj [(''description'', JStr gist_description),
        (''files'', files_value filename content), (''public'', JBool False)]))
       (Some (\<lambda>v. dec_struct dec_id_member v [])) [] s"

section \<open>The public address\<close>

definition public_ip_urls :: "string list" where
  "public_ip_urls = [''https://ip.cn'', ''https://cip.cc'', ''https://ipinfo.io/ip'', ''https://ifconfig.me/ip'',
     ''https://ipx.sh/ip'', ''https://api.ip.sb/ip'', ''https://ident.me'']"

text \<open>The punctuation around a field: the ASCII marks and the full-width ones.\<close>

definition wide_colon :: string where
  "wide_colon = map char_of [239, 188, 154 :: nat]"

definition field_cutset :: "string list" where
  "field_cutset = map (\<lambda>c. [c]) ('' :,;()[]{}<>'' @ [CHR 0x09, CHR 0x0D, CHR 0x0A])
     @ map (map char_of) [[239, 188, 154 :: nat], [239, 188, 140], [239, 188, 155], [239, 188, 136], [239, 188, 137]]"

text \<open>\<open>strings.Trim\<close> and \<open>strings.Fields\<close>\<close>

definition trim_cutset :: "string list \<Rightarrow> string \<Rightarrow> string" where
  "trim_cutset cutset s = rev (strip_any (map rev cutset) (rev (strip_any cutset s)))"

fun rune_text :: "rune \<Rightarrow> string" where
  "rune_text (Rune s) = s"
| "rune_text (BadByte c) = [c]"

fun fields_from :: "string \<Rightarrow> rune list \<Rightarrow> string list" where
  "fields_from cur [] = (if cur = [] then [] else [cur])"
| "fields_from cur (r # rs) =
     (if rune_text r \<in> set unicode_spaces then (if cur = [] then [] else [cur]) @ fields_from [] rs
      else fields_from (cur @ rune_text r) rs)"

definition string_fields :: "string \<Rightarrow> string list" where
  "string_fields s = fields_from [] (runes s)"

text \<open>What follows the last full-width colon.\<close>

fun after_last_wide_colon :: "string \<Rightarrow> string option" where
  "after_last_wide_colon [] = None"
| "after_last_wide_colon (c # s) =
     (case after_last_wide_colon s of
        Some t \<Rightarrow> Some t
      | None \<Rightarrow> if prefix wide_colon (c # s) then Some (drop (length wide_colon) (c # s)) else None)"

definition field_ip :: "string \<Rightarrow> ip option" where
  "field_ip field =
     (let f = trim_cutset field_cutset field
      in parse_ip (case after_last_wide_colon f of None \<Rightarrow> f | Some t \<Rightarrow> t))"

fun first_some :: "('a \<Rightarrow> 'b option) \<Rightarrow> 'a list \<Rightarrow> 'b option" where
  "first_some f [] = None"
| "first_some f (x # xs) = (case f x of Some y \<Rightarrow> Some y | None \<Rightarrow> first_some f xs)"

definition lookup_public_ip :: "(string \<Rightarrow> (nat \<times> string) res) \<Rightarrow> ip option" where
  "lookup_public_ip get =
     first_some (\<lambda>url.
       case get url of
         Inl e \<Rightarrow> None
       | Inr (status, content) \<Rightarrow>
           if status < 200 \<or> 300 \<le> status then None else first_some field_ip (string_fields content)) public_ip_urls"

section \<open>The command\<close>

text \<open>The two lines it prints, in Chinese: what was created, and what was synchronised.\<close>

definition created_line :: "string \<Rightarrow> nat \<Rightarrow> string \<Rightarrow> string" where
  "created_line gist_id n filename =
     map char_of [229, 183, 178, 229, 136, 155, 229, 187, 186 :: nat] @ '' Gitee '' @ map char_of [228, 187, 163, 231, 160, 129, 231, 137, 135, 230, 174, 181 :: nat] @ '' '' @ gist_id
     @ map char_of [239, 188, 140, 229, 185, 182, 229, 144, 140, 230, 173, 165 :: nat] @ '' '' @ nat_str 10 n @ '' '' @ map char_of [228, 184, 170, 232, 138, 130, 231, 130, 185, 229, 136, 176, 230, 150, 135, 228, 187, 182 :: nat] @ '' '' @ filename @ nl"

definition synced_line :: "nat \<Rightarrow> string \<Rightarrow> string" where
  "synced_line n filename =
     map char_of [229, 183, 178, 229, 144, 140, 230, 173, 165 :: nat] @ '' '' @ nat_str 10 n @ '' '' @ map char_of [228, 184, 170, 232, 138, 130, 231, 130, 185, 229, 136, 176 :: nat] @ '' Gitee '' @ map char_of [230, 150, 135, 228, 187, 182 :: nat]
     @ '' '' @ filename @ nl"

definition gitee_upload :: "'s gitee_env \<Rightarrow> string \<Rightarrow> gitee_node list \<Rightarrow> 's \<times> fs \<Rightarrow> 's ran" where
  "gitee_upload env filename ns st =
     (if trim_space (ge_gist_id env) = [] then
        (case create_gist env filename (encode_nodes ns) (fst st) of
           (Inl e, s) \<Rightarrow> (1, [], s, snd st)
         | (Inr gist_id, s) \<Rightarrow> (0, created_line gist_id (length ns) filename, s, snd st))
      else
        (case read_gist env filename (fst st) of
           (Inl e, s) \<Rightarrow> (1, [], s, snd st)
         | (Inr content, s) \<Rightarrow>
             (case parse_nodes (ev_resolver (ce_endpoints (ge_cmd env))) (ge_base_mult env) content of
                Inl e \<Rightarrow> (1, [], s, snd st)
              | Inr remote \<Rightarrow>
                  (case update_gist env filename (encode_nodes (merge_nodes remote ns)) s of
                     (Inl e, s) \<Rightarrow> (1, [], s, snd st)
                   | (Inr _, s) \<Rightarrow> (0, synced_line (length ns) filename, s, snd st)))))"

definition syncgitee :: "'s gitee_env \<Rightarrow> string list \<Rightarrow> 's \<times> fs \<Rightarrow> 's ran" where
  "syncgitee env args st =
     (if length args < 1 \<or> 2 < length args then (1, [], st)
      else if trim_space (ge_token env) = [] then (1, [], st)
      else let filename = (if length args = 2 then args ! 1 else ''default'')
           in with_client (ge_cmd env) (\<lambda>c st.
             case cl_device c (hd args) (fst st) of
               (Inl e, s) \<Rightarrow> (1, [], s, snd st)
             | (Inr d, s) \<Rightarrow>
                 (case bind_res (interface_addresses (ge_addresses env (hd args))) (\<lambda>addrs.
                         bind_res (ge_hostname env) (\<lambda>hostname.
                           gitee_nodes (ge_base_mult env) (shown_device (ge_cmd env) d (snd st)) addrs hostname
                             (lookup_public_ip (ge_get env)))) of
                    Inl e \<Rightarrow> (1, [], s, snd st)
                  | Inr ns \<Rightarrow> gitee_upload env filename ns (s, snd st))) st)"

section \<open>Trimmed text\<close>

lemma strip_any_suffix: "suffix (strip_any ps s) s"
proof (induction ps s rule: strip_any.induct)
  case (1 ps s)
  show ?case
  proof (cases "find (\<lambda>p. p \<noteq> [] \<and> prefix p s) ps")
    case None
    then show ?thesis by (subst strip_any.simps) simp
  next
    case (Some p)
    have "suffix (drop (length p) s) s" by (rule suffix_drop)
    then show ?thesis using 1 [OF Some] Some by (subst strip_any.simps) (auto intro: suffix_order.trans)
  qed
qed

lemma suffix_len: "suffix a b \<Longrightarrow> length a \<le> length b \<and> (length a = length b \<longrightarrow> a = b)"
  by (auto simp: suffix_def)

lemma strip_any_fixed:
  assumes "strip_any ps s = s" and "p \<in> set ps" and "p \<noteq> []"
  shows "\<not> prefix p s"
proof
  assume "prefix p s"
  then obtain q where q: "find (\<lambda>p. p \<noteq> [] \<and> prefix p s) ps = Some q"
    using assms(2,3) by (cases "find (\<lambda>p. p \<noteq> [] \<and> prefix p s) ps") (auto simp: find_None_iff)
  then have "q \<noteq> []" "prefix q s" by (auto simp: find_Some_iff)
  then have "length (drop (length q) s) < length s" by (cases q; cases s) auto
  moreover have "strip_any ps s = strip_any ps (drop (length q) s)" using q by (subst strip_any.simps) simp
  ultimately show False using suffix_len [OF strip_any_suffix [of ps "drop (length q) s"]] assms(1) by simp
qed

lemma trim_space_fixed:
  assumes "trim_space v = v"
  shows "trim_left v = v" and "trim_right v = v"
proof -
  have "length (trim_space v) \<le> length (trim_left v)"
    using suffix_len [OF strip_any_suffix [of "map rev unicode_spaces" "rev (trim_left v)"]]
    by (simp add: trim_space_def trim_right_def)
  then show l: "trim_left v = v"
    using assms suffix_len [OF strip_any_suffix [of unicode_spaces v]] by (simp add: trim_left_def)
  then show "trim_right v = v" using assms by (simp add: trim_space_def)
qed

lemma spaces_rev: "\<forall>p \<in> set (map rev unicode_spaces). length p = 1 \<or> CHR 0x20 \<notin> set p"
  by (simp add: unicode_spaces_def)

lemma trim_after_space:
  assumes "trim_space v = v" and "v \<noteq> []" and "graph c"
  shows "trim_space (c # s @ CHR 0x20 # v) = c # s @ CHR 0x20 # v"
proof -
  have "strip_any (map rev unicode_spaces) (rev v) = rev v"
    using trim_space_fixed(2) [OF assms(1)] unfolding trim_right_def by (metis rev_rev_ident)
  note fixed = strip_any_fixed [OF this]
  have "p = [] \<or> \<not> prefix p (rev v @ CHR 0x20 # rev s @ [c])" if p: "p \<in> set (map rev unicode_spaces)" for p
  proof (rule ccontr)
    assume "\<not> (p = [] \<or> \<not> prefix p (rev v @ CHR 0x20 # rev s @ [c]))"
    then have pre: "p \<noteq> []" "prefix p (rev v @ CHR 0x20 # rev s @ [c])" by auto
    then have "\<not> prefix p (rev v)" using fixed p by blast
    then obtain us where us: "p = rev v @ us" "us \<noteq> []" "prefix us (CHR 0x20 # rev s @ [c])"
      using pre(2) by (auto simp: prefix_append)
    then have "CHR 0x20 \<in> set p" by (cases us) auto
    moreover have "length p \<noteq> 1" using us assms(2) by (cases us; cases v) auto
    ultimately show False using spaces_rev p by blast
  qed
  then have "strip_any (map rev unicode_spaces) (rev (c # s @ CHR 0x20 # v)) = rev (c # s @ CHR 0x20 # v)"
    by (intro strip_any_id) simp
  then have "trim_right (c # s @ CHR 0x20 # v) = c # s @ CHR 0x20 # v" unfolding trim_right_def by (metis rev_rev_ident)
  then show ?thesis using trim_left_graph [OF assms(3)] by (simp add: trim_space_def)
qed

section \<open>Reading what was written\<close>

definition gitee_keys :: "string list" where
  "gitee_keys = [''Name'', ''PublicKey'', ''PrivateKey'', ''AllowedIPs'', ''Endpoint'', ''PersistentKeepalive'']"

lemma gitee_keys_ok:
  "list_all (\<lambda>k. k \<noteq> [] \<and> graph (hd k) \<and> hd k \<noteq> CHR ''#'' \<and> hd k \<noteq> CHR ''['' \<and> CHR ''='' \<notin> set k
     \<and> trim_space (k @ '' '') = k \<and> trim_space (k @ '' = '') = k @ '' ='') gitee_keys"
  by code_simp

definition in_node :: "gitee_node list \<Rightarrow> gitee_node \<Rightarrow> bool \<Rightarrow> gitee_state" where
  "in_node ns n h = \<lparr>gs_nodes = ns, gs_node = Some n, gs_has_public_key = h\<rparr>"

lemma gitee_line_field:
  assumes k: "k \<in> set gitee_keys" and v: "trim_space v = v" and f: "gitee_field rs k v n = Inr n'"
  shows "gitee_line rs bm no (k @ '' = '' @ v) (in_node ns n h) = Inr (in_node ns n' (h \<or> k = ''PublicKey''))"
proof -
  have ks: "k \<noteq> []" "graph (hd k)" "hd k \<noteq> CHR ''#''" "hd k \<noteq> CHR ''[''" "CHR ''='' \<notin> set k" "trim_space (k @ '' '') = k"
    "trim_space (k @ '' = '') = k @ '' =''"
    using gitee_keys_ok k by (auto simp: list_all_iff)
  obtain c k' where ck: "k = c # k'" using ks(1) by (cases k) auto
  define line where "line = trim_space (k @ '' = '' @ v)"
  have line: "line = k @ '' ='' @ (if v = [] then [] else '' '' @ v)"
  proof (cases "v = []")
    case False
    then show ?thesis using trim_after_space [OF v False, of c "k' @ '' =''"] ks(2) by (simp add: line_def ck)
  qed (simp add: line_def ks(7))
  have "cut_at (CHR ''='') line = Some (k @ '' '', if v = [] then [] else '' '' @ v)"
    using cut_at_append [of "CHR ''=''" "k @ '' ''"] ks(5) by (simp add: line)
  moreover have "line \<noteq> []" "\<not> prefix ''#'' line" "line \<noteq> ''[Peer]''" using ks(3,4) by (auto simp: line ck)
  moreover have "trim_space (if v = [] then [] else '' '' @ v) = v" using v by (simp add: trim_space_lead)
  ultimately show ?thesis
    using f ks(6) unfolding gitee_line_def Let_def line_def [symmetric] by (simp add: in_node_def map_err_def)
qed

lemma gitee_lines_append:
  "gitee_lines rs bm no (xs @ ys) st = bind_res (gitee_lines rs bm no xs st) (gitee_lines rs bm (no + length xs) ys)"
  by (induction xs arbitrary: no st) (auto simp: bind_res_def split: sum.split)

lemma gitee_lines_one: "gitee_lines rs bm no [l] st = gitee_line rs bm no l st"
  by (simp add: bind_res_def split: sum.split)

text \<open>An IPv4 address in sixteen bytes is printed as the one in four.\<close>

definition short_net :: "ip_net \<Rightarrow> ip_net" where
  "short_net n = n\<lparr>net_ip := (case to4 (net_ip n) of None \<Rightarrow> net_ip n | Some v4 \<Rightarrow> v4)\<rparr>"

lemma short_net_str: "ip_net_str (short_net n) = ip_net_str n"
  by (cases "to4 (net_ip n)") (auto simp: ip_net_str_def network_number_and_mask_def short_net_def to4_def split: if_splits)

lemma to16_to4: "to4 i = Some v \<Longrightarrow> to16 v = to16 i"
proof (cases "length i = 4")
  case False
  assume v: "to4 i = Some v"
  then have "length i = 16" "take 12 i = v4_in_v6_prefix" "v = drop 12 i" using False by (auto simp: to4_def split: if_splits)
  moreover from this have "v4_in_v6_prefix @ v = i" by (metis append_take_drop_id)
  ultimately show ?thesis by (simp add: to16_def)
qed (simp add: to4_def)

lemma short_net16: "net16 (short_net n) = net16 n"
proof (cases "to4 (net_ip n)")
  case (Some v)
  then have "to16 (net_ip n) \<noteq> None" by (auto simp: to4_def to16_def split: if_splits)
  then show ?thesis using Some by (auto simp: net16_def short_net_def to16_to4)
qed (simp add: short_net_def)

lemma gitee_net:
  assumes "canonical_net (short_net n)"
  shows "gitee_allowed_ip (ip_net_str n) = Inr (net16 n)"
  using parse_cidr_ip_net_str [OF assms] ip_net_str_trim [OF assms]
  by (simp add: gitee_allowed_ip_def short_net_str short_net16) (simp add: short_net_def net16_def)

lemma gitee_nets:
  assumes "ns \<noteq> []" and "list_all (\<lambda>n. canonical_net (short_net n)) ns"
  shows "map_res gitee_allowed_ip (split_on (CHR '','') (join '', '' (map ip_net_str ns))) = Inr (map net16 ns)"
proof -
  have "CHR '','' \<notin> set (ip_net_str n)" if "n \<in> set ns" for n
    using ip_net_str_set(2) [of "short_net n"] assms(2) that by (simp add: short_net_str list_all_iff)
  then have "split_on (CHR '','') (join '', '' (map ip_net_str ns)) = hd (map ip_net_str ns) # map (\<lambda>x. '' '' @ x) (tl (map ip_net_str ns))"
    using assms(1) by (intro split_on_join) auto
  moreover have "gitee_allowed_ip ('' '' @ x) = gitee_allowed_ip x" for x by (simp add: gitee_allowed_ip_def trim_space_lead)
  then have "map_res gitee_allowed_ip (x # map (\<lambda>x. '' '' @ x) xs) = map_res gitee_allowed_ip (x # xs)" for x xs
    by (induction xs arbitrary: x) (simp_all split: sum.split)
  moreover obtain n l where n: "ns = n # l" using assms(1) by (cases ns) auto
  ultimately have "map_res gitee_allowed_ip (split_on (CHR '','') (join '', '' (map ip_net_str ns))) = map_res gitee_allowed_ip (map ip_net_str ns)"
    by (simp only: n list.map list.sel)
  also have "\<dots> = Inr (map net16 ns)"
    using assms(2) by (induction ns) (simp_all add: gitee_net)
  finally show ?thesis .
qed

definition sendable_node :: "(byte list \<Rightarrow> byte list) \<Rightarrow> gitee_node \<Rightarrow> bool" where
  "sendable_node bm n \<longleftrightarrow> trim_space (gn_name n) = gn_name n \<and> CHR 0x0A \<notin> set (gn_name n) \<and> CHR 0x0D \<notin> set (gn_name n)
     \<and> wf_key (gn_public_key n) \<and> opt_all (\<lambda>k. wf_key k \<and> key_public bm k = gn_public_key n) (gn_private_key n)
     \<and> list_all (\<lambda>n. canonical_net (short_net n)) (gn_allowed_ips n)
     \<and> opt_all (\<lambda>a. (length (ua_ip a) = 4 \<or> length (ua_ip a) = 16) \<and> 0 \<le> ua_port a \<and> ua_port a \<le> 65535 \<and> ua_zone a = []) (gn_endpoint n)
     \<and> 0 \<le> gn_keepalive n \<and> gn_keepalive n < 65536 * second"

text \<open>What is read of a node: not its preshared key.\<close>

definition read_node :: "gitee_node \<Rightarrow> gitee_node" where
  "read_node n = n\<lparr>gn_preshared_key := zero_key, gn_allowed_ips := map net16 (gn_allowed_ips n),
     gn_endpoint := map_option addr16 (gn_endpoint n), gn_keepalive := tdiv (gn_keepalive n) second * second\<rparr>"

definition line_text :: "string \<Rightarrow> bool" where
  "line_text v \<longleftrightarrow> trim_space v = v \<and> CHR 0x0A \<notin> set v \<and> CHR 0x0D \<notin> set v"

lemma graph_line_text:
  assumes "set v \<subseteq> {c. graph c} \<union> {CHR 0x20}" and "v \<noteq> []" and "graph (hd v)" and "graph (last v)"
  shows "line_text v"
  using assms by (auto simp: line_text_def graph_def between_def intro!: trim_space_graph)

lemma all_graph_line_text:
  assumes "set v \<subseteq> {c. graph c}" shows "line_text v"
proof (cases "v = []")
  case False
  then have "graph (hd v)" "graph (last v)" using hd_in_set last_in_set assms by blast+
  then show ?thesis using assms False by (intro graph_line_text) auto
qed (simp add: line_text_def)

lemma key_line_text: "line_text (key_str k)"
  using key_str_graph by (intro all_graph_line_text) blast

lemma dec_graph: "set (nat_str 10 n) \<subseteq> {c. graph c}"
proof -
  have "list_all graph ''0123456789''" by code_simp
  then have "set ''0123456789'' \<subseteq> {c. graph c}" unfolding list_all_iff by blast
  then show ?thesis by (rule subset_trans [OF nat_str_dec_set])
qed

lemma ip_graph: "length i = 4 \<or> length i = 16 \<Longrightarrow> set (ip_str i) \<subseteq> {c. graph c}"
proof -
  have "list_all graph ''.:0123456789abcdef''" by code_simp
  then have "set ''.:0123456789abcdef'' \<subseteq> {c. graph c}" unfolding list_all_iff by blast
  moreover assume "length i = 4 \<or> length i = 16"
  ultimately show ?thesis using subset_trans [OF ip_str_set] by blast
qed

lemma addr_line_text:
  assumes "length (ua_ip a) = 4 \<or> length (ua_ip a) = 16" and "ua_zone a = []"
  shows "line_text (udp_addr_str a)"
proof -
  have ne: "ua_ip a \<noteq> []" using assms(1) by auto
  have "graph (CHR ''['')" "graph (CHR '']'')" "graph (CHR '':'')" "graph (CHR ''-'')" by (simp_all add: graph_def between_def)
  then show ?thesis
    using ip_graph [OF assms(1)] dec_graph ne assms(2)
    by (intro all_graph_line_text) (simp add: udp_addr_str_def join_host_port_def itoa_def int_str_def Let_def)
qed

lemma nat_line_text: "line_text (nat_str 10 n)"
  using dec_graph by (intro all_graph_line_text) blast

lemma nets_line_text:
  assumes "ns \<noteq> []" and "list_all (\<lambda>n. canonical_net (short_net n)) ns"
  shows "line_text (join '', '' (map ip_net_str ns))"
proof -
  have g: "ip_net_str n \<noteq> [] \<and> (\<forall>c \<in> set (ip_net_str n). graph c)" if "n \<in> set ns" for n
    using ip_net_str_set(1) [of "short_net n"] ip_net_str_not_Nil [of "short_net n"] plain_graph assms(2) that
    by (fastforce simp: short_net_str list_all_iff)
  have gc: "graph (CHR '','')" by (simp add: graph_def between_def)
  have "set (join '', '' (map ip_net_str ns)) \<subseteq> {c. graph c} \<union> {CHR 0x20} \<and> join '', '' (map ip_net_str ns) \<noteq> []
      \<and> graph (hd (join '', '' (map ip_net_str ns))) \<and> graph (last (join '', '' (map ip_net_str ns)))"
    using assms(1) g
  proof (induction ns rule: induct_list012)
    case (3 x y zs)
    then have "ip_net_str x \<noteq> []" "\<forall>c \<in> set (ip_net_str x). graph c" by auto
    then show ?case using "3.IH"(2) "3.prems" gc by (auto simp: hd_append)
  qed auto
  then show ?thesis by (intro graph_line_text) auto
qed

text \<open>The lines of nodes with an empty line between two of them.\<close>

fun nodes_lines :: "gitee_node list \<Rightarrow> string list" where
  "nodes_lines [] = []"
| "nodes_lines [n] = node_lines n"
| "nodes_lines (n # m # ns) = node_lines n @ [] # nodes_lines (m # ns)"

lemma encode_nodes_lines: "encode_nodes ns = unlines (nodes_lines ns)"
  by (induction ns rule: nodes_lines.induct) (simp_all add: encode_nodes_def nl_def)

lemma kv_lines:
  "''Name = '' @ v = ''Name'' @ '' = '' @ v" "''PublicKey = '' @ v = ''PublicKey'' @ '' = '' @ v"
  "''PrivateKey = '' @ v = ''PrivateKey'' @ '' = '' @ v" "''AllowedIPs = '' @ v = ''AllowedIPs'' @ '' = '' @ v"
  "''Endpoint = '' @ v = ''Endpoint'' @ '' = '' @ v" "''PersistentKeepalive = '' @ v = ''PersistentKeepalive'' @ '' = '' @ v"
  by simp_all

lemma gitee_header:
  "gitee_line rs bm no ''[Peer]'' st = bind_res (map_err (ErrLine no) (gitee_finish bm st)) (\<lambda>st. Inr (in_node (gs_nodes st) zero_node False))"
proof -
  have "trim_space ''[Peer]'' = ''[Peer]''" by code_simp
  then show ?thesis
    by (cases "gitee_finish bm st") (simp_all add: gitee_line_def map_err_def in_node_def)
qed

lemma gitee_blank: "gitee_line rs bm no [] st = Inr st"
  by (simp add: gitee_line_def)

text \<open>One field after another: the line of a field takes a node in a section to the next one.\<close>

lemma gitee_step:
  assumes "k \<in> set gitee_keys" and "line_text v" and "gitee_field rs k v n = Inr n'"
  shows "gitee_lines rs bm no ((k @ '' = '' @ v) # ls) (in_node ns n h) =
    gitee_lines rs bm (Suc no) ls (in_node ns n' (h \<or> k = ''PublicKey''))"
proof -
  have "trim_space v = v" using assms(2) by (simp add: line_text_def)
  from gitee_line_field [OF assms(1) this assms(3)] show ?thesis by (simp only: gitee_lines.simps bind_res_def sum.case)
qed

lemma gitee_step_opt:
  assumes "k \<in> set gitee_keys" and "opt_all (\<lambda>x. line_text (f x) \<and> gitee_field rs k (f x) n = Inr (g x)) v"
  shows "gitee_lines rs bm no ((case v of None \<Rightarrow> [] | Some x \<Rightarrow> [k @ '' = '' @ f x]) @ ls) (in_node ns n True) =
    gitee_lines rs bm (no + (if v = None then 0 else 1)) ls (in_node ns (case v of None \<Rightarrow> n | Some x \<Rightarrow> g x) True)"
  using assms(2) gitee_step [OF assms(1)] by (cases v) simp_all

definition closed_node :: "(byte list \<Rightarrow> byte list) \<Rightarrow> gitee_node \<Rightarrow> bool" where
  "closed_node bm n \<longleftrightarrow> (case gn_private_key n of None \<Rightarrow> True | Some k \<Rightarrow> key_public bm k = gn_public_key n)"

lemma gitee_finish_in: "closed_node bm n \<Longrightarrow> gitee_finish bm (in_node ns n True) = Inr ((in_node ns n True)\<lparr>gs_nodes := ns @ [n]\<rparr>)"
  by (auto simp: gitee_finish_def in_node_def closed_node_def split: option.split)

lemma sendable_closed: "sendable_node bm n \<Longrightarrow> closed_node bm (read_node n)"
  by (cases "gn_private_key n") (simp_all add: sendable_node_def closed_node_def read_node_def)

lemma gitee_node_lines:
  assumes n: "sendable_node bm n" and st: "gitee_finish bm st = Inr st'"
  shows "gitee_lines rs bm no (node_lines n) st = Inr (in_node (gs_nodes st') (read_node n) True)"
proof -
  let ?ns = "gs_nodes st'"
  define n1 where "n1 = zero_node\<lparr>gn_name := gn_name n, gn_public_key := gn_public_key n\<rparr>"
  define n2 where "n2 = n1\<lparr>gn_private_key := gn_private_key n\<rparr>"
  define n3 where "n3 = n2\<lparr>gn_allowed_ips := map net16 (gn_allowed_ips n)\<rparr>"
  define n4 where "n4 = n3\<lparr>gn_endpoint := map_option addr16 (gn_endpoint n)\<rparr>"
  have keys: "''Name'' \<in> set gitee_keys" "''PublicKey'' \<in> set gitee_keys" "''PrivateKey'' \<in> set gitee_keys"
    "''AllowedIPs'' \<in> set gitee_keys" "''Endpoint'' \<in> set gitee_keys" "''PersistentKeepalive'' \<in> set gitee_keys"
    by (simp_all add: gitee_keys_def)
  have name: "line_text (gn_name n)" and pk: "wf_key (gn_public_key n)" using n by (simp_all add: sendable_node_def line_text_def)
  have head: "gitee_lines rs bm no (''[Peer]'' # (''Name'' @ '' = '' @ gn_name n) # (''PublicKey'' @ '' = '' @ key_str (gn_public_key n)) # ls) st
      = gitee_lines rs bm (Suc (Suc (Suc no))) ls (in_node ?ns n1 True)" for ls
  proof -
    have "gitee_field rs ''Name'' (gn_name n) zero_node = Inr (zero_node\<lparr>gn_name := gn_name n\<rparr>)"
      "gitee_field rs ''PublicKey'' (key_str (gn_public_key n)) (zero_node\<lparr>gn_name := gn_name n\<rparr>) = Inr n1"
      using pk by (simp_all add: gitee_field_def map_err_def n1_def)
    then show ?thesis
      using gitee_step [OF keys(1) name] gitee_step [OF keys(2) key_line_text] st
      by (simp add: gitee_header map_err_def del: append.simps)
  qed
  have priv: "gitee_lines rs bm i ((case gn_private_key n of None \<Rightarrow> [] | Some k \<Rightarrow> [''PrivateKey'' @ '' = '' @ key_str k]) @ ls) (in_node ?ns n1 True)
      = gitee_lines rs bm (i + (if gn_private_key n = None then 0 else 1)) ls (in_node ?ns n2 True)" for i ls
  proof -
    have "opt_all (\<lambda>k. line_text (key_str k) \<and> gitee_field rs ''PrivateKey'' (key_str k) n1 = Inr (n1\<lparr>gn_private_key := Some k\<rparr>)) (gn_private_key n)"
      using n by (cases "gn_private_key n") (simp_all add: sendable_node_def gitee_field_def map_err_def key_line_text)
    from gitee_step_opt [OF keys(3) this] show ?thesis
      by (cases "gn_private_key n") (simp_all add: n2_def n1_def zero_node_def)
  qed
  have allowed: "gitee_lines rs bm i ((if gn_allowed_ips n \<noteq> [] then [''AllowedIPs'' @ '' = '' @ join '', '' (map ip_net_str (gn_allowed_ips n))] else []) @ ls) (in_node ?ns n2 True)
      = gitee_lines rs bm (i + (if gn_allowed_ips n = [] then 0 else 1)) ls (in_node ?ns n3 True)" for i ls
  proof (cases "gn_allowed_ips n = []")
    case False
    have nets: "list_all (\<lambda>n. canonical_net (short_net n)) (gn_allowed_ips n)" using n by (simp add: sendable_node_def)
    have "gitee_field rs ''AllowedIPs'' (join '', '' (map ip_net_str (gn_allowed_ips n))) n2 = Inr n3"
      by (simp add: gitee_field_def gitee_nets [OF False nets] map_err_def n3_def n2_def n1_def zero_node_def)
    then show ?thesis using False gitee_step [OF keys(4) nets_line_text [OF False nets]] by simp
  qed (simp add: n3_def n2_def n1_def zero_node_def)
  have endpoint: "gitee_lines rs bm i ((case gn_endpoint n of None \<Rightarrow> [] | Some a \<Rightarrow> [''Endpoint'' @ '' = '' @ udp_addr_str a]) @ ls) (in_node ?ns n3 True)
      = gitee_lines rs bm (i + (if gn_endpoint n = None then 0 else 1)) ls (in_node ?ns n4 True)" for i ls
  proof -
    have "opt_all (\<lambda>a. line_text (udp_addr_str a) \<and> gitee_field rs ''Endpoint'' (udp_addr_str a) n3 = Inr (n3\<lparr>gn_endpoint := Some (addr16 a)\<rparr>)) (gn_endpoint n)"
      using n resolve_udp_addr_str [of _ rs]
      by (cases "gn_endpoint n") (auto simp: sendable_node_def gitee_field_def map_err_def addr_line_text addr16_def to16_def)
    from gitee_step_opt [OF keys(5) this] show ?thesis
      by (cases "gn_endpoint n") (simp_all add: n4_def n3_def n2_def n1_def zero_node_def)
  qed
  have keepalive: "gitee_lines rs bm i (if gn_keepalive n \<noteq> 0 then [''PersistentKeepalive'' @ '' = '' @ itoa (tdiv (gn_keepalive n) second)] else []) (in_node ?ns n4 True)
      = Inr (in_node ?ns (read_node n) True)" for i
  proof (cases "gn_keepalive n = 0")
    case True
    then show ?thesis by (cases n) (simp add: n4_def n3_def n2_def n1_def read_node_def zero_node_def tdiv_def)
  next
    case False
    have k: "0 \<le> gn_keepalive n" "gn_keepalive n < 65536 * second" using n by (simp_all add: sendable_node_def)
    note b = keepalive_seconds [OF k]
    then have t: "itoa (tdiv (gn_keepalive n) second) = nat_str 10 (nat (tdiv (gn_keepalive n) second))" by (simp add: itoa_def int_str_def)
    have "parse_uint 10 16 (nat_str 10 (nat (tdiv (gn_keepalive n) second))) = Inr (nat (tdiv (gn_keepalive n) second))"
      using b by (intro parse_uint_nat_str) auto
    then have "gitee_field rs ''PersistentKeepalive'' (itoa (tdiv (gn_keepalive n) second)) n4 = Inr (read_node n)"
      using b by (simp add: t gitee_field_def map_err_def n4_def n3_def n2_def n1_def read_node_def zero_node_def)
    then show ?thesis using False gitee_step [OF keys(6)] nat_line_text by (simp add: t)
  qed
  have "node_lines n = ''[Peer]'' # (''Name'' @ '' = '' @ gn_name n) # (''PublicKey'' @ '' = '' @ key_str (gn_public_key n))
      # (case gn_private_key n of None \<Rightarrow> [] | Some k \<Rightarrow> [''PrivateKey'' @ '' = '' @ key_str k])
      @ (if gn_allowed_ips n \<noteq> [] then [''AllowedIPs'' @ '' = '' @ join '', '' (map ip_net_str (gn_allowed_ips n))] else [])
      @ (case gn_endpoint n of None \<Rightarrow> [] | Some a \<Rightarrow> [''Endpoint'' @ '' = '' @ udp_addr_str a])
      @ (if gn_keepalive n \<noteq> 0 then [''PersistentKeepalive'' @ '' = '' @ itoa (tdiv (gn_keepalive n) second)] else [])"
    by (cases "gn_private_key n"; cases "gn_endpoint n"; simp add: node_lines_def)
  then show ?thesis by (simp only: head priv allowed endpoint keepalive)
qed

lemma nodes_lines_read:
  assumes "list_all (sendable_node bm) ns" and "ns \<noteq> []" and "gitee_finish bm st = Inr st'"
  shows "\<exists>st1. gitee_lines rs bm no (nodes_lines ns) st = Inr st1
    \<and> bind_res (gitee_finish bm st1) (\<lambda>st. Inr (gs_nodes st)) = Inr (gs_nodes st' @ map read_node ns)"
  using assms
proof (induction ns arbitrary: st st' no rule: nodes_lines.induct)
  case (2 n)
  then show ?case by (simp add: gitee_node_lines gitee_finish_in sendable_closed)
next
  case (3 n m ns)
  let ?st = "in_node (gs_nodes st') (read_node n) True"
  have n: "sendable_node bm n" using "3.prems"(1) by simp
  have fin: "gitee_finish bm ?st = Inr (?st\<lparr>gs_nodes := gs_nodes st' @ [read_node n]\<rparr>)"
    by (rule gitee_finish_in [OF sendable_closed [OF n]])
  from "3.IH" [OF _ _ fin, of "Suc (no + length (node_lines n))"] "3.prems" show ?case
    by (simp add: gitee_lines_append gitee_node_lines [OF n "3.prems"(3)] gitee_blank)
qed simp

lemma node_lines_text:
  assumes n: "sendable_node bm n" and l: "l \<in> set (node_lines n)"
  shows "CHR 0x0A \<notin> set l \<and> CHR 0x0D \<notin> set l"
proof -
  have t: "line_text v \<Longrightarrow> CHR 0x0A \<notin> set v \<and> CHR 0x0D \<notin> set v" for v by (simp add: line_text_def)
  have nets: "gn_allowed_ips n \<noteq> [] \<Longrightarrow> line_text (join '', '' (map ip_net_str (gn_allowed_ips n)))"
    using n by (intro nets_line_text) (simp_all add: sendable_node_def)
  have ep: "gn_endpoint n = Some a \<Longrightarrow> line_text (udp_addr_str a)" for a
    using n by (intro addr_line_text) (simp_all add: sendable_node_def)
  have ka: "line_text (itoa (tdiv (gn_keepalive n) second))"
    using n keepalive_seconds [of "gn_keepalive n"] nat_line_text by (simp add: itoa_def int_str_def sendable_node_def)
  have name: "CHR 0x0A \<notin> set (gn_name n) \<and> CHR 0x0D \<notin> set (gn_name n)" using n by (simp add: sendable_node_def)
  show ?thesis
    using l name t [OF key_line_text] t [OF ka] nets [THEN t] ep [THEN t]
    by (auto simp: node_lines_def split: option.splits if_splits)
qed

lemma nodes_lines_set: "l \<in> set (nodes_lines ns) \<Longrightarrow> l = [] \<or> (\<exists>n \<in> set ns. l \<in> set (node_lines n))"
  by (induction ns rule: nodes_lines.induct) auto

lemma strip_graph_left:
  assumes "graph c" shows "strip_any (map rev unicode_spaces) (s @ [c]) \<noteq> []"
proof -
  have "\<forall>p \<in> set (map rev unicode_spaces). \<forall>c \<in> set p. \<not> graph c" by (simp add: unicode_spaces_def graph_def between_def)
  then have "s = t @ [c] \<Longrightarrow> strip_any (map rev unicode_spaces) s \<noteq> []" for s t
  proof (induction "map rev unicode_spaces" s arbitrary: t rule: strip_any.induct)
    case (1 s)
    show ?case
    proof (cases "find (\<lambda>p. p \<noteq> [] \<and> prefix p s) (map rev unicode_spaces)")
      case None
      then show ?thesis using "1.prems" by (subst strip_any.simps) simp
    next
      case (Some p)
      then have p: "p \<in> set (map rev unicode_spaces)" "prefix p s" by (auto simp: find_Some_iff)
      have "c \<notin> set p" using p(1) "1.prems"(2) assms by blast
      obtain zs where zs: "s = p @ zs" using p(2) by (auto simp: prefix_def)
      then have "zs \<noteq> []" using \<open>c \<notin> set p\<close> "1.prems"(1) by (metis append_Nil2 in_set_conv_decomp)
      then have "zs = butlast zs @ [c]" using zs "1.prems"(1) by (metis append_butlast_last_id last_appendR last_snoc)
      then obtain u where "drop (length p) s = u @ [c]" using zs by auto
      then show ?thesis using "1.hyps" [OF Some] "1.prems"(2) Some by (subst strip_any.simps) simp
    qed
  qed
  then show ?thesis by blast
qed

section \<open>Properties\<close>

text \<open>
  C27. Round trip through the snippet: the text written for nodes is read back as the same nodes in
  the same order, addresses in sixteen bytes and keepalives in whole seconds, provided no line
  reaches the scanner's 64 kilobytes; but their preshared keys are not written.
\<close>

theorem gitee_round_trip:
  assumes "list_all (sendable_node bm) ns" and "list_all (\<lambda>l. length l < max_token) (nodes_lines ns)"
  shows "parse_nodes rs bm (encode_nodes ns) = Inr (map read_node ns)"
proof (cases ns)
  case Nil
  then show ?thesis by (simp add: parse_nodes_def encode_nodes_def)
next
  case (Cons n ns')
  then have ne: "ns \<noteq> []" by simp
  have "CHR 0x0A \<notin> set l \<and> CHR 0x0D \<notin> set l \<and> length l < max_token" if l: "l \<in> set (nodes_lines ns)" for l
  proof (cases "l = []")
    case True
    then show ?thesis by (simp add: max_token_def)
  next
    case False
    then obtain n where "n \<in> set ns" "l \<in> set (node_lines n)" using nodes_lines_set [OF l] by blast
    then show ?thesis using assms l node_lines_text [of bm n l] by (auto simp: list_all_iff)
  qed
  then have scan: "scan_lines max_token \<lparr>rd_data = encode_nodes ns, rd_err = None\<rparr> = (nodes_lines ns, None)"
    unfolding encode_nodes_lines by (rule scan_lines_unlines)
  obtain r where r: "encode_nodes ns = ''[Peer]'' @ r"
    by (cases ns') (simp_all add: encode_nodes_lines Cons node_lines_def)
  have "trim_space (encode_nodes ns) \<noteq> []"
  proof
    assume "trim_space (encode_nodes ns) = []"
    moreover have "trim_left (encode_nodes ns) = encode_nodes ns" unfolding r using trim_left_graph by (simp add: graph_def between_def)
    ultimately have "strip_any (map rev unicode_spaces) (rev r @ rev ''[Peer]'') = []" by (simp add: trim_space_def trim_right_def r)
    then show False using strip_graph_left [of "CHR ''[''" "rev r @ rev ''Peer]''"] by (simp add: graph_def between_def)
  qed
  moreover have "gitee_finish bm gitee_init = Inr gitee_init" by (simp add: gitee_finish_def gitee_init_def)
  from nodes_lines_read [OF assms(1) ne this, of rs 1] obtain st1 where "gitee_lines rs bm 1 (nodes_lines ns) gitee_init = Inr st1"
    "bind_res (gitee_finish bm st1) (\<lambda>st. Inr (gs_nodes st)) = Inr (map read_node ns)" by (auto simp: gitee_init_def)
  ultimately show ?thesis by (simp add: parse_nodes_def scan bind_res_def)
qed

text \<open>One local node on its own, without the index.\<close>

definition put_node :: "gitee_node \<Rightarrow> gitee_node list \<Rightarrow> gitee_node list" where
  "put_node n ms = (if gn_public_key n \<in> set (map gn_public_key ms)
     then map (\<lambda>m. if gn_public_key m = gn_public_key n then n else m) ms else ms @ [n])"

definition index_ok :: "gitee_node list \<Rightarrow> (key \<Rightarrow> nat option) \<Rightarrow> bool" where
  "index_ok ms f \<longleftrightarrow> (\<forall>k i. f k = Some i \<longleftrightarrow> i < length ms \<and> gn_public_key (ms ! i) = k)"

lemma index_ok_absent: "index_ok ms f \<Longrightarrow> f k = None \<Longrightarrow> k \<notin> set (map gn_public_key ms)"
proof
  assume f: "index_ok ms f" "f k = None" and "k \<in> set (map gn_public_key ms)"
  then obtain i where "i < length ms" "gn_public_key (ms ! i) = k" by (metis in_set_conv_nth length_map nth_map)
  then have "f k = Some i" using f(1) unfolding index_ok_def by blast
  then show False using f(2) by simp
qed

lemma index_ok_distinct: "index_ok ms f \<Longrightarrow> distinct (map gn_public_key ms)"
  unfolding index_ok_def distinct_conv_nth by (metis length_map nth_map option.inject)

lemma index_ok_snoc:
  assumes "index_ok ms f" and "gn_public_key n \<notin> set (map gn_public_key ms)"
  shows "index_ok (ms @ [n]) (f(gn_public_key n \<mapsto> length ms))"
proof -
  have "gn_public_key (ms ! i) \<noteq> gn_public_key n" if "i < length ms" for i using assms(2) that by (metis length_map nth_map nth_mem)
  then show ?thesis using assms(1) by (auto simp: index_ok_def nth_append less_Suc_eq)
qed

lemma node_indexes_ok: "distinct (map gn_public_key ns) \<Longrightarrow> index_ok ns (node_indexes ns)"
proof (induction ns rule: rev_induct)
  case Nil
  then show ?case by (simp add: index_ok_def node_indexes_def)
next
  case (snoc n ns)
  have eq: "node_indexes (ns @ [n]) = (node_indexes ns)(gn_public_key n \<mapsto> length ns)"
    by (simp add: node_indexes_def enumerate_append_eq)
  have "index_ok ns (node_indexes ns)" "gn_public_key n \<notin> set (map gn_public_key ns)" using snoc by auto
  then show ?case unfolding eq by (rule index_ok_snoc)
qed

lemma merge_step_put:
  assumes "index_ok ms f"
  shows "fst (merge_step n (ms, f)) = put_node n ms" and "index_ok (fst (merge_step n (ms, f))) (snd (merge_step n (ms, f)))"
proof -
  show "fst (merge_step n (ms, f)) = put_node n ms"
  proof (cases "f (gn_public_key n)")
    case None
    then have "gn_public_key n \<notin> set (map gn_public_key ms)" using index_ok_absent [OF assms] by blast
    then show ?thesis using None by (simp add: put_node_def)
  next
    case (Some i)
    then have i: "i < length ms" "gn_public_key (ms ! i) = gn_public_key n" using assms by (auto simp: index_ok_def)
    then have "gn_public_key n \<in> set (map gn_public_key ms)" by (metis length_map nth_map nth_mem)
    moreover have "ms[i := n] = map (\<lambda>m. if gn_public_key m = gn_public_key n then n else m) ms"
    proof (rule nth_equalityI)
      fix j assume j: "j < length (ms[i := n])"
      have "gn_public_key (ms ! j) = gn_public_key n \<longleftrightarrow> j = i"
        using nth_eq_iff_index_eq [OF index_ok_distinct [OF assms], of j i] i j by simp
      then show "ms[i := n] ! j = map (\<lambda>m. if gn_public_key m = gn_public_key n then n else m) ms ! j" using j i by simp
    qed simp
    ultimately show ?thesis using Some by (simp add: put_node_def)
  qed
  show "index_ok (fst (merge_step n (ms, f))) (snd (merge_step n (ms, f)))"
  proof (cases "f (gn_public_key n)")
    case None
    then show ?thesis using index_ok_snoc [OF assms] index_ok_absent [OF assms] by simp
  next
    case (Some i)
    then have "i < length ms" "gn_public_key (ms ! i) = gn_public_key n" using assms by (auto simp: index_ok_def)
    moreover have "merge_step n (ms, f) = (ms[i := n], f)" using Some by simp
    ultimately show ?thesis using assms by (auto simp: index_ok_def nth_list_update)
  qed
qed

lemma fold_merge_put: "index_ok ms f \<Longrightarrow> fst (fold merge_step ns (ms, f)) = fold put_node ns ms"
proof (induction ns arbitrary: ms f)
  case (Cons n ns)
  then show ?case using merge_step_put [OF Cons.prems, of n] by (cases "merge_step n (ms, f)") simp
qed simp

lemma merge_nodes_put: "distinct (map gn_public_key remote) \<Longrightarrow> merge_nodes remote local = fold put_node local remote"
  by (simp add: merge_nodes_def fold_merge_put node_indexes_ok)

lemma put_node_keys: "map gn_public_key (put_node n ms) = map gn_public_key ms @ (if gn_public_key n \<in> set (map gn_public_key ms) then [] else [gn_public_key n])"
  by (auto simp: put_node_def)

lemma fold_put_keys:
  "distinct (map gn_public_key ns) \<Longrightarrow> map gn_public_key (fold put_node ns ms) = map gn_public_key ms @ filter (\<lambda>k. k \<notin> set (map gn_public_key ms)) (map gn_public_key ns)"
proof (induction ns arbitrary: ms)
  case (Cons n ns)
  have "filter (\<lambda>k. k \<notin> set (map gn_public_key (put_node n ms))) (map gn_public_key ns) = filter (\<lambda>k. k \<notin> set (map gn_public_key ms)) (map gn_public_key ns)"
    using Cons.prems by (intro filter_cong refl) (auto simp: put_node_keys simp del: set_map)
  moreover have "map gn_public_key (fold put_node ns (put_node n ms)) = map gn_public_key (put_node n ms)
      @ filter (\<lambda>k. k \<notin> set (map gn_public_key (put_node n ms))) (map gn_public_key ns)" using Cons by simp
  ultimately have "map gn_public_key (fold put_node (n # ns) ms) = map gn_public_key (put_node n ms)
      @ filter (\<lambda>k. k \<notin> set (map gn_public_key ms)) (map gn_public_key ns)" by simp
  then show ?case unfolding put_node_keys by simp
qed simp

lemma put_node_mem:
  "m \<in> set (put_node n ms) \<longleftrightarrow> m = n \<or> m \<in> set ms \<and> gn_public_key m \<noteq> gn_public_key n"
  by (auto simp: put_node_def image_iff)

lemma fold_put_mem:
  "distinct (map gn_public_key ns) \<Longrightarrow>
   m \<in> set (fold put_node ns ms) \<longleftrightarrow> m \<in> set ns \<or> m \<in> set ms \<and> gn_public_key m \<notin> set (map gn_public_key ns)"
  by (induction ns arbitrary: ms) (auto simp: put_node_mem)

text \<open>
  C26. Merging keeps the snippet's order and lets local nodes win: the keys are those of the snippet
  in their order and then the new local ones in theirs, each once; a node is in the result exactly
  if it is a local one or one of the snippet whose key no local node has; and merging the same
  nodes again changes nothing.
\<close>

theorem gitee_merge:
  assumes "distinct (map gn_public_key remote)" and "distinct (map gn_public_key local)"
  shows "map gn_public_key (merge_nodes remote local)
      = map gn_public_key remote @ filter (\<lambda>k. k \<notin> set (map gn_public_key remote)) (map gn_public_key local)
    \<and> set (merge_nodes remote local) = set local \<union> {n \<in> set remote. gn_public_key n \<notin> set (map gn_public_key local)}
    \<and> merge_nodes (merge_nodes remote local) local = merge_nodes remote local"
proof (intro conjI)
  show keys: "map gn_public_key (merge_nodes remote local)
      = map gn_public_key remote @ filter (\<lambda>k. k \<notin> set (map gn_public_key remote)) (map gn_public_key local)"
    by (simp add: merge_nodes_put [OF assms(1)] fold_put_keys [OF assms(2)])
  show mem: "set (merge_nodes remote local) = set local \<union> {n \<in> set remote. gn_public_key n \<notin> set (map gn_public_key local)}"
    by (auto simp: merge_nodes_put [OF assms(1)] fold_put_mem [OF assms(2)])
  have d: "distinct (map gn_public_key (merge_nodes remote local))" using assms by (auto simp: keys)
  have "fold put_node ns ms = ms" if "set ns \<subseteq> set ms" "distinct (map gn_public_key ms)" for ns ms
    using that
  proof (induction ns)
    case (Cons n ns)
    have "m = n" if "m \<in> set ms" "gn_public_key m = gn_public_key n" for m
      using Cons.prems that by (auto simp: distinct_map dest: inj_onD)
    then have "map (\<lambda>m. if gn_public_key m = gn_public_key n then n else m) ms = ms" by (intro map_idI) auto
    then have "put_node n ms = ms" using Cons.prems by (auto simp: put_node_def)
    then show ?case using Cons by simp
  qed simp
  moreover have "set local \<subseteq> set (merge_nodes remote local)" by (auto simp: mem)
  ultimately show "merge_nodes (merge_nodes remote local) local = merge_nodes remote local" using d by (simp add: merge_nodes_put)
qed

definition office_node :: gitee_node where
  "office_node = zero_node\<lparr>gn_name := ''office'', gn_public_key := replicate 32 1, gn_preshared_key := replicate 32 9,
     gn_allowed_ips := [\<lparr>net_ip = [10, 0, 0, 2], net_mask = mask_bytes 4 32\<rparr>],
     gn_endpoint := Some \<lparr>ua_ip = [192, 0, 2, 1], ua_port = 51820, ua_zone = []\<rparr>, gn_keepalive := 25 * second\<rparr>"

definition home_node :: gitee_node where
  "home_node = zero_node\<lparr>gn_name := ''at home'', gn_public_key := replicate 32 2, gn_private_key := Some (replicate 32 2)\<rparr>"

theorem gitee_round_trip_witness:
  "parse_nodes \<lparr>lookup_service = (\<lambda>_. Inr 0), lookup_host = (\<lambda>_. Inr [])\<rparr> (\<lambda>k. k) (encode_nodes [office_node, home_node]) = Inr (map read_node [office_node, home_node])"
proof (rule gitee_round_trip)
  show "list_all (sendable_node (\<lambda>k. k)) [office_node, home_node]" by code_simp
  show "list_all (\<lambda>l. length l < max_token) (nodes_lines [office_node, home_node])" by code_simp
qed

theorem gitee_merge_witness:
  "merge_nodes (merge_nodes [home_node\<lparr>gn_name := ''old''\<rparr>] [office_node, home_node]) [office_node, home_node]
    = merge_nodes [home_node\<lparr>gn_name := ''old''\<rparr>] [office_node, home_node]"
  by (rule gitee_merge [THEN conjunct2, THEN conjunct2]) (simp_all add: home_node_def office_node_def)

text \<open>
  A snippet's preshared keys are lost: the text that is stored after a merge is the same whatever
  preshared keys the nodes of the snippet had.
\<close>

lemma node_lines_psk [simp]: "node_lines (n\<lparr>gn_preshared_key := k\<rparr>) = node_lines n"
  by (simp add: node_lines_def)

theorem gitee_forgets_preshared_keys:
  "encode_nodes (map (\<lambda>n. n\<lparr>gn_preshared_key := f n\<rparr>) ns) = encode_nodes ns"
  by (simp add: encode_nodes_def comp_def)

end
