(* ===== verification/WgCommand.thy ===== *)
theory WgCommand
  imports WgGitee
begin

text \<open>
  cmd/wg/command.go: the subcommands of wg. The texts it prints are those of the source, in
  Chinese, by their bytes.
\<close>

definition utf8 :: "nat list \<Rightarrow> string" where
  "utf8 = map char_of"

definition wg_version :: string where
  "wg_version = ''v0.0.2''"

text \<open>\<open>versionText\<close>, with the build time and the platform of the build.\<close>

definition version_text :: "string \<Rightarrow> string \<Rightarrow> string \<Rightarrow> string" where
  "version_text build_time os arch =
     ''wireguard-tools '' @ wg_version @ '' - https://git.zx2c4.com/wireguard-tools/'' @ nl
     @ ''Build Time : '' @ (if build_time = [] then ''unknown'' else build_time) @ nl
     @ ''Platform   : '' @ os @ ''-'' @ arch @ nl"

definition usage :: string where
  "usage =
       utf8 [229, 143, 175, 231, 148, 168, 229, 173, 144, 229, 145, 189, 228, 187, 164] @ '':'' @ utf8 [10]
     @ ''  show: '' @ utf8 [230, 152, 190, 231, 164, 186, 229, 189, 147, 229, 137, 141, 233, 133, 141, 231, 189, 174, 229, 146, 140, 232, 174, 190, 229, 164, 135, 228, 191, 161, 230, 129, 175, 10]
     @ ''  showconf: '' @ utf8 [230, 152, 190, 231, 164, 186, 230, 140, 135, 229, 174, 154] @ '' WireGuard '' @ utf8 [230, 142, 165, 229, 143, 163, 231, 154, 132, 229, 189, 147, 229, 137, 141, 233, 133, 141, 231, 189, 174, 239, 188, 140, 228, 190, 155] @ '' '' @ utf8 [96] @ ''setconf'' @ utf8 [39] @ '' '' @ utf8 [228, 189, 191, 231, 148, 168, 10]
     @ ''  set: '' @ utf8 [228, 191, 174, 230, 148, 185, 229, 189, 147, 229, 137, 141, 233, 133, 141, 231, 189, 174, 227, 128, 129, 230, 183, 187, 229, 138, 160, 229, 175, 185, 231, 173, 137, 232, 138, 130, 231, 130, 185, 227, 128, 129, 231, 167, 187, 233, 153, 164, 229, 175, 185, 231, 173, 137, 232, 138, 130, 231, 130, 185, 230, 136, 150, 228, 191, 174, 230, 148, 185, 229, 175, 185, 231, 173, 137, 232, 138, 130, 231, 130, 185, 239, 188, 136, 229, 176, 154, 230, 156, 170, 229, 174, 158, 231, 142, 176, 239, 188, 137, 10]
     @ ''  setconf: '' @ utf8 [229, 176, 134, 233, 133, 141, 231, 189, 174, 230, 150, 135, 228, 187, 182, 229, 186, 148, 231, 148, 168, 229, 136, 176] @ '' WireGuard '' @ utf8 [230, 142, 165, 229, 143, 163, 10]
     @ ''  addconf: '' @ utf8 [229, 144, 145] @ '' WireGuard '' @ utf8 [230, 142, 165, 229, 143, 163, 232, 191, 189, 229, 138, 160, 233, 133, 141, 231, 189, 174, 230, 150, 135, 228, 187, 182, 10]
     @ ''  syncconf: '' @ utf8 [229, 176, 134, 233, 133, 141, 231, 189, 174, 230, 150, 135, 228, 187, 182, 229, 144, 140, 230, 173, 165, 229, 136, 176] @ '' WireGuard '' @ utf8 [230, 142, 165, 229, 143, 163, 10]
     @ ''  syncgitee: '' @ utf8 [229, 176, 134, 230, 142, 165, 229, 143, 163, 232, 138, 130, 231, 130, 185, 233, 133, 141, 231, 189, 174, 229, 144, 136, 229, 185, 182, 229, 144, 140, 230, 173, 165, 229, 136, 176] @ '' Gitee '' @ utf8 [228, 187, 163, 231, 160, 129, 231, 137, 135, 230, 174, 181, 10]
     @ ''  genkey: '' @ utf8 [231, 148, 159, 230, 136, 144, 230, 150, 176, 231, 154, 132, 231, 167, 129, 233, 146, 165, 229, 185, 182, 229, 134, 153, 229, 133, 165, 230, 160, 135, 229, 135, 134, 232, 190, 147, 229, 135, 186, 239, 188, 136, 229, 176, 154, 230, 156, 170, 229, 174, 158, 231, 142, 176, 239, 188, 137, 10]
     @ ''  genpsk: '' @ utf8 [231, 148, 159, 230, 136, 144, 230, 150, 176, 231, 154, 132, 233, 162, 132, 229, 133, 177, 228, 186, 171, 229, 175, 134, 233, 146, 165, 229, 185, 182, 229, 134, 153, 229, 133, 165, 230, 160, 135, 229, 135, 134, 232, 190, 147, 229, 135, 186, 239, 188, 136, 229, 176, 154, 230, 156, 170, 229, 174, 158, 231, 142, 176, 239, 188, 137, 10]
     @ ''  pubkey: '' @ utf8 [228, 187, 142, 230, 160, 135, 229, 135, 134, 232, 190, 147, 229, 133, 165, 232, 175, 187, 229, 143, 150, 231, 167, 129, 233, 146, 165, 229, 185, 182, 229, 176, 134, 229, 133, 172, 233, 146, 165, 229, 134, 153, 229, 133, 165, 230, 160, 135, 229, 135, 134, 232, 190, 147, 229, 135, 186, 239, 188, 136, 229, 176, 154, 230, 156, 170, 229, 174, 158, 231, 142, 176, 239, 188, 137, 10]
     @ utf8 [229, 184, 184, 231, 148, 168, 228, 190, 139, 229, 173, 144] @ '':'' @ utf8 [10]
     @ ''  wgc show                     # '' @ utf8 [230, 152, 190, 231, 164, 186, 229, 189, 147, 229, 137, 141, 233, 133, 141, 231, 189, 174, 229, 146, 140, 232, 174, 190, 229, 164, 135, 228, 191, 161, 230, 129, 175, 10]
     @ ''  wgc showconf wg0             # '' @ utf8 [230, 152, 190, 231, 164, 186] @ '' wg0 '' @ utf8 [230, 142, 165, 229, 143, 163, 231, 154, 132, 229, 189, 147, 229, 137, 141, 233, 133, 141, 231, 189, 174, 239, 188, 140, 228, 190, 155] @ '' '' @ utf8 [96] @ ''setconf'' @ utf8 [39] @ '' '' @ utf8 [228, 189, 191, 231, 148, 168, 10]
     @ ''  wgc setconf  wg0 wg0.conf    # '' @ utf8 [229, 176, 134] @ '' wg0.conf '' @ utf8 [233, 133, 141, 231, 189, 174, 230, 150, 135, 228, 187, 182, 229, 186, 148, 231, 148, 168, 229, 136, 176] @ '' wg0 '' @ utf8 [230, 142, 165, 229, 143, 163, 10]
     @ ''  wgc addconf  wg0 wg0.conf    # '' @ utf8 [229, 144, 145] @ '' wg0 '' @ utf8 [230, 142, 165, 229, 143, 163, 232, 191, 189, 229, 138, 160] @ '' wg0.conf '' @ utf8 [233, 133, 141, 231, 189, 174, 230, 150, 135, 228, 187, 182, 10]
     @ ''  wgc syncconf wg0 wg0.conf    # '' @ utf8 [229, 176, 134] @ '' wg0.conf '' @ utf8 [233, 133, 141, 231, 189, 174, 230, 150, 135, 228, 187, 182, 229, 144, 140, 230, 173, 165, 229, 136, 176] @ '' wg0 '' @ utf8 [230, 142, 165, 229, 143, 163, 10]
     @ ''  wgc --gitee_token token --gitee_gist_id id syncgitee wg0 ['' @ utf8 [230, 150, 135, 228, 187, 182, 229, 144, 141] @ ''] # '' @ utf8 [229, 136, 155, 229, 187, 186, 230, 136, 150, 229, 144, 136, 229, 185, 182, 229, 144, 140, 230, 173, 165] @ '' wg0 '' @ utf8 [232, 138, 130, 231, 130, 185, 233, 133, 141, 231, 189, 174, 10]"

text \<open>A command, and the commands by their names.\<close>

type_synonym 's command = "string list \<Rightarrow> 's \<times> fs \<Rightarrow> 's ran option"

definition unimplemented_command :: "'s command" where
  "unimplemented_command args st = Some (1, [], st)"

definition commands :: "'s gitee_env \<Rightarrow> (string \<times> 's command) list" where
  "commands env =
     [(''show'', \<lambda>args st. Some (show_cmd (ge_cmd env) args st)),
      (''showconf'', \<lambda>args st. Some (showconf_cmd (ge_cmd env) args st)),
      (''set'', unimplemented_command), (''setconf'', setconf_cmd (ge_cmd env)), (''addconf'', addconf (ge_cmd env)),
      (''syncconf'', syncconf (ge_cmd env)), (''syncgitee'', \<lambda>args st. Some (syncgitee env args st)),
      (''genkey'', unimplemented_command), (''genpsk'', unimplemented_command), (''pubkey'', unimplemented_command)]"

definition execute :: "'s gitee_env \<Rightarrow> string \<times> string \<times> string \<Rightarrow> 's command" where
  "execute env build args st =
     (case args of
        [] \<Rightarrow> Some (show_cmd (ge_cmd env) [] st)
      | c # rest \<Rightarrow>
          if rest = [] \<and> c = ''version'' then Some (0, case build of (t, os, arch) \<Rightarrow> version_text t os arch, st)
          else if rest = [] \<and> c = ''help'' then Some (0, usage, st)
          else case map_of (commands env) c of
            None \<Rightarrow> Some (1, [], st)
          | Some cmd \<Rightarrow> cmd rest st)"

section \<open>Properties\<close>

lemma with_client_files:
  assumes "\<And>c st. snd (snd (snd (body c st))) = snd st"
  shows "snd (snd (snd (with_client env body st))) = snd st"
proof (cases "ce_new_client env (fst st)")
  case (Pair r s)
  show ?thesis
  proof (cases r)
    case (Inr c)
    obtain rc out s' fs where "body c (s, snd st) = (rc, out, s', fs)" by (cases "body c (s, snd st)")
    then show ?thesis using assms [of c "(s, snd st)"] Pair Inr by (simp add: with_client_def)
  qed (simp add: with_client_def Pair)
qed

lemma show_files: "snd (snd (snd (show_cmd env args st))) = snd st"
  by (auto simp: show_cmd_def Let_def intro!: with_client_files split: sum.split prod.split)

lemma showconf_files: "snd (snd (snd (showconf_cmd env args st))) = snd st"
  by (auto simp: showconf_cmd_def intro!: with_client_files split: sum.split prod.split)

lemma gitee_files: "snd (snd (snd (syncgitee env args st))) = snd st"
  by (auto simp: syncgitee_def gitee_upload_def Let_def intro!: with_client_files split: sum.split prod.split)

definition keeps_files :: "'s command \<Rightarrow> bool" where
  "keeps_files cmd \<longleftrightarrow> (\<forall>args st. \<exists>rc out s. cmd args st = Some (rc, out, s, snd st))"

lemma keeps_filesI: "(\<And>args st. snd (snd (snd (f args st))) = snd st) \<Longrightarrow> keeps_files (\<lambda>args st. Some (f args st))"
  by (metis keeps_files_def prod.collapse)

lemma commands_keep_files:
  "list_all (\<lambda>(c, cmd). c \<in> set [''setconf'', ''addconf'', ''syncconf''] \<or> keeps_files cmd) (commands env)"
proof -
  have "keeps_files unimplemented_command" by (simp add: keeps_files_def unimplemented_command_def)
  moreover note keeps_filesI [OF show_files [of "ge_cmd env"]] keeps_filesI [OF showconf_files [of "ge_cmd env"]]
    keeps_filesI [OF gitee_files [of env]]
  ultimately show ?thesis by (simp add: commands_def)
qed

text \<open>
  C40. Only three commands write files: every other one, known or not, returns and leaves the files
  as they are.
\<close>

theorem execute_leaves_files:
  assumes "args = [] \<or> hd args \<notin> set [''setconf'', ''addconf'', ''syncconf'']"
  shows "\<exists>rc out s. execute env build args st = Some (rc, out, s, snd st)"
proof (cases args)
  case Nil
  then show ?thesis using show_files [of "ge_cmd env" "[]" st]
    by (cases "show_cmd (ge_cmd env) [] st") (simp add: execute_def)
next
  case (Cons c rest)
  then have c: "c \<notin> set [''setconf'', ''addconf'', ''syncconf'']" using assms by simp
  show ?thesis
  proof (cases "rest = [] \<and> (c = ''version'' \<or> c = ''help'')")
    case True
    then show ?thesis by (cases st) (auto simp: execute_def Cons)
  next
    case False
    then have run: "execute env build args st = (case map_of (commands env) c of None \<Rightarrow> Some (1, [], st) | Some cmd \<Rightarrow> cmd rest st)"
      by (cases "rest = []") (auto simp: execute_def Cons)
    show ?thesis
    proof (cases "map_of (commands env) c")
      case None
      then show ?thesis unfolding run by (cases st) simp
    next
      case (Some cmd)
      then have "keeps_files cmd" using commands_keep_files [of env] c unfolding list_all_iff by (blast dest: map_of_SomeD)
      then have "\<exists>rc out s. cmd rest st = Some (rc, out, s, snd st)" unfolding keeps_files_def by blast
      then show ?thesis unfolding run by (simp add: Some)
    qed
  qed
qed

definition sample_gitee :: "unit gitee_env" where
  "sample_gitee = \<lparr>ge_cmd = sample_cmd, ge_token = ''secret'', ge_gist_id = [], ge_base_url = ''https://gitee.com/api/v5'',
     ge_request = (\<lambda>rq s. (Inr (201, \<lparr>rd_data = json_text (JObj [(''id'', JStr ''abc'')]), rd_err = None\<rparr>), s)),
     ge_get = (\<lambda>_. Inl ErrNotExist), ge_hostname = Inr ''office'', ge_addresses = (\<lambda>_. Inr [''10.0.0.1/24'']),
     ge_base_mult = (\<lambda>k. k)\<rparr>"

theorem execute_leaves_files_witness:
  "\<exists>rc out s. execute sample_gitee ([], ''linux'', ''amd64'') [''show'', ''wg0''] ((), Map.empty) = Some (rc, out, s, snd ((), Map.empty))"
  by (rule execute_leaves_files) simp

end
