(* ===== verification/WgMain.thy ===== *)
theory WgMain
  imports WgCommand WgQuick
begin

text \<open>
  The main programs around the packages: cmd/wg-quick/main.go, and cmd/wgd/main.go up to the
  handler that it serves. Messages on standard error, the log, the self-update and the life of
  the HTTP server after its start are left out.
\<close>

section \<open>wg-quick\<close>

record 's quick_main_env =
  qm_os :: os_env
  qm_resolver :: resolver
  qm_quick :: "'s quick_env"

definition quick_usage :: string where
  "quick_usage =
     utf8 [231, 148, 168, 230, 179, 149] @ '': wg-quick [ up | down | strip | save ] <'' @ utf8 [233, 133, 141, 231, 189, 174, 230, 150, 135, 228, 187, 182] @ ''>'' @ utf8 [10, 10]
     @ ''  up    '' @ utf8 [230, 160, 185, 230, 141, 174, 233, 133, 141, 231, 189, 174, 230, 150, 135, 228, 187, 182, 229, 136, 155, 229, 187, 186, 229, 185, 182, 233, 133, 141, 231, 189, 174] @ '' WireGuard '' @ utf8 [230, 142, 165, 229, 143, 163, 10]
     @ ''  down  '' @ utf8 [230, 139, 134, 233, 153, 164, 230, 142, 165, 229, 143, 163, 239, 188, 136, 229, 156, 176, 229, 157, 128, 228, 184, 142, 232, 183, 175, 231, 148, 177, 233, 154, 143, 230, 142, 165, 229, 143, 163, 232, 135, 170, 229, 138, 168, 230, 184, 133, 231, 144, 134, 239, 188, 137, 10]
     @ ''  strip '' @ utf8 [232, 190, 147, 229, 135, 186, 229, 142, 187, 233, 153, 164, 231, 189, 145, 231, 187, 156, 229, 173, 151, 230, 174, 181, 229, 144, 142, 231, 154, 132] @ '' wg(8) setconf '' @ utf8 [233, 133, 141, 231, 189, 174, 10]
     @ ''  save  '' @ utf8 [230, 138, 138, 232, 174, 190, 229, 164, 135, 229, 189, 147, 229, 137, 141, 231, 154, 132, 229, 138, 160, 229, 175, 134, 233, 133, 141, 231, 189, 174, 229, 144, 136, 229, 185, 182, 229, 134, 153, 229, 155, 158, 233, 133, 141, 231, 189, 174, 230, 150, 135, 228, 187, 182, 10, 10]
     @ utf8 [230, 142, 165, 229, 143, 163, 229, 144, 141, 229, 143, 150, 232, 135, 170, 233, 133, 141, 231, 189, 174, 230, 150, 135, 228, 187, 182, 229, 144, 141, 239, 188, 136, 229, 142, 187, 230, 142, 137] @ '' .conf '' @ utf8 [229, 144, 142, 231, 188, 128, 239, 188, 137, 239, 188, 140, 228, 190, 139, 229, 166, 130] @ '' wg0.conf -> wg0'' @ utf8 [227, 128, 130, 10]"

text \<open>\<open>load\<close>: the interface has the name of the file without its extension.\<close>

definition quick_load :: "'s quick_main_env \<Rightarrow> string \<Rightarrow> fs \<Rightarrow> quick_config res" where
  "quick_load env path files =
     bind_res (os_open (qm_os env) path files) (\<lambda>r.
       bind_res (quick_parse (qm_resolver env) r) (\<lambda>c.
         Inr (c\<lparr>q_name := (let base = path_base path in trim_suffix base (path_ext base))\<rparr>)))"

definition quick_updown ::
  "'s quick_main_env \<Rightarrow> ('s quick_env \<Rightarrow> quick_config \<Rightarrow> 's \<Rightarrow> unit res \<times> 's) \<Rightarrow> string list \<Rightarrow> 's \<times> fs \<Rightarrow> 's ran" where
  "quick_updown env fn args st =
     (if length args \<noteq> 1 then (1, [], st)
      else case quick_load env (hd args) (snd st) of
        Inl e \<Rightarrow> (1, [], st)
      | Inr c \<Rightarrow>
          (case fn (qm_quick env) c (fst st) of
             (Inl e, s) \<Rightarrow> (1, [], s, snd st)
           | (Inr _, s) \<Rightarrow> (0, [], s, snd st)))"

definition quick_strip_cmd :: "'s quick_main_env \<Rightarrow> string list \<Rightarrow> 's \<times> fs \<Rightarrow> 's ran" where
  "quick_strip_cmd env args st =
     (if length args \<noteq> 1 then (1, [], st)
      else case quick_load env (hd args) (snd st) of
        Inl e \<Rightarrow> (1, [], st)
      | Inr c \<Rightarrow> (0, quick_strip c, st))"

definition quick_save_cmd :: "'s quick_main_env \<Rightarrow> string list \<Rightarrow> 's \<times> fs \<Rightarrow> 's ran" where
  "quick_save_cmd env args st =
     (if length args \<noteq> 1 then (1, [], st)
      else case quick_save (qm_os env) (qm_resolver env) (qe_client (qm_quick env)) (hd args) st of
        (Inl e, st') \<Rightarrow> (1, [], st')
      | (Inr _, st') \<Rightarrow> (0, [], st'))"

definition quick_run :: "'s quick_main_env \<Rightarrow> string list \<Rightarrow> 's \<times> fs \<Rightarrow> 's ran" where
  "quick_run env args st =
     (case args of
        [] \<Rightarrow> (1, [], st)
      | c # rest \<Rightarrow>
          if c = ''up'' then quick_updown env quick_up rest st
          else if c = ''down'' then quick_updown env quick_down rest st
          else if c = ''strip'' then quick_strip_cmd env rest st
          else if c = ''save'' then quick_save_cmd env rest st
          else if c = ''help'' \<or> c = ''-h'' \<or> c = ''--help'' then (0, quick_usage, st)
          else (1, [], st))"

section \<open>wgd\<close>

text \<open>\<open>base64.RawURLEncoding\<close>: the other alphabet, and no padding.\<close>

definition b64_raw_url :: "byte list \<Rightarrow> string" where
  "b64_raw_url b =
     map (\<lambda>c. if c = CHR ''+'' then CHR ''-'' else if c = CHR 0x2F then CHR ''_'' else c)
       (filter (\<lambda>c. c \<noteq> CHR ''='') (b64_encode b))"

text \<open>The flags, after parsing; the time of the build and its platform.\<close>

record wgd_flags =
  fl_metadata :: string
  fl_hide_keys :: bool
  fl_api_key :: string

definition generate_api_key :: "byte list res \<Rightarrow> string option" where
  "generate_api_key rand = (case rand of Inl e \<Rightarrow> None | Inr b \<Rightarrow> Some (b64_raw_url b))"

definition wgd_api_key :: "os_env \<Rightarrow> byte list res \<Rightarrow> string \<Rightarrow> string option" where
  "wgd_api_key env rand flag =
     (if flag \<noteq> [] then Some flag
      else if os_getenv env ''WGD_API_KEY'' \<noteq> [] then Some (os_getenv env ''WGD_API_KEY'')
      else generate_api_key rand)"

definition runtime_build_info :: "string \<Rightarrow> string \<Rightarrow> string \<Rightarrow> string \<times> string \<times> string" where
  "runtime_build_info build_time os arch =
     (''wgctrl-rest '' @ ''v0.0.2'', if build_time = [] then ''unknown'' else build_time, os @ ''-'' @ arch)"

datatype 's wgd_start = Crashed | Exited nat | Serves "'s server"

definition wgd_options :: "wgd_flags \<Rightarrow> string \<times> string \<times> string \<Rightarrow> string \<Rightarrow> 's option_fun list" where
  "wgd_options flags build key =
     (case build of (version, time, platform) \<Rightarrow>
        [version_option version, build_info_option time platform, api_key_option key]
        @ (if fl_hide_keys flags then [hide_keys_option] else []))"

text \<open>The devices are listed once, for the log.\<close>

definition wgd_main ::
  "os_env \<Rightarrow> byte list res \<Rightarrow> ('s \<Rightarrow> 's client res \<times> 's) \<Rightarrow> string \<times> string \<times> string \<Rightarrow> wgd_flags \<Rightarrow> 's \<Rightarrow> 's wgd_start \<times> 's" where
  "wgd_main env rand new_client build flags s =
     (case wgd_api_key env rand (fl_api_key flags) of
        None \<Rightarrow> (Crashed, s)
      | Some key \<Rightarrow>
          if length key < 16 then (Exited 2, s)
          else case new_client s of
            (Inl e, s1) \<Rightarrow> (Exited 1, s1)
          | (Inr c, s1) \<Rightarrow>
              (Serves (new_rest_server c (fl_metadata flags)
                 (wgd_options flags (case build of (t, os, arch) \<Rightarrow> runtime_build_info t os arch) key)),
               snd (cl_devices c s1)))"

section \<open>Properties\<close>

text \<open>
  C21. There is no unauthenticated start: whatever the flags, the environment and the random source,
  a server that wgd serves has a key of sixteen characters at least, and answers a request
  for anything but the two public paths, when it does not carry exactly this key, with status 401,
  having looked at nothing.
\<close>

theorem wgd_authenticates:
  assumes "wgd_main env rand new_client build flags s = (Serves sv, s')"
    and "rq_api_key r \<noteq> sv_api_key sv" and "rq_path r \<noteq> ''/autotest''" and "rq_path r \<noteq> ''/api/v1/health''"
  shows "16 \<le> length (sv_api_key sv) \<and> sv_hide_keys sv = fl_hide_keys flags
    \<and> (\<exists>resp. rs_status resp = 401 \<and> api_handler aenv sv r st = Some (resp, st))"
proof -
  obtain key where key: "wgd_api_key env rand (fl_api_key flags) = Some key" "16 \<le> length key"
    using assms(1) by (auto simp: wgd_main_def split: option.splits if_splits)
  have sv: "sv_api_key sv = key" "sv_hide_keys sv = fl_hide_keys flags"
    using assms(1) key by (auto simp: wgd_main_def wgd_options_def new_rest_server_def api_key_option_def version_option_def
        build_info_option_def hide_keys_option_def split: option.splits sum.splits prod.splits if_splits)
  have path: "rq_path (r\<lparr>rq_body := b\<rparr>) = rq_path r" for b by (simp add: rq_path_def)
  have "key \<noteq> []" using key(2) by auto
  then show ?thesis
    using assms(2-4) key(2) sv by (auto simp: api_handler_def with_auth_def path constant_time_eq_iff refuse_def write_error_def)
qed

definition sample_flags :: wgd_flags where
  "sample_flags = \<lparr>fl_metadata = ''/etc/wireguard'', fl_hide_keys = True, fl_api_key = []\<rparr>"

theorem wgd_authenticates_witness:
  "\<exists>sv. wgd_main no_faults (Inr (replicate 32 7)) (\<lambda>s. (Inr (fixed_client home_device), s)) ([], ''linux'', ''amd64'') sample_flags ()
        = (Serves sv, ())
     \<and> (\<exists>resp. rs_status resp = 401 \<and> api_handler sample_api_env sv sample_request ((), Map.empty) = Some (resp, (), Map.empty))"
proof -
  let ?key = "b64_raw_url (replicate 32 7)"
  have key: "16 \<le> length ?key" "?key \<noteq> ''guess''" by code_simp+
  have "wgd_api_key no_faults (Inr (replicate 32 7)) (fl_api_key sample_flags) = Some ?key"
    by (simp add: wgd_api_key_def sample_flags_def no_faults_def full_disk_def generate_api_key_def)
  then obtain sv where sv: "wgd_main no_faults (Inr (replicate 32 7)) (\<lambda>s. (Inr (fixed_client home_device), s)) ([], ''linux'', ''amd64'') sample_flags ()
        = (Serves sv, ())" "sv_api_key sv = ?key"
    using key(1) by (auto simp: wgd_main_def wgd_options_def new_rest_server_def api_key_option_def version_option_def
        build_info_option_def hide_keys_option_def runtime_build_info_def)
  have "rq_api_key sample_request \<noteq> sv_api_key sv" "rq_path sample_request \<noteq> ''/autotest''" "rq_path sample_request \<noteq> ''/api/v1/health''"
    using key(2) sv(2) by (simp add: sample_request_def) code_simp+
  from wgd_authenticates [OF sv(1) this] sv(1) show ?thesis by blast
qed

text \<open>
  C9. What wg-quick strips, wg setconf takes: for a configuration file of wg-quick that loads,
  \<open>wg-quick strip\<close> prints a text and exits with 0, and \<open>wg setconf\<close> on a file with that text sets
  the interface to exactly the private key, port, mark and peers of the configuration, with nothing
  of its addresses, DNS servers, table or hooks, and removes every other peer.
\<close>

theorem strip_then_setconf:
  assumes load: "quick_load qenv path files = Inr c" and c: "wf_quick (c\<lparr>q_addresses := []\<rparr>)" "\<forall>l \<in> set (strip_lines c). length l < max_line"
    and ev: "resolves (ce_endpoints env)"
    and open': "os_fault (ce_os env) OpOpen file = None" "os_fault (ce_os env) OpRead file = None"
  shows "\<exists>out. quick_run qenv [''strip'', path] (s, files) = (0, out, s, files)
    \<and> (\<forall>st. snd st file = Some (File out) \<longrightarrow>
          setconf_cmd env [iface, file] st = Some (conf_change env False iface ((setconf c)\<lparr>c_replace_peers := True\<rparr>) st))"
proof (intro exI conjI allI impI)
  have same: "quick_strip (c\<lparr>q_addresses := []\<rparr>) = quick_strip c" "strip_lines (c\<lparr>q_addresses := []\<rparr>) = strip_lines c"
      "setconf (c\<lparr>q_addresses := []\<rparr>) = setconf c"
    by (simp_all add: quick_strip_def strip_lines_def write_interface_crypto_def setconf_def)
  show "quick_run qenv [''strip'', path] (s, files) = (0, quick_strip c, s, files)"
    using load by (simp add: quick_run_def quick_strip_cmd_def)
  fix st :: "'b \<times> fs"
  assume st: "snd st file = Some (File (quick_strip c))"
  have "os_open (ce_os env) file (snd st) = Inr \<lparr>rd_data = quick_strip c, rd_err = None\<rparr>"
    using st open' by (simp add: os_open_def)
  then show "setconf_cmd env [iface, file] st = Some (conf_change env False iface ((setconf c)\<lparr>c_replace_peers := True\<rparr>) st)"
    using strip_setconf [OF c(1) ev, unfolded same, OF c(2)] by (simp add: setconf_cmd_def apply_conf_cmd_def is_help_def)
qed

definition sample_quick_main :: "unit quick_main_env" where
  "sample_quick_main = \<lparr>qm_os = no_faults, qm_resolver = ev_resolver sample_env,
     qm_quick = \<lparr>qe_run = (\<lambda>args stdin s. (Inr [], s)), qe_look_path = (\<lambda>_ _. False), qe_client = (\<lambda>_. Inr (fixed_client home_device))\<rparr>\<rparr>"

definition sample_quick_file :: fs where
  "sample_quick_file = [''wg0.conf'' \<mapsto> File (quick_encode quick_sample)]"

theorem strip_then_setconf_witness:
  "\<exists>c out. quick_run sample_quick_main [''strip'', ''wg0.conf''] ((), sample_quick_file) = (0, out, (), sample_quick_file)
    \<and> setconf_cmd sample_cmd [''wg0'', ''plain.conf''] ((), [''plain.conf'' \<mapsto> File out])
      = Some (conf_change sample_cmd False ''wg0'' ((setconf c)\<lparr>c_replace_peers := True\<rparr>) ((), [''plain.conf'' \<mapsto> File out]))"
proof -
  let ?c = "(quick16 quick_sample)\<lparr>q_name := ''wg0''\<rparr>"
  have base: "path_base ''wg0.conf'' = ''wg0.conf''" "trim_suffix ''wg0.conf'' (path_ext ''wg0.conf'') = ''wg0''" by code_simp+
  have "os_open (qm_os sample_quick_main) ''wg0.conf'' sample_quick_file = Inr \<lparr>rd_data = quick_encode quick_sample, rd_err = None\<rparr>"
    by (simp add: sample_quick_main_def sample_quick_file_def os_open_def no_faults_def)
  moreover have "quick_parse (qm_resolver sample_quick_main) \<lparr>rd_data = quick_encode quick_sample, rd_err = None\<rparr> = Inr (quick16 quick_sample)"
    using quick_sample_ok by (intro quick_round_trip) (simp_all only: list_all_iff)
  ultimately have load: "quick_load sample_quick_main ''wg0.conf'' sample_quick_file = Inr ?c"
    by (simp add: quick_load_def base)
  have c: "wf_quick (?c\<lparr>q_addresses := []\<rparr>)" "list_all (\<lambda>l. length l < max_line) (strip_lines ?c)" by code_simp+
  have ev: "resolves (ce_endpoints sample_cmd)" by code_simp
  have files: "os_fault (ce_os sample_cmd) OpOpen f = None" "os_fault (ce_os sample_cmd) OpRead f = None" for f
    by (simp_all add: sample_cmd_def no_faults_def)
  obtain out where "quick_run sample_quick_main [''strip'', ''wg0.conf''] ((), sample_quick_file) = (0, out, (), sample_quick_file)"
    "\<forall>st. snd st ''plain.conf'' = Some (File out) \<longrightarrow> setconf_cmd sample_cmd [''wg0'', ''plain.conf''] st
      = Some (conf_change sample_cmd False ''wg0'' ((setconf ?c)\<lparr>c_replace_peers := True\<rparr>) st)"
    using strip_then_setconf [OF load c(1) c(2) [unfolded list_all_iff] ev files(1) files(2), of _ _ "''wg0''"] by blast
  then show ?thesis by (intro exI [of _ ?c] exI [of _ out]) simp
qed

end
