(* ===== verification/GoMemory.thy ===== *)
theory GoMemory
  imports WgNetlink
begin

unbundle bit_operations_syntax

text \<open>
  Data without types and structures in memory, as the clients of the other systems handle them
  with the package unsafe: what a piece of code gives that may read outside of its buffer, fields
  at their offsets, and integers in little-endian order.
\<close>

section \<open>Runs\<close>

text \<open>
  A piece of code that handles untyped data returns, panics, or reads memory outside of what it
  was given, after which nothing is known.
\<close>

datatype 'a run = Returns 'a | Panics | Wild

fun bind_run :: "'a run \<Rightarrow> ('a \<Rightarrow> 'b run) \<Rightarrow> 'b run" where
  "bind_run (Returns x) f = f x"
| "bind_run Panics f = Panics"
| "bind_run Wild f = Wild"

fun map_run :: "('a \<Rightarrow> 'b run) \<Rightarrow> 'a list \<Rightarrow> 'b list run" where
  "map_run f [] = Returns []"
| "map_run f (x # xs) = bind_run (f x) (\<lambda>y. bind_run (map_run f xs) (\<lambda>ys. Returns (y # ys)))"

fun run_all :: "('a \<Rightarrow> bool) \<Rightarrow> 'a run \<Rightarrow> bool" where
  "run_all P (Returns x) = P x"
| "run_all P Panics = False"
| "run_all P Wild = False"

lemma map_run_all: "(\<And>x. x \<in> set xs \<Longrightarrow> f x = Returns (g x)) \<Longrightarrow> map_run f xs = Returns (map g xs)"
  by (induction xs) simp_all

lemma map_run_append: "map_run f (xs @ ys) = bind_run (map_run f xs) (\<lambda>as. bind_run (map_run f ys) (\<lambda>bs. Returns (as @ bs)))"
proof (induction xs)
  case (Cons x xs)
  then show ?case by (cases "f x"; cases "map_run f xs"; cases "map_run f ys") simp_all
qed (cases "map_run f ys"; simp)

lemma map_run_map_all: "(\<And>x. x \<in> set xs \<Longrightarrow> f (g x) = Returns (h x)) \<Longrightarrow> map_run f (map g xs) = Returns (map h xs)"
  by (induction xs) simp_all

section \<open>Fields\<close>

text \<open>A field of a structure in memory.\<close>

definition mem_read :: "byte list \<Rightarrow> nat \<Rightarrow> nat \<Rightarrow> byte list run" where
  "mem_read mem off n = (if off + n \<le> length mem then Returns (take n (drop off mem)) else Wild)"

definition field_at :: "byte list \<Rightarrow> nat \<Rightarrow> nat \<Rightarrow> byte list" where
  "field_at b off n = take n (drop off b)"

text \<open>A flag of a structure's first bytes.\<close>

definition has_flag :: "byte list \<Rightarrow> nat \<Rightarrow> bool" where
  "has_flag b k \<longleftrightarrow> bit (b ! 0) k"

text \<open>The flags that are set, by their bits.\<close>

definition flag_byte :: "(nat \<times> bool) list \<Rightarrow> nat" where
  "flag_byte fs = sum_list (map (\<lambda>(k, b). if b then 2 ^ k else 0) fs)"

section \<open>Integers\<close>

text \<open>The bytes of an integer in memory.\<close>

fun le_write :: "nat \<Rightarrow> nat \<Rightarrow> byte list" where
  "le_write 0 v = []"
| "le_write (Suc n) v = word_of_nat v # le_write n (v div 256)"

definition le_put :: "nat \<Rightarrow> int \<Rightarrow> byte list" where
  "le_put n i = le_write n (to_uint (8 * n) i)"

text \<open>A port in network order (\<open>htons\<close>, \<open>ntohs\<close>, \<open>bePort\<close>): the bytes of the port in memory are in network order.\<close>

definition net_port :: "int \<Rightarrow> byte list" where
  "net_port p = [word_of_nat (to_uint 16 p div 256), word_of_nat (to_uint 16 p mod 256)]"

definition port_of :: "byte list \<Rightarrow> int" where
  "port_of b = int (unat (b ! 0) * 256 + unat (b ! 1))"

lemma net_port_read: "0 \<le> p \<Longrightarrow> p \<le> 65535 \<Longrightarrow> port_of (net_port p) = p"
proof -
  assume p: "0 \<le> p" "p \<le> 65535"
  have "to_uint 16 p = nat p" using p by (simp add: to_uint_def)
  moreover have "nat p div 256 < 2 ^ 8" "nat p mod 256 < 2 ^ 8" using p by auto
  ultimately show ?thesis using p by (simp add: port_of_def net_port_def unat_of_nat)
qed

lemma net_port_length [simp]: "length (net_port p) = 2"
  by (simp add: net_port_def)

section \<open>Facts\<close>

lemma le_write_length [simp]: "length (le_write n v) = n"
  by (induction n arbitrary: v) simp_all

lemma le_put_length [simp]: "length (le_put n i) = n"
  by (simp add: le_put_def)

lemma le_nat_write: "le_nat (le_write n v) = v mod 256 ^ n"
proof (induction n arbitrary: v)
  case (Suc n)
  have "v mod 256 + 256 * (v div 256 mod 256 ^ n) = v mod (256 * 256 ^ n)"
    by (simp add: mod_mult2_eq)
  then show ?case by (simp add: Suc unat_of_nat)
qed simp

lemma le_put_nat: "0 \<le> i \<Longrightarrow> i < 2 ^ (8 * n) \<Longrightarrow> le_nat (le_put n i) = nat i"
proof -
  assume i: "0 \<le> i" "i < 2 ^ (8 * n)"
  have "(256 :: nat) ^ n = 2 ^ (8 * n)" by (simp add: power_mult)
  moreover have "to_uint (8 * n) i = nat i" using i by (simp add: to_uint_def)
  moreover have "nat i < 2 ^ (8 * n)" using i by (simp add: nat_less_iff)
  ultimately show ?thesis by (simp add: le_put_def le_nat_write)
qed

lemma le_put_uint: "le_nat (le_put n i) = to_uint (8 * n) i"
proof -
  have "(256 :: nat) ^ n = 2 ^ (8 * n)" by (simp add: power_mult)
  then show ?thesis by (simp add: le_put_def le_nat_write)
qed

lemma le_put_int:
  assumes "- (2 ^ (8 * n - 1)) \<le> i" and "i < 2 ^ (8 * n - 1)" and "0 < n"
  shows "le_int (le_put n i) = i"
proof -
  have p: "(2::int) ^ (8 * n) = 2 * 2 ^ (8 * n - 1)" using assms(3) by (simp flip: power_Suc)
  show ?thesis
  proof (cases "0 \<le> i")
    case True
    then have "i mod 2 ^ (8 * n) = i" using assms p by simp
    then show ?thesis using assms True by (simp add: le_int_def le_put_uint Let_def to_uint_def)
  next
    case False
    then have "i mod 2 ^ (8 * n) = i + 2 ^ (8 * n)" 
      using mod_pos_pos_trivial [of "i + 2 ^ (8 * n)" "2 ^ (8 * n)"] assms(1) p by simp
    then show ?thesis using assms False p by (simp add: le_int_def le_put_uint Let_def to_uint_def)
  qed
qed

lemma wrap64_le_put [simp]: "wrap64 (int (le_nat (le_put 8 i))) = wrap64 i"
  by (simp add: le_put_uint wrap64_def to_uint_def mod_simps)

lemma field_at_at: "length a = off \<Longrightarrow> length b = n \<Longrightarrow> field_at (a @ b @ c) off n = b"
  by (simp add: field_at_def)

lemma field_at_whole [simp]: "length b = n \<Longrightarrow> field_at b 0 n = b"
  by (simp add: field_at_def)

lemma mem_read_at: "length a = off \<Longrightarrow> length b = n \<Longrightarrow> mem_read (a @ b @ c) off n = Returns b"
  by (auto simp: mem_read_def)

lemma mem_read_inner: "off + n \<le> length b \<Longrightarrow> mem_read (a @ b @ c) (length a + off) n = Returns (field_at b off n)"
  by (simp add: mem_read_def field_at_def)

lemma concat_lengths: "(\<And>x. x \<in> set xs \<Longrightarrow> length (f x) = n) \<Longrightarrow> length (concat (map f xs)) = length xs * n"
  by (induction xs) simp_all

lemma flag_byte_bit_iff: "distinct (map fst fs) \<Longrightarrow> bit (flag_byte fs) k \<longleftrightarrow> (k, True) \<in> set fs"
proof (induction fs arbitrary: k)
  case Nil
  show ?case by (simp add: flag_byte_def)
next
  case (Cons f fs)
  obtain j b where f: "f = (j, b)" by (cases f)
  have IH: "bit (flag_byte fs) i \<longleftrightarrow> (i, True) \<in> set fs" for i using Cons by simp
  have j: "(j, True) \<notin> set fs" using Cons.prems by (auto simp: f rev_image_eqI)
  have sum: "flag_byte ((j, b) # fs) = (if b then 2 ^ j else 0) + flag_byte fs" by (simp add: flag_byte_def)
  have "(2 ^ j :: nat) AND flag_byte fs = 0"
    using j by (intro bit_eqI) (auto simp: bit_and_iff bit_exp_iff IH)
  then have "2 ^ j + flag_byte fs = (2 ^ j OR flag_byte fs)" by (rule disjunctive_add_eq_or)
  then show ?case by (auto simp: f sum IH bit_or_iff bit_exp_iff)
qed

lemma flag_bit: "distinct (map fst fs) \<Longrightarrow> k < 8 \<Longrightarrow> bit (word_of_nat (flag_byte fs) :: byte) k \<longleftrightarrow> (k, True) \<in> set fs"
  by (simp add: bit_of_nat_iff flag_byte_bit_iff)

end
