(* ===== verification/WgBsd.thy ===== *)
theory WgBsd
  imports GoMemory
begin

text \<open>
  What internal/wgfreebsd and internal/wgopenbsd share: they read a device with an ioctl that is
  repeated until the buffer is large enough, and list the devices of the interface group "wg".
\<close>

section \<open>Names\<close>

datatype bsd_errno = ENXIO | EINVAL | ENOTTY | OtherIoctl go_error

text \<open>The name of an interface in the sixteen bytes of an ioctl.\<close>

definition device_name16 :: "string \<Rightarrow> byte list res" where
  "device_name16 name =
     (if 16 < length name then Inl (ErrText ''interface name too long'')
      else Inr (bytes_of name @ replicate (16 - length name) 0))"

definition trim_nuls :: "byte list \<Rightarrow> string" where
  "trim_nuls b = map char_of_byte (rev (dropWhile (\<lambda>x. x = 0) (rev b)))"

section \<open>Reading with a buffer\<close>

text \<open>
  The ioctl gets the buffer and the size the structure held before, and gives the buffer and the
  size after it. The loop ends when the buffer was large enough; a size below \<open>least\<close> is an error.
\<close>

type_synonym 's sized_io = "byte list \<Rightarrow> nat \<Rightarrow> 's \<Rightarrow> (bsd_errno + byte list \<times> nat) \<times> 's"

partial_function (option) sized_read ::
  "'s sized_io \<Rightarrow> nat \<Rightarrow> byte list \<Rightarrow> nat \<Rightarrow> 's \<Rightarrow> ((bsd_errno + byte list res) \<times> 's) option" where
  "sized_read io least mem sz s =
     (case io mem sz s of
        (Inl e, s1) \<Rightarrow> Some (Inl e, s1)
      | (Inr (mem1, size1), s1) \<Rightarrow>
          if size1 \<le> length mem then Some (Inr (Inr mem1), s1)
          else if size1 < least then Some (Inr (Inl (ErrText ''unexpected number of bytes'')), s1)
          else sized_read io least (replicate size1 0) size1 s1)"

section \<open>All devices\<close>

text \<open>
  \<open>Devices\<close>: the size of the group first, then its names; the address of the first of no names
  is a panic. The device of each name follows.
\<close>

type_synonym 's group_io = "nat \<Rightarrow> 's \<Rightarrow> (bsd_errno + byte list \<times> nat) \<times> 's"

fun each_device :: "(string \<Rightarrow> 's \<Rightarrow> (device res run \<times> 's) option) \<Rightarrow> string list \<Rightarrow> 's \<Rightarrow> (device list res run \<times> 's) option" where
  "each_device dev [] s = Some (Returns (Inr []), s)"
| "each_device dev (n # ns) s =
     (case dev n s of
        None \<Rightarrow> None
      | Some (Returns (Inr d), s1) \<Rightarrow>
          (case each_device dev ns s1 of
             None \<Rightarrow> None
           | Some (r, s2) \<Rightarrow> Some (bind_run r (\<lambda>r. Returns (bind_res r (\<lambda>ds. Inr (d # ds)))), s2))
      | Some (Returns (Inl e), s1) \<Rightarrow> Some (Returns (Inl e), s1)
      | Some (Panics, s1) \<Rightarrow> Some (Panics, s1)
      | Some (Wild, s1) \<Rightarrow> Some (Wild, s1))"

definition chunk16 :: "nat \<Rightarrow> byte list \<Rightarrow> nat \<Rightarrow> byte list" where
  "chunk16 n b i = take 16 (drop (16 * i) b)"

definition bsd_devices ::
  "(bsd_errno \<Rightarrow> go_error) \<Rightarrow> 's group_io \<Rightarrow> (string \<Rightarrow> 's \<Rightarrow> (device res run \<times> 's) option) \<Rightarrow> 's \<Rightarrow> (device list res run \<times> 's) option" where
  "bsd_devices err io dev s =
     (case io 0 s of
        (Inl e, s1) \<Rightarrow> Some (Returns (Inl (err e)), s1)
      | (Inr (_, len), s1) \<Rightarrow>
          (let n = len div 16
           in if n = 0 then Some (Panics, s1)
              else case io n s1 of
                (Inl e, s2) \<Rightarrow> Some (Returns (Inl (err e)), s2)
              | (Inr (b, _), s2) \<Rightarrow> each_device dev (map (\<lambda>i. trim_nuls (chunk16 n b i)) [0..<n]) s2))"

definition bsd_ioctl_error :: "bsd_errno \<Rightarrow> go_error" where
  "bsd_ioctl_error e =
     (case e of ENXIO \<Rightarrow> ErrText ''ENXIO'' | EINVAL \<Rightarrow> ErrText ''EINVAL'' | ENOTTY \<Rightarrow> ErrText ''ENOTTY'' | OtherIoctl e \<Rightarrow> e)"

section \<open>What the kernel owes the loop\<close>

text \<open>
  A kernel whose device does not change while it is read: a buffer that is too small is left
  alone, one that is large enough gets the data; either way the size is reported.
\<close>

locale steady_kernel =
  fixes io :: "'s sized_io"
    and contents :: "'s \<Rightarrow> byte list"
  assumes too_small: "length mem < length (contents s) \<Longrightarrow> io mem sz s = (Inr (mem, length (contents s)), s)"
    and large_enough: "length (contents s) \<le> length mem \<Longrightarrow>
      io mem sz s = (Inr (contents s @ drop (length (contents s)) mem, length (contents s)), s)"
begin

lemma second_call: "length mem = length (contents s) \<Longrightarrow> io mem sz s = (Inr (contents s, length (contents s)), s)"
  by (simp add: large_enough)

text \<open>Two calls read the device.\<close>

lemma sized_read_contents:
  assumes "contents s \<noteq> []" and "least \<le> length (contents s)"
  shows "sized_read io least [] 0 s = Some (Inr (Inr (contents s)), s)"
proof -
  have "sized_read io least (replicate (length (contents s)) 0) (length (contents s)) s = Some (Inr (Inr (contents s)), s)"
    by (subst sized_read.simps) (simp add: second_call)
  then show ?thesis using assms by (subst sized_read.simps) (simp add: too_small)
qed

end

text \<open>The kernel that does just this.\<close>

definition steady_io :: "('s \<Rightarrow> byte list) \<Rightarrow> 's sized_io" where
  "steady_io contents mem sz s =
     (if length mem < length (contents s) then (Inr (mem, length (contents s)), s)
      else (Inr (contents s @ drop (length (contents s)) mem, length (contents s)), s))"

interpretation steady: steady_kernel "steady_io contents" contents for contents :: "'s \<Rightarrow> byte list"
  by unfold_locales (simp_all add: steady_io_def)

end
