(* ===== verification/WgFreeBSD.thy ===== *)
theory WgFreeBSD
  imports WgBsd
begin

text \<open>
  internal/wgfreebsd/client_freebsd.go and nv: the client of FreeBSD, which exchanges devices and
  configurations with the kernel as name-value lists. The packing of such a list into bytes is
  libnv's: a parameter.
\<close>

section \<open>Name-value lists\<close>

text \<open>\<open>nv.List\<close> is a map; its values are of the four types that \<open>marshal\<close> and \<open>unmarshal\<close> know.\<close>

datatype nv = NvBool bool | NvNum nat | NvBin "byte list" | NvLists "(string \<times> nv) list list"

type_synonym nvlist = "(string \<times> nv) list"

text \<open>The assertions \<open>v.(T)\<close>, which panic for another type.\<close>

fun as_num :: "nv \<Rightarrow> nat run" where
  "as_num (NvNum n) = Returns n"
| "as_num v = Panics"

fun as_bin :: "nv \<Rightarrow> byte list run" where
  "as_bin (NvBin b) = Returns b"
| "as_bin v = Panics"

fun as_lists :: "nv \<Rightarrow> nvlist list run" where
  "as_lists (NvLists ls) = Returns ls"
| "as_lists v = Panics"

text \<open>The conversion of a slice to \<open>*wgtypes.Key\<close> panics when it is too short.\<close>

definition as_key :: "nv \<Rightarrow> key run" where
  "as_key v = bind_run (as_bin v) (\<lambda>b. if length b < key_len then Panics else Returns (take key_len b))"

text \<open>\<open>if v, ok := m[k]; ok { ... }\<close>\<close>

definition if_present :: "nvlist \<Rightarrow> string \<Rightarrow> (nv \<Rightarrow> 'a \<Rightarrow> 'a run) \<Rightarrow> 'a \<Rightarrow> 'a run" where
  "if_present m k f x = (case map_of m k of None \<Rightarrow> Returns x | Some v \<Rightarrow> f v x)"

section \<open>Encoding\<close>

definition fb_AF_INET :: byte where
  "fb_AF_INET = 2"

definition fb_AF_INET6 :: byte where
  "fb_AF_INET6 = 28"

definition fb_unparse_endpoint :: "udp_addr \<Rightarrow> byte list" where
  "fb_unparse_endpoint a =
     (case to4 (ua_ip a) of
        Some v4 \<Rightarrow> [0, fb_AF_INET] @ net_port (ua_port a) @ v4 @ replicate 8 0
      | None \<Rightarrow>
          (case to16 (ua_ip a) of
             Some v6 \<Rightarrow> [0, fb_AF_INET6] @ net_port (ua_port a) @ replicate 4 0 @ v6 @ replicate 4 0
           | None \<Rightarrow> []))"

definition fb_unparse_allowed_ip :: "ip_net \<Rightarrow> allowed_ip_op \<Rightarrow> nvlist" where
  "fb_unparse_allowed_ip n op =
     (if op = AllowedIPRemove then [(''flags'', NvNum 1)] else [])
     @ [(''cidr'', NvNum (to_uint 64 (fst (mask_size (net_mask n)))))]
     @ (case to4 (net_ip n) of
          Some v4 \<Rightarrow> [(''ipv4'', NvBin v4)]
        | None \<Rightarrow> (case to16 (net_ip n) of Some v6 \<Rightarrow> [(''ipv6'', NvBin v6)] | None \<Rightarrow> []))"

definition fb_unparse_peer :: "peer_config \<Rightarrow> nvlist" where
  "fb_unparse_peer p =
     [(''public-key'', NvBin (pc_public_key p))]
     @ (case pc_preshared_key p of None \<Rightarrow> [] | Some k \<Rightarrow> [(''preshared-key'', NvBin k)])
     @ (case pc_keepalive p of None \<Rightarrow> [] | Some d \<Rightarrow> [(''persistent-keepalive-interval'', NvNum (to_uint 64 (int_seconds d)))])
     @ (case pc_endpoint p of None \<Rightarrow> [] | Some a \<Rightarrow> [(''endpoint'', NvBin (fb_unparse_endpoint a))])
     @ (if pc_replace_allowed_ips p then [(''replace-allowedips'', NvBool True)] else [])
     @ (if pc_remove p then [(''remove'', NvBool True)] else [])
     @ (if pc_allowed_ips p \<noteq> [] \<or> pc_allowed_ip_ops p \<noteq> [] then
          [(''allowed-ips'', NvLists (map (\<lambda>n. fb_unparse_allowed_ip n AllowedIPSet) (pc_allowed_ips p)
              @ map (\<lambda>a. fb_unparse_allowed_ip (aip_net a) (aip_op a)) (pc_allowed_ip_ops p)))]
        else [])"

definition fb_unparse_config :: "config \<Rightarrow> nvlist" where
  "fb_unparse_config c =
     (case c_private_key c of None \<Rightarrow> [] | Some k \<Rightarrow> [(''private-key'', NvBin k)])
     @ (case c_listen_port c of None \<Rightarrow> [] | Some p \<Rightarrow> [(''listen-port'', NvNum (to_uint 64 p))])
     @ (case c_firewall_mark c of None \<Rightarrow> [] | Some m \<Rightarrow> [(''user-cookie'', NvNum (to_uint 64 m))])
     @ (if c_replace_peers c then [(''replace-peers'', NvBool True)] else [])
     @ (if c_peers c \<noteq> [] then [(''peers'', NvLists (map fb_unparse_peer (c_peers c)))] else [])"

section \<open>Decoding\<close>

text \<open>A pointer to the structure is made of the slice's first byte; the slice may be shorter.\<close>

definition fb_parse_endpoint :: "byte list \<Rightarrow> udp_addr option run" where
  "fb_parse_endpoint b =
     (if b = [] then Panics
      else bind_run (mem_read b 1 1) (\<lambda>family.
        if hd family = fb_AF_INET then
          bind_run (mem_read b 2 2) (\<lambda>p. bind_run (mem_read b 4 4) (\<lambda>i.
            Returns (Some \<lparr>ua_ip = i, ua_port = port_of p, ua_zone = []\<rparr>)))
        else if hd family = fb_AF_INET6 then
          bind_run (mem_read b 2 2) (\<lambda>p. bind_run (mem_read b 8 16) (\<lambda>i.
            Returns (Some \<lparr>ua_ip = i, ua_port = port_of p, ua_zone = []\<rparr>)))
        else Returns None))"

definition fb_parse_allowed_ip :: "nvlist \<Rightarrow> ip_net run" where
  "fb_parse_allowed_ip m =
     bind_run (case map_of m ''cidr'' of None \<Rightarrow> Panics | Some v \<Rightarrow> as_num v) (\<lambda>n.
       let cidr = wrap64 (int n)
       in case map_of m ''ipv4'' of
            Some v \<Rightarrow> bind_run (as_bin v) (\<lambda>i. Returns \<lparr>net_ip = i, net_mask = cidr_mask cidr 32\<rparr>)
          | None \<Rightarrow>
              (case map_of m ''ipv6'' of
                 Some v \<Rightarrow> bind_run (as_bin v) (\<lambda>i. Returns \<lparr>net_ip = i, net_mask = cidr_mask cidr 128\<rparr>)
               | None \<Rightarrow> Panics))"

text \<open>\<open>binary.Read\<close> leaves its variable when there are not eight bytes more.\<close>

definition fb_parse_timestamp :: "byte list \<Rightarrow> go_time" where
  "fb_parse_timestamp b =
     (let secs = (if 8 \<le> length b then le_int (take 8 b) else 0);
          nsecs = (if 16 \<le> length b then le_int (take 8 (drop 8 b)) else 0)
      in if secs = 0 \<and> nsecs = 0 then zero_time else time_Unix secs nsecs)"

definition fb_parse_peer :: "nvlist \<Rightarrow> peer run" where
  "fb_parse_peer m =
     bind_run (if_present m ''public-key'' (\<lambda>v p. bind_run (as_key v) (\<lambda>k. Returns (p\<lparr>p_public_key := k\<rparr>)))
       (zero_peer\<lparr>p_protocol_version := 1\<rparr>)) (\<lambda>p.
     bind_run (if_present m ''preshared-key'' (\<lambda>v p. bind_run (as_key v)
       (\<lambda>k. Returns (p\<lparr>p_preshared_key := k, p_has_preshared_key := True\<rparr>))) p) (\<lambda>p.
     bind_run (if_present m ''last-handshake-time'' (\<lambda>v p. bind_run (as_bin v)
       (\<lambda>b. Returns (p\<lparr>p_last_handshake := fb_parse_timestamp b\<rparr>))) p) (\<lambda>p.
     bind_run (if_present m ''endpoint'' (\<lambda>v p. bind_run (as_bin v) (\<lambda>b. bind_run (fb_parse_endpoint b)
       (\<lambda>e. Returns (p\<lparr>p_endpoint := e, p_has_endpoint := True\<rparr>)))) p) (\<lambda>p.
     bind_run (if_present m ''persistent-keepalive-interval'' (\<lambda>v p. bind_run (as_num v)
       (\<lambda>n. Returns (p\<lparr>p_keepalive := wrap64 (second * wrap64 (int n)), p_has_keepalive := True\<rparr>))) p) (\<lambda>p.
     bind_run (if_present m ''rx-bytes'' (\<lambda>v p. bind_run (as_num v)
       (\<lambda>n. Returns (p\<lparr>p_receive_bytes := wrap64 (int n)\<rparr>))) p) (\<lambda>p.
     bind_run (if_present m ''tx-bytes'' (\<lambda>v p. bind_run (as_num v)
       (\<lambda>n. Returns (p\<lparr>p_transmit_bytes := wrap64 (int n)\<rparr>))) p) (\<lambda>p.
     if_present m ''allowed-ips'' (\<lambda>v p. bind_run (as_lists v) (\<lambda>ls. bind_run (map_run fb_parse_allowed_ip ls)
       (\<lambda>ns. Returns (p\<lparr>p_allowed_ips := p_allowed_ips p @ ns\<rparr>)))) p)))))))"

text \<open>The device of a list that has been unpacked.\<close>

definition fb_parse_list :: "nvlist \<Rightarrow> device run" where
  "fb_parse_list m =
     bind_run (if_present m ''public-key'' (\<lambda>v d. bind_run (as_key v)
       (\<lambda>k. Returns (d\<lparr>d_public_key := k, d_has_public_key := True\<rparr>))) (zero_device\<lparr>d_type := FreeBSDKernel\<rparr>)) (\<lambda>d.
     bind_run (if_present m ''private-key'' (\<lambda>v d. bind_run (as_key v)
       (\<lambda>k. Returns (d\<lparr>d_private_key := k, d_has_private_key := True\<rparr>))) d) (\<lambda>d.
     bind_run (if_present m ''user-cookie'' (\<lambda>v d. bind_run (as_num v)
       (\<lambda>n. Returns (d\<lparr>d_firewall_mark := wrap64 (int n), d_has_firewall_mark := True\<rparr>))) d) (\<lambda>d.
     bind_run (if_present m ''listen-port'' (\<lambda>v d. bind_run (as_num v)
       (\<lambda>n. Returns (d\<lparr>d_listen_port := wrap64 (int n), d_has_listen_port := True\<rparr>))) d) (\<lambda>d.
     if_present m ''peers'' (\<lambda>v d. bind_run (as_lists v) (\<lambda>ls. bind_run (map_run fb_parse_peer ls)
       (\<lambda>ps. Returns (d\<lparr>d_peers := d_peers d @ ps\<rparr>)))) d))))"

text \<open>
  libnv: packing, and unpacking, which gives nothing for bytes that are no list; the walk over
  no list aborts the program.
\<close>

record libnv =
  nv_pack :: "nvlist \<Rightarrow> byte list"
  nv_unpack :: "byte list \<Rightarrow> nvlist option"

definition fb_parse_device :: "libnv \<Rightarrow> byte list \<Rightarrow> device res run" where
  "fb_parse_device nv data =
     (if data = [] then Panics
      else case nv_unpack nv data of
        None \<Rightarrow> Panics
      | Some m \<Rightarrow> bind_run (fb_parse_list m) (\<lambda>d. Returns (Inr d)))"

section \<open>The client\<close>

text \<open>The two ioctls of devices, reading and setting, and that of groups, over the system's state.\<close>

record 's fb_client =
  fb_close :: "'s \<Rightarrow> unit res \<times> 's"
  fb_group :: "byte list \<Rightarrow> 's group_io"
  fb_get :: "byte list \<Rightarrow> 's sized_io"
  fb_set :: "byte list \<Rightarrow> byte list \<Rightarrow> 's \<Rightarrow> (bsd_errno + unit) \<times> 's"

definition fb_error :: "bsd_errno \<Rightarrow> go_error" where
  "fb_error e = (if e = ENXIO \<or> e = EINVAL then ErrNotExist else bsd_ioctl_error e)"

definition fb_device :: "libnv \<Rightarrow> 's fb_client \<Rightarrow> string \<Rightarrow> 's \<Rightarrow> (device res run \<times> 's) option" where
  "fb_device nv c name s =
     (case device_name16 name of
        Inl e \<Rightarrow> Some (Returns (Inl e), s)
      | Inr dname \<Rightarrow>
          (case sized_read (fb_get c dname) 0 [] 0 s of
             None \<Rightarrow> None
           | Some (Inl e, s1) \<Rightarrow> Some (Returns (Inl (fb_error e)), s1)
           | Some (Inr (Inl e), s1) \<Rightarrow> Some (Returns (Inl e), s1)
           | Some (Inr (Inr mem), s1) \<Rightarrow>
               Some (bind_run (fb_parse_device nv mem) (\<lambda>r. Returns (bind_res r (\<lambda>d. Inr (d\<lparr>d_name := name\<rparr>)))), s1)))"

definition fb_devices :: "libnv \<Rightarrow> 's fb_client \<Rightarrow> 's \<Rightarrow> (device list res run \<times> 's) option" where
  "fb_devices nv c s = bsd_devices bsd_ioctl_error (fb_group c (bytes_of ''wg'' @ replicate 14 0)) (fb_device nv c) s"

text \<open>The check of the peers that are only to be updated: one read of the device for each.\<close>

fun fb_check_update_only :: "libnv \<Rightarrow> 's fb_client \<Rightarrow> string \<Rightarrow> peer_config list \<Rightarrow> 's \<Rightarrow> (unit res run \<times> 's) option" where
  "fb_check_update_only nv c name [] s = Some (Returns (Inr ()), s)"
| "fb_check_update_only nv c name (p # ps) s =
     (if \<not> pc_update_only p then fb_check_update_only nv c name ps s
      else case fb_device nv c name s of
        None \<Rightarrow> None
      | Some (Returns r, s1) \<Rightarrow>
          if r \<noteq> Inl ErrNotExist then Some (Returns (Inl ErrUpdateOnlyNotSupported), s1)
          else fb_check_update_only nv c name ps s1
      | Some (Panics, s1) \<Rightarrow> Some (Panics, s1)
      | Some (Wild, s1) \<Rightarrow> Some (Wild, s1))"

definition fb_configure :: "libnv \<Rightarrow> 's fb_client \<Rightarrow> string \<Rightarrow> config \<Rightarrow> 's \<Rightarrow> (unit res run \<times> 's) option" where
  "fb_configure nv c name cfg s =
     (case fb_check_update_only nv c name (c_peers cfg) s of
        None \<Rightarrow> None
      | Some (Returns (Inr _), s1) \<Rightarrow>
          (let mem = nv_pack nv (fb_unparse_config cfg)
           in case device_name16 name of
                Inl e \<Rightarrow> Some (Returns (Inl e), s1)
              | Inr dname \<Rightarrow>
                  (case fb_set c dname mem s1 of
                     (Inl e, s2) \<Rightarrow> Some (Returns (Inl (fb_error e)), s2)
                   | (Inr _, s2) \<Rightarrow> Some (Returns (Inr ()), s2)))
      | Some (r, s1) \<Rightarrow> Some (r, s1))"

section \<open>Reading what was written\<close>

lemma map_of_opt [simp]: "map_of (case v of None \<Rightarrow> [] | Some x \<Rightarrow> [(k, g x)]) j = (if j = k then map_option g v else None)"
  by (cases v) auto

lemma map_of_if [simp]: "map_of (if b then [(k, x)] else []) j = (if j = k \<and> b then Some x else None)"
  by auto

lemma if_present_opt:
  assumes "map_of m k = map_option g v" and "opt_all (\<lambda>x. f (g x) y = Returns (h x y)) v"
  shows "if_present m k f y = Returns (case v of None \<Rightarrow> y | Some x \<Rightarrow> h x y)"
  using assms by (cases v) (simp_all add: if_present_def)

lemma if_present_None: "map_of m k = None \<Longrightarrow> if_present m k f y = Returns y"
  by (simp add: if_present_def)

lemma to4_length: "to4 i = Some v \<Longrightarrow> length v = 4"
  by (auto simp: to4_def split: if_splits)

lemma fb_endpoint_read:
  assumes "length (ua_ip a) = 4 \<or> length (ua_ip a) = 16" and "0 \<le> ua_port a" and "ua_port a \<le> 65535"
  shows "fb_parse_endpoint (fb_unparse_endpoint a) = Returns (Some \<lparr>ua_ip = short_ip (ua_ip a), ua_port = ua_port a, ua_zone = []\<rparr>)"
proof (cases "to4 (ua_ip a)")
  case (Some v4)
  then have "length v4 = 4" by (rule to4_length)
  then show ?thesis using Some net_port_read [OF assms(2,3)]
    by (simp add: fb_parse_endpoint_def fb_unparse_endpoint_def mem_read_def short_ip_def fb_AF_INET_def)
next
  case None
  then have "length (ua_ip a) = 16" using assms(1) by (auto simp: to4_def)
  then show ?thesis using None net_port_read [OF assms(2,3)]
    by (simp add: fb_parse_endpoint_def fb_unparse_endpoint_def mem_read_def short_ip_def fb_AF_INET_def fb_AF_INET6_def to16_def)
qed

lemma wrap64_to_uint [simp]: "wrap64 (int (to_uint 64 i)) = wrap64 i"
  by (simp add: wrap64_def to_uint_def mod_simps)

lemma fb_allowed_ip_read:
  assumes n: "canonical_net n"
  shows "fb_parse_allowed_ip (fb_unparse_allowed_ip n op) = Returns n"
proof -
  have len: "length (net_ip n) = 4 \<or> length (net_ip n) = 16 \<and> to4 (net_ip n) = None"
    and le: "net_len n \<le> 8 * length (net_ip n)"
    and mask: "net_mask n = mask_bytes (length (net_ip n)) (net_len n)"
    using n by (auto simp: canonical_net_def)
  have size: "fst (mask_size (net_mask n)) = int (net_len n)"
    using le len unfolding mask by (auto simp: mask_size_def)
  have cidr: "wrap64 (int (net_len n)) = int (net_len n)"
    using le len by (intro wrap64_id) auto
  have eta: "\<lparr>net_ip = net_ip n, net_mask = net_mask n\<rparr> = n" by (cases n) simp
  show ?thesis
  proof (cases "length (net_ip n) = 4")
    case True
    then have "to4 (net_ip n) = Some (net_ip n)" by (simp add: to4_def)
    moreover have "cidr_mask (int (net_len n)) 32 = net_mask n" using True le mask by (simp add: cidr_mask_nat)
    ultimately show ?thesis by (simp add: fb_parse_allowed_ip_def fb_unparse_allowed_ip_def size cidr eta)
  next
    case False
    then have "to4 (net_ip n) = None" "to16 (net_ip n) = Some (net_ip n)" using len by (auto simp: to16_def)
    moreover have "cidr_mask (int (net_len n)) 128 = net_mask n" using False len le mask by (auto simp: cidr_mask_nat)
    ultimately show ?thesis by (simp add: fb_parse_allowed_ip_def fb_unparse_allowed_ip_def size cidr eta)
  qed
qed

text \<open>What a peer or a device set from a configuration reads as.\<close>

definition fb_peer :: "peer_config \<Rightarrow> peer" where
  "fb_peer p = zero_peer
     \<lparr>p_public_key := pc_public_key p,
      p_preshared_key := (case pc_preshared_key p of None \<Rightarrow> zero_key | Some k \<Rightarrow> k),
      p_has_preshared_key := pc_preshared_key p \<noteq> None,
      p_endpoint := map_option (\<lambda>a. a\<lparr>ua_ip := short_ip (ua_ip a), ua_zone := []\<rparr>) (pc_endpoint p),
      p_has_endpoint := pc_endpoint p \<noteq> None,
      p_keepalive := (case pc_keepalive p of None \<Rightarrow> 0 | Some d \<Rightarrow> second * int_seconds d),
      p_has_keepalive := pc_keepalive p \<noteq> None,
      p_allowed_ips := pc_allowed_ips p @ map aip_net (pc_allowed_ip_ops p),
      p_protocol_version := 1\<rparr>"

definition fb_peer_ok :: "peer_config \<Rightarrow> bool" where
  "fb_peer_ok p \<longleftrightarrow> wf_key (pc_public_key p) \<and> opt_all wf_key (pc_preshared_key p)
     \<and> opt_all (\<lambda>a. (length (ua_ip a) = 4 \<or> length (ua_ip a) = 16) \<and> 0 \<le> ua_port a \<and> ua_port a \<le> 65535) (pc_endpoint p)
     \<and> opt_all (\<lambda>d. 0 \<le> d \<and> d < 2 ^ 63) (pc_keepalive p)
     \<and> list_all canonical_net (pc_allowed_ips p) \<and> list_all (\<lambda>a. canonical_net (aip_net a)) (pc_allowed_ip_ops p)"

lemma as_key_wf [simp]: "wf_key k \<Longrightarrow> as_key (NvBin k) = Returns k"
  by (simp add: as_key_def wf_key_def)

lemma fb_keepalive_read: "0 \<le> d \<Longrightarrow> d < 2 ^ 63 \<Longrightarrow> wrap64 (second * wrap64 (int_seconds d)) = second * int_seconds d"
  using int_seconds_bounds [of d] by (simp add: wrap64_id second_def mult.commute)

lemma fb_peer_lookup:
  "map_of (fb_unparse_peer p) ''public-key'' = Some (NvBin (pc_public_key p))"
  "map_of (fb_unparse_peer p) ''preshared-key'' = map_option NvBin (pc_preshared_key p)"
  "map_of (fb_unparse_peer p) ''last-handshake-time'' = None"
  "map_of (fb_unparse_peer p) ''endpoint'' = map_option (\<lambda>a. NvBin (fb_unparse_endpoint a)) (pc_endpoint p)"
  "map_of (fb_unparse_peer p) ''persistent-keepalive-interval'' = map_option (\<lambda>d. NvNum (to_uint 64 (int_seconds d))) (pc_keepalive p)"
  "map_of (fb_unparse_peer p) ''rx-bytes'' = None" "map_of (fb_unparse_peer p) ''tx-bytes'' = None"
  "map_of (fb_unparse_peer p) ''allowed-ips'' =
     (if pc_allowed_ips p \<noteq> [] \<or> pc_allowed_ip_ops p \<noteq> [] then
        Some (NvLists (map (\<lambda>n. fb_unparse_allowed_ip n AllowedIPSet) (pc_allowed_ips p)
              @ map (\<lambda>a. fb_unparse_allowed_ip (aip_net a) (aip_op a)) (pc_allowed_ip_ops p))) else None)"
  by (simp_all add: fb_unparse_peer_def map_add_def split: option.split)

lemma fb_allowed_ips_read:
  assumes "list_all canonical_net ns" and "list_all (\<lambda>a. canonical_net (aip_net a)) ops"
  shows "map_run fb_parse_allowed_ip (map (\<lambda>n. fb_unparse_allowed_ip n AllowedIPSet) ns
     @ map (\<lambda>a. fb_unparse_allowed_ip (aip_net a) (aip_op a)) ops) = Returns (ns @ map aip_net ops)"
proof -
  have "map_run fb_parse_allowed_ip (map (\<lambda>n. fb_unparse_allowed_ip n AllowedIPSet) ns) = Returns (map (\<lambda>n. n) ns)"
    using assms(1) by (intro map_run_map_all) (simp add: list_all_iff fb_allowed_ip_read)
  moreover have "map_run fb_parse_allowed_ip (map (\<lambda>a. fb_unparse_allowed_ip (aip_net a) (aip_op a)) ops) = Returns (map aip_net ops)"
    using assms(2) by (intro map_run_map_all) (simp add: list_all_iff fb_allowed_ip_read)
  ultimately show ?thesis by (simp add: map_run_append)
qed

lemma fb_peer_read:
  assumes p: "fb_peer_ok p"
  shows "fb_parse_peer (fb_unparse_peer p) = Returns (fb_peer p)"
proof -
  have nets: "list_all canonical_net (pc_allowed_ips p)" "list_all (\<lambda>a. canonical_net (aip_net a)) (pc_allowed_ip_ops p)"
    and pk: "wf_key (pc_public_key p)" and psk: "opt_all wf_key (pc_preshared_key p)"
    and ka: "opt_all (\<lambda>d. 0 \<le> d \<and> d < 2 ^ 63) (pc_keepalive p)"
    and ep: "opt_all (\<lambda>a. (length (ua_ip a) = 4 \<or> length (ua_ip a) = 16) \<and> 0 \<le> ua_port a \<and> ua_port a \<le> 65535) (pc_endpoint p)"
    using p by (simp_all add: fb_peer_ok_def)
  show ?thesis
    using pk psk ka ep fb_allowed_ips_read [OF nets]
    by (cases "pc_preshared_key p"; cases "pc_keepalive p"; cases "pc_endpoint p")
      (simp_all add: fb_parse_peer_def if_present_def fb_peer_lookup fb_keepalive_read fb_endpoint_read fb_peer_def zero_peer_def)
qed

definition fb_set_device :: "string \<Rightarrow> config \<Rightarrow> device" where
  "fb_set_device name c = zero_device
     \<lparr>d_name := name, d_type := FreeBSDKernel,
      d_private_key := (case c_private_key c of None \<Rightarrow> zero_key | Some k \<Rightarrow> k),
      d_has_private_key := c_private_key c \<noteq> None,
      d_listen_port := (case c_listen_port c of None \<Rightarrow> 0 | Some p \<Rightarrow> p),
      d_has_listen_port := c_listen_port c \<noteq> None,
      d_firewall_mark := (case c_firewall_mark c of None \<Rightarrow> 0 | Some m \<Rightarrow> m),
      d_has_firewall_mark := c_firewall_mark c \<noteq> None,
      d_peers := map fb_peer (c_peers c)\<rparr>"

definition fb_config_ok :: "config \<Rightarrow> bool" where
  "fb_config_ok c \<longleftrightarrow> opt_all wf_key (c_private_key c) \<and> list_all fb_peer_ok (c_peers c)
     \<and> opt_all (\<lambda>p. - (2 ^ 63) \<le> p \<and> p < 2 ^ 63) (c_listen_port c)
     \<and> opt_all (\<lambda>m. - (2 ^ 63) \<le> m \<and> m < 2 ^ 63) (c_firewall_mark c)"

lemma fb_config_lookup:
  "map_of (fb_unparse_config c) ''public-key'' = None"
  "map_of (fb_unparse_config c) ''private-key'' = map_option NvBin (c_private_key c)"
  "map_of (fb_unparse_config c) ''user-cookie'' = map_option (\<lambda>m. NvNum (to_uint 64 m)) (c_firewall_mark c)"
  "map_of (fb_unparse_config c) ''listen-port'' = map_option (\<lambda>p. NvNum (to_uint 64 p)) (c_listen_port c)"
  "map_of (fb_unparse_config c) ''peers'' = (if c_peers c \<noteq> [] then Some (NvLists (map fb_unparse_peer (c_peers c))) else None)"
  by (simp_all add: fb_unparse_config_def map_add_def split: option.split)

lemma fb_config_read:
  assumes c: "fb_config_ok c"
  shows "fb_parse_list (fb_unparse_config c) = Returns (fb_set_device [] c)"
proof -
  have key: "opt_all wf_key (c_private_key c)" and peers: "list_all fb_peer_ok (c_peers c)"
    and port: "opt_all (\<lambda>p. - (2 ^ 63) \<le> p \<and> p < 2 ^ 63) (c_listen_port c)"
    and mark: "opt_all (\<lambda>m. - (2 ^ 63) \<le> m \<and> m < 2 ^ 63) (c_firewall_mark c)"
    using c by (simp_all add: fb_config_ok_def)
  have "map_run fb_parse_peer (map fb_unparse_peer (c_peers c)) = Returns (map fb_peer (c_peers c))"
    using peers by (intro map_run_map_all) (simp add: list_all_iff fb_peer_read)
  then show ?thesis
    using key port mark
    by (cases "c_private_key c"; cases "c_listen_port c"; cases "c_firewall_mark c")
      (simp_all add: fb_parse_list_def if_present_def fb_config_lookup fb_set_device_def zero_device_def)
qed


definition fb_sample_config :: config where
  "fb_sample_config = \<lparr>c_private_key = Some (replicate 32 1), c_listen_port = Some 51820, c_firewall_mark = Some 7,
     c_replace_peers = True,
     c_peers = [zero_peer_config\<lparr>pc_public_key := replicate 32 2, pc_preshared_key := Some (replicate 32 3),
       pc_endpoint := Some \<lparr>ua_ip = [192, 0, 2, 1], ua_port = 7, ua_zone = []\<rparr>, pc_keepalive := Some (25 * second),
       pc_allowed_ips := [\<lparr>net_ip = [10, 0, 0, 0], net_mask = [255, 0, 0, 0]\<rparr>]\<rparr>]\<rparr>"

text \<open>A libnv that packs this one list, and a kernel that holds it.\<close>

definition fb_sample_nv :: libnv where
  "fb_sample_nv = \<lparr>nv_pack = (\<lambda>m. replicate 100 1), nv_unpack = (\<lambda>b. Some (fb_unparse_config fb_sample_config))\<rparr>"

definition fb_sample :: "unit fb_client" where
  "fb_sample = \<lparr>fb_close = (\<lambda>s. (Inr (), s)), fb_group = (\<lambda>_ _ s. (Inl ENXIO, s)),
     fb_get = (\<lambda>_. steady_io (\<lambda>_. replicate 100 1)), fb_set = (\<lambda>_ _ s. (Inr (), s))\<rparr>"


lemma fb_check_update_only_keeps:
  assumes "fb_device nv c name s = Some (Returns r, s)" and "r \<noteq> Inl ErrNotExist"
  shows "fb_check_update_only nv c name ps s =
    Some (Returns (if list_ex pc_update_only ps then Inl ErrUpdateOnlyNotSupported else Inr ()), s)"
  using assms by (induction ps) auto

text \<open>
  A configuration with a peer that is only to be updated is refused on FreeBSD before anything
  is set, for every device that can be read.
\<close>

theorem freebsd_update_only:
  assumes "fb_device nv c name s = Some (Returns (Inr d), s)" and "list_ex pc_update_only (c_peers cfg)"
  shows "fb_configure nv c name cfg s = Some (Returns (Inl ErrUpdateOnlyNotSupported), s)"
  using fb_check_update_only_keeps [OF assms(1), of "c_peers cfg"] assms(2) by (simp add: fb_configure_def)

text \<open>
  A kernel that reports no size at all, for a device it has just been asked for, makes the
  client panic: the empty buffer counts as large enough and its first byte is taken.
\<close>

theorem freebsd_empty_panics:
  assumes "\<And>mem sz. fb_get c (bytes_of name @ replicate (16 - length name) 0) mem sz s = (Inr (mem, 0), s)"
    and "length name \<le> 16"
  shows "fb_device nv c name s = Some (Panics, s)"
  using assms by (simp add: fb_device_def device_name16_def sized_read.simps fb_parse_device_def)

end
