(* ===== verification/WgOpenBSD.thy ===== *)
theory WgOpenBSD
  imports WgBsd
begin

text \<open>
  internal/wgopenbsd/client_openbsd.go: the client of OpenBSD, which reads the structures that the
  kernel wrote one behind the other into a buffer. Offsets and sizes are those of
  internal/wgh/defs_openbsd_amd64.go; a read past the buffer is \<open>Wild\<close>.
\<close>

section \<open>Structures in memory\<close>

definition ob_AF_INET :: byte where
  "ob_AF_INET = 2"

definition ob_AF_INET6 :: byte where
  "ob_AF_INET6 = 24"

definition sizeof_interface_io :: nat where
  "sizeof_interface_io = 80"

definition sizeof_peer_io :: nat where
  "sizeof_peer_io = 144"

definition sizeof_aip_io :: nat where
  "sizeof_aip_io = 24"

definition WG_HAS_PUBLIC :: nat where "WG_HAS_PUBLIC = 0"
definition WG_INTERFACE_HAS_PRIVATE :: nat where "WG_INTERFACE_HAS_PRIVATE = 1"
definition WG_INTERFACE_HAS_PORT :: nat where "WG_INTERFACE_HAS_PORT = 2"
definition WG_INTERFACE_HAS_RTABLE :: nat where "WG_INTERFACE_HAS_RTABLE = 3"
definition WG_PEER_HAS_PSK :: nat where "WG_PEER_HAS_PSK = 1"
definition WG_PEER_HAS_PKA :: nat where "WG_PEER_HAS_PKA = 2"
definition WG_PEER_HAS_ENDPOINT :: nat where "WG_PEER_HAS_ENDPOINT = 3"

lemmas ob_constants = ob_AF_INET_def ob_AF_INET6_def sizeof_interface_io_def sizeof_peer_io_def sizeof_aip_io_def
  WG_HAS_PUBLIC_def WG_INTERFACE_HAS_PRIVATE_def WG_INTERFACE_HAS_PORT_def WG_INTERFACE_HAS_RTABLE_def
  WG_PEER_HAS_PSK_def WG_PEER_HAS_PKA_def WG_PEER_HAS_ENDPOINT_def

text \<open>\<open>make([]T, 0, n)\<close> panics when the elements would not fit into the address space.\<close>

definition make_fits :: "nat \<Rightarrow> nat \<Rightarrow> bool" where
  "make_fits bytes n \<longleftrightarrow> bytes * n \<le> 2 ^ 48"

section \<open>Parsing\<close>

definition ob_parse_endpoint :: "byte list \<Rightarrow> udp_addr option" where
  "ob_parse_endpoint ep =
     (if ep ! 1 = ob_AF_INET then Some \<lparr>ua_ip = field_at ep 4 4, ua_port = port_of (field_at ep 2 2), ua_zone = []\<rparr>
      else if ep ! 1 = ob_AF_INET6 then Some \<lparr>ua_ip = field_at ep 8 16, ua_port = port_of (field_at ep 2 2), ua_zone = []\<rparr>
      else None)"

definition ob_parse_allowed_ip :: "byte list \<Rightarrow> nat \<Rightarrow> ip_net run" where
  "ob_parse_allowed_ip mem off =
     bind_run (mem_read mem off 1) (\<lambda>af.
       if hd af = ob_AF_INET then
         bind_run (mem_read mem (off + 4) 4) (\<lambda>cidr. bind_run (mem_read mem (off + 8) 4) (\<lambda>addr.
           Returns \<lparr>net_ip = addr, net_mask = cidr_mask (le_int cidr) 32\<rparr>))
       else if hd af = ob_AF_INET6 then
         bind_run (mem_read mem (off + 4) 4) (\<lambda>cidr. bind_run (mem_read mem (off + 8) 16) (\<lambda>addr.
           Returns \<lparr>net_ip = addr, net_mask = cidr_mask (le_int cidr) 128\<rparr>))
       else Panics)"

definition ob_handshake :: "int \<Rightarrow> int \<Rightarrow> go_time" where
  "ob_handshake sec nsec = (if 0 < sec \<and> 0 < nsec then time_Unix sec nsec else zero_time)"

text \<open>\<open>parsePeer\<close>, from the 144 bytes of a \<open>WGPeerIO\<close>.\<close>

definition ob_parse_peer :: "byte list \<Rightarrow> peer" where
  "ob_parse_peer b =
     (let p = zero_peer\<lparr>p_receive_bytes := wrap64 (int (le_nat (field_at b 112 8))),
                p_transmit_bytes := wrap64 (int (le_nat (field_at b 104 8))),
                p_protocol_version := le_int (field_at b 4 4),
                p_last_handshake := ob_handshake (le_int (field_at b 120 8)) (le_int (field_at b 128 8))\<rparr>;
          p = (if has_flag b WG_HAS_PUBLIC then p\<lparr>p_public_key := field_at b 8 32\<rparr> else p);
          p = (if has_flag b WG_PEER_HAS_PSK then p\<lparr>p_preshared_key := field_at b 40 32, p_has_preshared_key := True\<rparr> else p);
          p = (if has_flag b WG_PEER_HAS_PKA then p\<lparr>p_keepalive := int (le_nat (field_at b 72 2)) * second, p_has_keepalive := True\<rparr> else p)
      in if has_flag b WG_PEER_HAS_ENDPOINT then p\<lparr>p_endpoint := ob_parse_endpoint (field_at b 76 28), p_has_endpoint := True\<rparr> else p)"

text \<open>The loops of \<open>parseDevice\<close>. A Peer has 184 bytes and an IPNet 48.\<close>

definition ob_allowed_ips :: "byte list \<Rightarrow> nat \<Rightarrow> nat \<Rightarrow> ip_net list run" where
  "ob_allowed_ips mem off n = map_run (\<lambda>j. ob_parse_allowed_ip mem (off + j * sizeof_aip_io)) [0..<n]"

fun ob_peers :: "byte list \<Rightarrow> nat \<Rightarrow> nat \<Rightarrow> peer list run" where
  "ob_peers mem 0 off = Returns []"
| "ob_peers mem (Suc n) off =
     bind_run (mem_read mem off sizeof_peer_io) (\<lambda>b.
       let k = le_nat (field_at b 136 8)
       in if \<not> make_fits 48 k then Panics
          else bind_run (ob_allowed_ips mem (off + sizeof_peer_io) k) (\<lambda>ns.
            bind_run (ob_peers mem n (off + sizeof_peer_io + k * sizeof_aip_io)) (\<lambda>ps.
              Returns ((ob_parse_peer b)\<lparr>p_allowed_ips := ns\<rparr> # ps))))"

text \<open>No structure at all is the nil pointer.\<close>

definition ob_parse_device :: "string \<Rightarrow> byte list \<Rightarrow> device run" where
  "ob_parse_device name mem =
     (if mem = [] then Panics
      else bind_run (mem_read mem 0 sizeof_interface_io) (\<lambda>b.
        let d = zero_device\<lparr>d_name := name, d_type := OpenBSDKernel\<rparr>;
            d = (if has_flag b WG_INTERFACE_HAS_PRIVATE then d\<lparr>d_private_key := field_at b 40 32, d_has_private_key := True\<rparr> else d);
            d = (if has_flag b WG_HAS_PUBLIC then d\<lparr>d_public_key := field_at b 8 32, d_has_public_key := True\<rparr> else d);
            d = (if has_flag b WG_INTERFACE_HAS_PORT then d\<lparr>d_listen_port := int (le_nat (field_at b 2 2)), d_has_listen_port := True\<rparr> else d);
            d = (if has_flag b WG_INTERFACE_HAS_RTABLE then d\<lparr>d_firewall_mark := le_int (field_at b 4 4), d_has_firewall_mark := True\<rparr> else d);
            n = le_nat (field_at b 72 8)
        in if \<not> make_fits 184 n then Panics
           else if n = 0 then Returns d
           else bind_run (ob_peers mem n sizeof_interface_io) (\<lambda>ps. Returns (d\<lparr>d_peers := ps\<rparr>))))"

section \<open>The client\<close>

text \<open>The ioctl of groups and that of devices, over the system's state.\<close>

record 's ob_client =
  ob_close :: "'s \<Rightarrow> unit res \<times> 's"
  ob_group :: "byte list \<Rightarrow> 's group_io"
  ob_get :: "byte list \<Rightarrow> 's sized_io"

definition ob_error :: "bsd_errno \<Rightarrow> go_error" where
  "ob_error e = (if e = ENXIO \<or> e = ENOTTY then ErrNotExist else bsd_ioctl_error e)"

definition ob_device :: "'s ob_client \<Rightarrow> string \<Rightarrow> 's \<Rightarrow> (device res run \<times> 's) option" where
  "ob_device c name s =
     (case device_name16 name of
        Inl e \<Rightarrow> Some (Returns (Inl e), s)
      | Inr dname \<Rightarrow>
          (case sized_read (ob_get c dname) sizeof_interface_io [] 0 s of
             None \<Rightarrow> None
           | Some (Inl e, s1) \<Rightarrow> Some (Returns (Inl (ob_error e)), s1)
           | Some (Inr (Inl e), s1) \<Rightarrow> Some (Returns (Inl e), s1)
           | Some (Inr (Inr mem), s1) \<Rightarrow> Some (bind_run (ob_parse_device name mem) (\<lambda>d. Returns (Inr d)), s1)))"

definition ob_devices :: "'s ob_client \<Rightarrow> 's \<Rightarrow> (device list res run \<times> 's) option" where
  "ob_devices c s = bsd_devices bsd_ioctl_error (ob_group c (bytes_of ''wg'' @ replicate 14 0)) (ob_device c) s"

text \<open>\<open>ConfigureDevice\<close>: devices are read-only.\<close>

definition ob_configure :: "'s ob_client \<Rightarrow> string \<Rightarrow> config \<Rightarrow> 's \<Rightarrow> (unit res run \<times> 's) option" where
  "ob_configure c name cfg s =
     map_option (apfst (\<lambda>r. bind_run r (\<lambda>d. Returns (bind_res d (\<lambda>_. Inl ErrReadOnly))))) (ob_device c name s)"

section \<open>The kernel's layout\<close>

text \<open>What the kernel writes for a device: structures with zero padding, little-endian.\<close>

definition ob_endpoint_layout :: "udp_addr option \<Rightarrow> byte list" where
  "ob_endpoint_layout e =
     (case e of
        None \<Rightarrow> replicate 28 0
      | Some a \<Rightarrow>
          if length (ua_ip a) = 4 then [16, ob_AF_INET] @ net_port (ua_port a) @ ua_ip a @ replicate 20 0
          else [28, ob_AF_INET6] @ net_port (ua_port a) @ replicate 4 0 @ ua_ip a @ replicate 4 0)"

definition ob_aip_layout :: "ip_net \<Rightarrow> byte list" where
  "ob_aip_layout n =
     (if length (net_ip n) = 4 then [ob_AF_INET, 0, 0, 0] @ le_put 4 (int (net_len n)) @ net_ip n @ replicate 12 0
      else [ob_AF_INET6, 0, 0, 0] @ le_put 4 (int (net_len n)) @ net_ip n)"

definition ob_peer_layout :: "peer \<Rightarrow> byte list" where
  "ob_peer_layout p =
     (let t = p_last_handshake p; unset = (t = zero_time)
      in [word_of_nat (flag_byte [(0, True), (1, p_has_preshared_key p), (2, p_has_keepalive p), (3, p_has_endpoint p)]), 0, 0, 0]
         @ le_put 4 (p_protocol_version p) @ p_public_key p @ p_preshared_key p @ le_put 2 (p_keepalive p div second) @ [0, 0]
         @ ob_endpoint_layout (p_endpoint p) @ le_put 8 (p_transmit_bytes p) @ le_put 8 (p_receive_bytes p)
         @ le_put 8 (if unset then 0 else time_unix_seconds t) @ le_put 8 (if unset then 0 else snd t)
         @ le_put 8 (int (length (p_allowed_ips p))))"

definition ob_header :: "device \<Rightarrow> byte list" where
  "ob_header d =
     [word_of_nat (flag_byte [(0, d_has_public_key d), (1, d_has_private_key d), (2, d_has_listen_port d), (3, d_has_firewall_mark d)]), 0]
       @ le_put 2 (d_listen_port d) @ le_put 4 (d_firewall_mark d) @ d_public_key d @ d_private_key d
       @ le_put 8 (int (length (d_peers d)))"

definition ob_layout :: "device \<Rightarrow> byte list" where
  "ob_layout d = ob_header d @ concat (map (\<lambda>p. ob_peer_layout p @ concat (map ob_aip_layout (p_allowed_ips p))) (d_peers d))"

lemma flag_byte_bit:
  "bit (word_of_nat (flag_byte [(0, a), (1, b), (2, c), (3, d)]) :: byte) 0 = a"
  "bit (word_of_nat (flag_byte [(0, a), (1, b), (2, c), (3, d)]) :: byte) 1 = b"
  "bit (word_of_nat (flag_byte [(0, a), (1, b), (2, c), (3, d)]) :: byte) 2 = c"
  "bit (word_of_nat (flag_byte [(0, a), (1, b), (2, c), (3, d)]) :: byte) 3 = d"
  by (subst flag_bit; auto)+

lemma ob_aip_length: "canonical_net n \<Longrightarrow> length (ob_aip_layout n) = sizeof_aip_io"
  by (auto simp: ob_aip_layout_def canonical_net_def sizeof_aip_io_def)

lemma ob_aip_read:
  assumes n: "canonical_net n"
  shows "ob_parse_allowed_ip (a @ ob_aip_layout n @ c) (length a) = Returns n"
proof -
  let ?b = "ob_aip_layout n"
  have len: "length (net_ip n) = 4 \<or> length (net_ip n) = 16" and le: "net_len n \<le> 8 * length (net_ip n)"
    and mask: "net_mask n = mask_bytes (length (net_ip n)) (net_len n)"
    using n by (auto simp: canonical_net_def)
  have b: "length ?b = 24" using ob_aip_length [OF n] by (simp add: sizeof_aip_io_def)
  have cidr: "le_int (le_put 4 (int (net_len n))) = int (net_len n)" using le len by (intro le_put_int) auto
  have eta: "\<lparr>net_ip = net_ip n, net_mask = net_mask n\<rparr> = n" by (cases n) simp
  note rd = mem_read_inner [of _ _ ?b a c, unfolded b]
  show ?thesis
  proof (cases "length (net_ip n) = 4")
    case True
    then have "cidr_mask (int (net_len n)) 32 = net_mask n" using le mask by (simp add: cidr_mask_nat)
    then show ?thesis using True rd [of 0 1] rd [of 4 4] rd [of 8 4]
      by (simp add: ob_parse_allowed_ip_def) (simp add: ob_aip_layout_def field_at_def cidr eta)
  next
    case False
    then have l: "length (net_ip n) = 16" using len by simp
    then have "cidr_mask (int (net_len n)) 128 = net_mask n" using le mask by (simp add: cidr_mask_nat)
    then show ?thesis using l rd [of 0 1] rd [of 4 4] rd [of 8 16]
      by (simp add: ob_parse_allowed_ip_def) (simp add: ob_aip_layout_def field_at_def cidr eta ob_constants)
  qed
qed

lemma ob_aips_read:
  assumes "list_all canonical_net ns"
  shows "ob_allowed_ips (a @ concat (map ob_aip_layout ns) @ c) (length a) (length ns) = Returns ns"
  using assms
proof (induction ns arbitrary: c rule: rev_induct)
  case (snoc n ns)
  let ?m = "a @ concat (map ob_aip_layout (ns @ [n])) @ c"
  have "ob_allowed_ips ?m (length a) (length ns) = Returns ns"
    using snoc.IH [of "ob_aip_layout n @ c"] snoc.prems by simp
  moreover have len: "length (concat (map ob_aip_layout ns)) = length ns * sizeof_aip_io"
    using snoc.prems by (intro concat_lengths) (simp add: list_all_iff ob_aip_length)
  have "ob_parse_allowed_ip ?m (length a + length ns * sizeof_aip_io) = Returns n"
    using ob_aip_read [of n "a @ concat (map ob_aip_layout ns)" c] snoc.prems len by simp
  ultimately show ?case by (simp add: ob_allowed_ips_def map_run_append)
qed (simp add: ob_allowed_ips_def)

definition ob_peer_ok :: "peer \<Rightarrow> bool" where
  "ob_peer_ok p \<longleftrightarrow> p_name p = None \<and> wf_key (p_public_key p) \<and> wf_key (p_preshared_key p)
     \<and> (p_has_preshared_key p \<or> p_preshared_key p = zero_key)
     \<and> 0 \<le> p_keepalive p \<and> p_keepalive p mod second = 0 \<and> p_keepalive p div second < 65536
     \<and> (p_has_keepalive p \<or> p_keepalive p = 0)
     \<and> (p_has_endpoint p \<or> p_endpoint p = None)
     \<and> opt_all (\<lambda>a. (length (ua_ip a) = 4 \<or> length (ua_ip a) = 16) \<and> 0 \<le> ua_port a \<and> ua_port a \<le> 65535 \<and> ua_zone a = [])
         (p_endpoint p)
     \<and> - (2 ^ 63) \<le> p_transmit_bytes p \<and> p_transmit_bytes p < 2 ^ 63
     \<and> - (2 ^ 63) \<le> p_receive_bytes p \<and> p_receive_bytes p < 2 ^ 63
     \<and> - (2 ^ 31) \<le> p_protocol_version p \<and> p_protocol_version p < 2 ^ 31
     \<and> (let t = p_last_handshake p in t = zero_time
          \<or> unix_to_internal < fst t \<and> fst t < 2 ^ 62 \<and> 0 < snd t \<and> snd t < 1000000000)
     \<and> list_all canonical_net (p_allowed_ips p) \<and> length (p_allowed_ips p) < 2 ^ 42"

lemma ob_endpoint_length:
  "opt_all (\<lambda>a. length (ua_ip a) = 4 \<or> length (ua_ip a) = 16) e \<Longrightarrow> length (ob_endpoint_layout e) = 28"
  by (cases e) (auto simp: ob_endpoint_layout_def)

lemma ob_endpoint_read:
  "opt_all (\<lambda>a. (length (ua_ip a) = 4 \<or> length (ua_ip a) = 16) \<and> 0 \<le> ua_port a \<and> ua_port a \<le> 65535 \<and> ua_zone a = []) e
   \<Longrightarrow> ob_parse_endpoint (ob_endpoint_layout e) = e"
  by (cases e) (auto simp: ob_endpoint_layout_def ob_parse_endpoint_def field_at_def net_port_read ob_constants)

lemma ob_handshake_read:
  assumes "unix_to_internal < fst t" and "fst t < 2 ^ 62" and "0 < snd t" and "snd t < 1000000000"
  shows "ob_handshake (time_unix_seconds t) (snd t) = t"
proof -
  obtain a b where t: "t = (a, b)" by (cases t)
  have "time_unix_seconds (a, b) = a - unix_to_internal"
    using assms by (simp add: time_unix_seconds_def unix_to_internal_def t)
  then show ?thesis using assms by (simp add: ob_handshake_def t time_Unix_def unix_to_internal_def)
qed

lemma ob_peer_length: "ob_peer_ok p \<Longrightarrow> length (ob_peer_layout p) = sizeof_peer_io"
  using ob_endpoint_length [of "p_endpoint p"]
  by (cases "p_endpoint p") (simp_all add: ob_peer_ok_def ob_peer_layout_def Let_def wf_key_def key_len_def sizeof_peer_io_def)

lemma ob_peer_fields:
  assumes p: "ob_peer_ok p"
  defines "b \<equiv> ob_peer_layout p" and "t \<equiv> p_last_handshake p"
  shows "b ! 0 = word_of_nat (flag_byte [(0, True), (1, p_has_preshared_key p), (2, p_has_keepalive p), (3, p_has_endpoint p)])"
    "field_at b 4 4 = le_put 4 (p_protocol_version p)"
    "field_at b 8 32 = p_public_key p" "field_at b 40 32 = p_preshared_key p"
    "field_at b 72 2 = le_put 2 (p_keepalive p div second)"
    "field_at b 76 28 = ob_endpoint_layout (p_endpoint p)"
    "field_at b 104 8 = le_put 8 (p_transmit_bytes p)" "field_at b 112 8 = le_put 8 (p_receive_bytes p)"
    "field_at b 120 8 = le_put 8 (if t = zero_time then 0 else time_unix_seconds t)"
    "field_at b 128 8 = le_put 8 (if t = zero_time then 0 else snd t)"
    "field_at b 136 8 = le_put 8 (int (length (p_allowed_ips p)))"
proof -
  have e: "length (ob_endpoint_layout (p_endpoint p)) = 28"
    using p by (intro ob_endpoint_length) (cases "p_endpoint p", auto simp: ob_peer_ok_def)
  have k: "length (p_public_key p) = 32" "length (p_preshared_key p) = 32"
    using p by (simp_all add: ob_peer_ok_def wf_key_def key_len_def)
  note [simp] = e k b_def t_def ob_peer_layout_def Let_def field_at_def
  show "b ! 0 = word_of_nat (flag_byte [(0, True), (1, p_has_preshared_key p), (2, p_has_keepalive p), (3, p_has_endpoint p)])" by simp
  show "field_at b 4 4 = le_put 4 (p_protocol_version p)" by simp
  show "field_at b 8 32 = p_public_key p" "field_at b 40 32 = p_preshared_key p" by simp_all
  show "field_at b 72 2 = le_put 2 (p_keepalive p div second)" by simp
  show "field_at b 76 28 = ob_endpoint_layout (p_endpoint p)" by simp
  show "field_at b 104 8 = le_put 8 (p_transmit_bytes p)" "field_at b 112 8 = le_put 8 (p_receive_bytes p)" by simp_all
  show "field_at b 120 8 = le_put 8 (if t = zero_time then 0 else time_unix_seconds t)" by simp
  show "field_at b 128 8 = le_put 8 (if t = zero_time then 0 else snd t)" by simp
  show "field_at b 136 8 = le_put 8 (int (length (p_allowed_ips p)))" by simp
qed

lemma ob_handshake_fields:
  assumes "t = zero_time \<or> unix_to_internal < fst t \<and> fst t < 2 ^ 62 \<and> 0 < snd t \<and> snd t < 1000000000"
  shows "ob_handshake (le_int (le_put 8 (if t = zero_time then 0 else time_unix_seconds t)))
      (le_int (le_put 8 (if t = zero_time then 0 else snd t))) = t"
proof (cases "t = zero_time")
  case True
  have "le_int (le_put 8 0) = 0" by (rule le_put_int) simp_all
  then show ?thesis using True by (simp add: ob_handshake_def)
next
  case False
  then have t: "unix_to_internal < fst t" "fst t < 2 ^ 62" "0 < snd t" "snd t < 1000000000" using assms by simp_all
  have "le_int (le_put 8 (time_unix_seconds t)) = time_unix_seconds t"
    using t by (intro le_put_int) (simp_all add: time_unix_seconds_def unix_to_internal_def)
  moreover have "le_int (le_put 8 (snd t)) = snd t" using t by (intro le_put_int) simp_all
  ultimately show ?thesis using False ob_handshake_read [OF t] by simp
qed

lemma ob_peer_read:
  assumes p: "ob_peer_ok p"
  shows "ob_parse_peer (ob_peer_layout p) = p\<lparr>p_allowed_ips := []\<rparr>"
proof -
  have proto: "le_int (le_put 4 (p_protocol_version p)) = p_protocol_version p"
    using p by (intro le_put_int) (simp_all add: ob_peer_ok_def)
  have bytes: "wrap64 (p_transmit_bytes p) = p_transmit_bytes p" "wrap64 (p_receive_bytes p) = p_receive_bytes p"
    using p by (simp_all add: ob_peer_ok_def)
  have "int (le_nat (le_put 2 (p_keepalive p div second))) = p_keepalive p div second"
    using p by (subst le_put_nat) (auto simp: ob_peer_ok_def second_def pos_imp_zdiv_nonneg_iff)
  moreover have "p_keepalive p div second * second = p_keepalive p"
    using p div_mult_mod_eq [of "p_keepalive p" second] by (simp add: ob_peer_ok_def)
  ultimately have ka: "int (le_nat (le_put 2 (p_keepalive p div second))) * second = p_keepalive p" by simp
  have ep: "ob_parse_endpoint (ob_endpoint_layout (p_endpoint p)) = p_endpoint p"
    using p by (intro ob_endpoint_read) (simp add: ob_peer_ok_def)
  have hs: "ob_handshake (le_int (le_put 8 (if p_last_handshake p = zero_time then 0 else time_unix_seconds (p_last_handshake p))))
      (le_int (le_put 8 (if p_last_handshake p = zero_time then 0 else snd (p_last_handshake p)))) = p_last_handshake p"
    using p by (intro ob_handshake_fields) (simp add: ob_peer_ok_def Let_def)
  have unset: "\<not> p_has_preshared_key p \<Longrightarrow> p_preshared_key p = zero_key" "\<not> p_has_keepalive p \<Longrightarrow> p_keepalive p = 0"
      "\<not> p_has_endpoint p \<Longrightarrow> p_endpoint p = None" "p_name p = None"
    using p by (auto simp: ob_peer_ok_def)
  show ?thesis
    by (rule peer.equality)
      (use unset in \<open>auto simp: ob_parse_peer_def Let_def has_flag_def ob_peer_fields [OF p] flag_byte_bit [unfolded One_nat_def] ob_constants
        proto bytes ka ep hs zero_peer_def\<close>)
qed

definition ob_peer_block :: "peer \<Rightarrow> byte list" where
  "ob_peer_block p = ob_peer_layout p @ concat (map ob_aip_layout (p_allowed_ips p))"

lemma ob_peers_read:
  assumes "list_all ob_peer_ok ps"
  shows "ob_peers (a @ concat (map ob_peer_block ps) @ c) (length ps) (length a) = Returns ps"
  using assms
proof (induction ps arbitrary: a)
  case (Cons p ps)
  then have p: "ob_peer_ok p" and ps: "list_all ob_peer_ok ps" by simp_all
  let ?ns = "p_allowed_ips p" let ?b = "ob_peer_layout p" let ?aips = "concat (map ob_aip_layout (p_allowed_ips p))"
  let ?m = "a @ concat (map ob_peer_block (p # ps)) @ c"
  have nets: "list_all canonical_net ?ns" and few: "length ?ns < 2 ^ 42" using p by (simp_all add: ob_peer_ok_def)
  have b: "length ?b = sizeof_peer_io" by (rule ob_peer_length [OF p])
  have aips: "length ?aips = length ?ns * sizeof_aip_io"
    using nets by (intro concat_lengths) (simp add: list_all_iff ob_aip_length)
  have "mem_read ?m (length a) sizeof_peer_io = Returns ?b"
    using mem_read_at [OF refl b, of a] by (simp add: ob_peer_block_def)
  moreover have "le_nat (field_at ?b 136 8) = length ?ns"
    using few by (simp add: ob_peer_fields [OF p] le_put_nat)
  moreover have "make_fits 48 (length ?ns)" using few by (simp add: make_fits_def)
  moreover have "ob_allowed_ips ?m (length a + sizeof_peer_io) (length ?ns) = Returns ?ns"
    using ob_aips_read [OF nets, of "a @ ?b" "concat (map ob_peer_block ps) @ c"] b by (simp add: ob_peer_block_def)
  moreover have "ob_peers ?m (length ps) (length a + sizeof_peer_io + length ?ns * sizeof_aip_io) = Returns ps"
    using Cons.IH [OF ps, of "a @ ?b @ ?aips"] b aips by (simp add: ob_peer_block_def [of p] add.assoc)
  ultimately show ?case by (simp add: Let_def ob_peer_read [OF p])
qed simp

lemma ob_layout_parts: "ob_layout d = ob_header d @ concat (map ob_peer_block (d_peers d))"
  by (simp add: ob_layout_def ob_peer_block_def [abs_def])

definition ob_device_ok :: "device \<Rightarrow> bool" where
  "ob_device_ok d \<longleftrightarrow> d_type d = OpenBSDKernel \<and> wf_key (d_public_key d) \<and> wf_key (d_private_key d)
     \<and> (d_has_public_key d \<or> d_public_key d = zero_key) \<and> (d_has_private_key d \<or> d_private_key d = zero_key)
     \<and> 0 \<le> d_listen_port d \<and> d_listen_port d \<le> 65535 \<and> (d_has_listen_port d \<or> d_listen_port d = 0)
     \<and> - (2 ^ 31) \<le> d_firewall_mark d \<and> d_firewall_mark d < 2 ^ 31 \<and> (d_has_firewall_mark d \<or> d_firewall_mark d = 0)
     \<and> list_all ob_peer_ok (d_peers d) \<and> length (d_peers d) < 2 ^ 40"

lemma ob_header_fields:
  assumes "wf_key (d_public_key d)" and "wf_key (d_private_key d)"
  shows "length (ob_header d) = sizeof_interface_io"
    "ob_header d ! 0 = word_of_nat (flag_byte [(0, d_has_public_key d), (1, d_has_private_key d), (2, d_has_listen_port d), (3, d_has_firewall_mark d)])"
    "field_at (ob_header d) 2 2 = le_put 2 (d_listen_port d)" "field_at (ob_header d) 4 4 = le_put 4 (d_firewall_mark d)"
    "field_at (ob_header d) 8 32 = d_public_key d" "field_at (ob_header d) 40 32 = d_private_key d"
    "field_at (ob_header d) 72 8 = le_put 8 (int (length (d_peers d)))"
  using assms by (simp_all add: ob_header_def field_at_def wf_key_def key_len_def sizeof_interface_io_def)

lemma ob_device_read:
  assumes d: "ob_device_ok d"
  shows "ob_parse_device name (ob_layout d) = Returns (d\<lparr>d_name := name\<rparr>)"
proof -
  have keys: "wf_key (d_public_key d)" "wf_key (d_private_key d)" and ps: "list_all ob_peer_ok (d_peers d)"
    using d by (simp_all add: ob_device_ok_def)
  note fields = ob_header_fields [OF keys]
  have hd: "mem_read (ob_layout d) 0 sizeof_interface_io = Returns (ob_header d)"
    using fields(1) by (simp add: ob_layout_parts mem_read_def)
  have n: "le_nat (field_at (ob_header d) 72 8) = length (d_peers d)" "make_fits 184 (length (d_peers d))"
    using d by (simp_all add: fields le_put_nat ob_device_ok_def make_fits_def)
  have peers: "ob_peers (ob_layout d) (length (d_peers d)) sizeof_interface_io = Returns (d_peers d)"
    using ob_peers_read [OF ps, of "ob_header d" "[]"] fields(1) by (simp add: ob_layout_parts)
  have port: "int (le_nat (le_put 2 (d_listen_port d))) = d_listen_port d"
    using d by (subst le_put_nat) (auto simp: ob_device_ok_def)
  have mark: "le_int (le_put 4 (d_firewall_mark d)) = d_firewall_mark d"
    using d by (intro le_put_int) (simp_all add: ob_device_ok_def)
  have some: "ob_layout d \<noteq> []" by (simp add: ob_layout_parts ob_header_def)
  have unset: "\<not> d_has_public_key d \<Longrightarrow> d_public_key d = zero_key" "\<not> d_has_private_key d \<Longrightarrow> d_private_key d = zero_key"
      "\<not> d_has_listen_port d \<Longrightarrow> d_listen_port d = 0" "\<not> d_has_firewall_mark d \<Longrightarrow> d_firewall_mark d = 0" "d_type d = OpenBSDKernel"
    using d by (auto simp: ob_device_ok_def)
  have zero: "make_fits 184 0" by (simp add: make_fits_def)
  define r where "r = (if d_peers d = [] then d\<lparr>d_name := name, d_peers := []\<rparr> else d\<lparr>d_name := name\<rparr>)"
  have r: "r = d\<lparr>d_name := name\<rparr>" by (auto simp: r_def intro!: device.equality)
  have "ob_parse_device name (ob_layout d) = Returns r"
    using unset
    by (cases "d_has_public_key d"; cases "d_has_private_key d"; cases "d_has_listen_port d"; cases "d_has_firewall_mark d";
        cases "d_peers d = []")
      (simp_all add: ob_parse_device_def Let_def zero some hd [unfolded sizeof_interface_io_def] n peers [unfolded sizeof_interface_io_def] port mark fields(2-6) has_flag_def
        flag_byte_bit [unfolded One_nat_def] ob_constants zero_device_def r_def)
  then show ?thesis by (simp add: r)
qed

section \<open>Properties\<close>

text \<open>
  C24. On OpenBSD a device that the kernel lays out in memory as its structures say is read back
  exactly: every read is inside of the buffer that the loop around the ioctl ends with, and every
  key, port, counter, endpoint, network and handshake time is the kernel's, peers and networks in
  order. The handshake times are those with a fraction of a second.
\<close>

theorem openbsd_reads_layout:
  assumes "steady_kernel (ob_get c (bytes_of name @ replicate (16 - length name) 0)) contents"
    and "length name \<le> 16" and "ob_device_ok d" and "contents s = ob_layout d"
  shows "ob_device c name s = Some (Returns (Inr (d\<lparr>d_name := name\<rparr>)), s)"
proof -
  have keys: "wf_key (d_public_key d)" "wf_key (d_private_key d)" using assms(3) by (simp_all add: ob_device_ok_def)
  have "ob_layout d \<noteq> []" "sizeof_interface_io \<le> length (ob_layout d)"
    using ob_header_fields(1) [OF keys] by (auto simp: ob_layout_parts ob_header_def)
  then have "sized_read (ob_get c (bytes_of name @ replicate (16 - length name) 0)) sizeof_interface_io [] 0 s
      = Some (Inr (Inr (ob_layout d)), s)"
    using steady_kernel.sized_read_contents [OF assms(1), of s] assms(4) by simp
  then show ?thesis using assms(2) by (simp add: ob_device_def device_name16_def ob_device_read [OF assms(3)])
qed

definition ob_sample_device :: device where
  "ob_sample_device = zero_device\<lparr>d_type := OpenBSDKernel, d_private_key := replicate 32 1, d_has_private_key := True,
     d_public_key := replicate 32 2, d_has_public_key := True, d_listen_port := 51820, d_has_listen_port := True,
     d_peers := [zero_peer\<lparr>p_public_key := replicate 32 3, p_protocol_version := 1,
         p_endpoint := Some \<lparr>ua_ip = [192, 0, 2, 1], ua_port = 7, ua_zone = []\<rparr>, p_has_endpoint := True,
         p_keepalive := 25 * second, p_has_keepalive := True, p_last_handshake := (unix_to_internal + 9, 5),
         p_receive_bytes := 1000, p_transmit_bytes := 2000,
         p_allowed_ips := [\<lparr>net_ip = [10, 0, 0, 0], net_mask = [255, 0, 0, 0]\<rparr>]\<rparr>]\<rparr>"

definition ob_sample :: "unit ob_client" where
  "ob_sample = \<lparr>ob_close = (\<lambda>s. (Inr (), s)), ob_group = (\<lambda>_ _ s. (Inl ENXIO, s)),
     ob_get = (\<lambda>_. steady_io (\<lambda>_. ob_layout ob_sample_device))\<rparr>"

theorem openbsd_reads_layout_witness:
  "ob_device ob_sample ''wg0'' () = Some (Returns (Inr (ob_sample_device\<lparr>d_name := ''wg0''\<rparr>)), ())"
proof (rule openbsd_reads_layout [where contents = "\<lambda>_. ob_layout ob_sample_device"])
  show "steady_kernel (ob_get ob_sample (bytes_of ''wg0'' @ replicate (16 - length ''wg0'') 0)) (\<lambda>_. ob_layout ob_sample_device)"
    using steady.steady_kernel_axioms by (simp add: ob_sample_def)
  show "ob_device_ok ob_sample_device" by code_simp
qed simp_all

text \<open>
  A handshake at a whole second, which internal/wglinux reports as such, is no handshake at
  all for this client, although its comment says that it behaves as internal/wglinux does.
\<close>

theorem openbsd_whole_second:
  "0 < sec \<Longrightarrow> sec < 2 ^ 63 \<Longrightarrow> parse_timespec (le_put 8 sec @ le_put 8 0) = Inr (Some (time_Unix sec 0)) \<and> ob_handshake sec 0 = zero_time"
  by (simp add: parse_timespec_def Let_def le_put_int [where n = 8] ob_handshake_def)

theorem openbsd_whole_second_witness:
  "parse_timespec (le_put 8 1700000000 @ le_put 8 0) = Inr (Some (time_Unix 1700000000 0)) \<and> ob_handshake 1700000000 0 = zero_time"
  by (rule openbsd_whole_second) simp_all

text \<open>
  The check of the size that the kernel reports does not see a size of zero: the empty buffer
  is large enough for it, the loop ends, and the nil structure is read, which panics.
\<close>

theorem openbsd_empty_panics:
  assumes "\<And>mem sz. ob_get c (bytes_of name @ replicate (16 - length name) 0) mem sz s = (Inr (mem, 0), s)"
    and "length name \<le> 16"
  shows "ob_device c name s = Some (Panics, s)"
  using assms by (simp add: ob_device_def device_name16_def sized_read.simps ob_parse_device_def)

text \<open>A device that exists is never configured, and one that does not is reported as such.\<close>

lemma ob_configure_read_only:
  "ob_device c name s = Some (Returns (Inr d), s') \<Longrightarrow> ob_configure c name cfg s = Some (Returns (Inl ErrReadOnly), s')"
  "ob_device c name s = Some (Returns (Inl e), s') \<Longrightarrow> ob_configure c name cfg s = Some (Returns (Inl e), s')"
  by (simp_all add: ob_configure_def)

end
