(* ===== verification/WgWindows.thy ===== *)
theory WgWindows
  imports GoMemory "HOL-Library.AList"
begin

text \<open>
  internal/wgwindows: the client of Windows (client_windows.go), the structures it exchanges with
  the driver and their building (internal/ioctl). The Windows API is a parameter; offsets and
  sizes are those of the structs on a 64-bit platform.
\<close>

section \<open>Addresses\<close>

definition win_AF_INET :: nat where
  "win_AF_INET = 2"

definition win_AF_INET6 :: nat where
  "win_AF_INET6 = 23"

text \<open>\<open>RawSockaddrInet\<close> of winipcfg\_windows.go: 28 bytes. \<open>SetIP\<close> leaves a zero structure for an address of no kind.\<close>

definition win_set_ip :: "ip \<Rightarrow> int \<Rightarrow> byte list" where
  "win_set_ip i port =
     (case to4 i of
        Some v4 \<Rightarrow> le_write 2 win_AF_INET @ net_port port @ v4 @ replicate 20 0
      | None \<Rightarrow>
          (case to16 i of
             Some v6 \<Rightarrow> le_write 2 win_AF_INET6 @ net_port port @ replicate 4 0 @ v6 @ replicate 4 0
           | None \<Rightarrow> replicate 28 0))"

definition win_ip :: "byte list \<Rightarrow> ip" where
  "win_ip b =
     (let family = le_nat (field_at b 0 2)
      in if family = win_AF_INET then field_at b 4 4 else if family = win_AF_INET6 then field_at b 8 16 else [])"

definition win_port :: "byte list \<Rightarrow> int" where
  "win_port b =
     (let family = le_nat (field_at b 0 2)
      in if family = win_AF_INET \<or> family = win_AF_INET6 then port_of (field_at b 2 2) else 0)"

section \<open>Building a configuration\<close>

text \<open>The flags of the structures, by their bits.\<close>

definition sizeof_win_interface :: nat where "sizeof_win_interface = 80"
definition sizeof_win_peer :: nat where "sizeof_win_peer = 136"
definition sizeof_win_allowed_ip :: nat where "sizeof_win_allowed_ip = 24"

definition win_flags :: "(nat \<times> bool) list \<Rightarrow> byte list" where
  "win_flags fs = le_write 4 (flag_byte fs)"

definition win_interface :: "config \<Rightarrow> byte list" where
  "win_interface c =
     win_flags [(1, c_private_key c \<noteq> None), (2, c_listen_port c \<noteq> None), (3, c_replace_peers c)]
     @ le_put 2 (case c_listen_port c of None \<Rightarrow> 0 | Some p \<Rightarrow> p)
     @ (case c_private_key c of None \<Rightarrow> zero_key | Some k \<Rightarrow> k) @ zero_key @ [0, 0]
     @ le_put 4 (int (length (c_peers c))) @ replicate 4 0"

definition win_allowed_ip :: "ip_net \<Rightarrow> nat \<Rightarrow> byte list" where
  "win_allowed_ip n flags =
     (let (family, i) =
        (case to4 (net_ip n) of
           Some v4 \<Rightarrow> (win_AF_INET, v4)
         | None \<Rightarrow> (case to16 (net_ip n) of Some v6 \<Rightarrow> (win_AF_INET6, v6) | None \<Rightarrow> (0, net_ip n)))
      in take 16 (i @ replicate 16 0) @ le_write 2 family @ le_put 1 (fst (mask_size (net_mask n))) @ [0] @ le_write 4 flags)"

definition win_peer_head :: "peer_config \<Rightarrow> byte list" where
  "win_peer_head p =
     win_flags [(0, True), (1, pc_preshared_key p \<noteq> None), (2, pc_keepalive p \<noteq> None), (3, pc_endpoint p \<noteq> None),
       (5, pc_replace_allowed_ips p), (6, pc_remove p), (7, pc_update_only p)]
     @ replicate 4 0 @ pc_public_key p @ (case pc_preshared_key p of None \<Rightarrow> zero_key | Some k \<Rightarrow> k)
     @ le_put 2 (case pc_keepalive p of None \<Rightarrow> 0 | Some d \<Rightarrow> tdiv d second) @ [0, 0]
     @ (case pc_endpoint p of None \<Rightarrow> replicate 28 0 | Some a \<Rightarrow> win_set_ip (ua_ip a) (ua_port a)) @ replicate 24 0
     @ le_put 4 (int (length (pc_allowed_ips p) + length (pc_allowed_ip_ops p))) @ replicate 4 0"

definition win_peer :: "peer_config \<Rightarrow> byte list" where
  "win_peer p = win_peer_head p @ concat (map (\<lambda>n. win_allowed_ip n 0) (pc_allowed_ips p))
     @ concat (map (\<lambda>a. win_allowed_ip (aip_net a) (if aip_op a = AllowedIPRemove then 1 else 0)) (pc_allowed_ip_ops p))"

text \<open>\<open>buildConfiguration\<close>: the buffer of the builder, which grows beyond its preallocation if needed.\<close>

definition win_build :: "config \<Rightarrow> byte list" where
  "win_build c = win_interface c @ concat (map win_peer (c_peers c))"

section \<open>Parsing\<close>

text \<open>The time is in steps of 100 ns since 1601, in 64 bits.\<close>

definition win_time :: "nat \<Rightarrow> go_time" where
  "win_time t = (if t \<noteq> 0 then time_Unix 0 (wrap64 ((int t - 116444736000000000) * 100)) else zero_time)"

definition win_parse_allowed_ip :: "byte list \<Rightarrow> nat \<Rightarrow> ip_net run" where
  "win_parse_allowed_ip mem off =
     bind_run (mem_read mem off 19) (\<lambda>b.
       let family = le_nat (field_at b 16 2); cidr = int (le_nat (field_at b 18 1))
       in Returns (if family = win_AF_INET then \<lparr>net_ip = field_at b 0 4, net_mask = cidr_mask cidr 32\<rparr>
            else if family = win_AF_INET6 then \<lparr>net_ip = field_at b 0 16, net_mask = cidr_mask cidr 128\<rparr>
            else \<lparr>net_ip = [], net_mask = cidr_mask cidr 0\<rparr>))"

definition win_parse_allowed_ips :: "byte list \<Rightarrow> nat \<Rightarrow> nat \<Rightarrow> ip_net list run" where
  "win_parse_allowed_ips mem off n = map_run (\<lambda>j. win_parse_allowed_ip mem (off + j * sizeof_win_allowed_ip)) [0..<n]"

definition win_parse_peer :: "byte list \<Rightarrow> peer" where
  "win_parse_peer b =
     (let p = zero_peer;
          p = (if has_flag b 0 then p\<lparr>p_public_key := field_at b 8 32\<rparr> else p);
          p = (if has_flag b 1 then p\<lparr>p_preshared_key := field_at b 40 32, p_has_preshared_key := True\<rparr> else p);
          p = (if has_flag b 3 then p\<lparr>p_endpoint := Some \<lparr>ua_ip = win_ip (field_at b 76 28), ua_port = win_port (field_at b 76 28), ua_zone = []\<rparr>,
                 p_has_endpoint := True\<rparr> else p);
          p = (if has_flag b 2 then p\<lparr>p_keepalive := int (le_nat (field_at b 72 2)) * second, p_has_keepalive := True\<rparr> else p);
          p = (if has_flag b 4 then p\<lparr>p_protocol_version := int (le_nat (field_at b 4 4))\<rparr> else p)
      in p\<lparr>p_transmit_bytes := wrap64 (int (le_nat (field_at b 104 8))), p_receive_bytes := wrap64 (int (le_nat (field_at b 112 8))),
           p_last_handshake := win_time (le_nat (field_at b 120 8))\<rparr>)"

text \<open>The padding behind the last field of a structure is not read.\<close>

fun win_peers :: "byte list \<Rightarrow> nat \<Rightarrow> nat \<Rightarrow> peer list run" where
  "win_peers mem 0 off = Returns []"
| "win_peers mem (Suc n) off =
     bind_run (mem_read mem off 132) (\<lambda>b.
       let k = le_nat (field_at b 128 4)
       in bind_run (win_parse_allowed_ips mem (off + sizeof_win_peer) k) (\<lambda>ns.
            bind_run (win_peers mem n (off + sizeof_win_peer + k * sizeof_win_allowed_ip)) (\<lambda>ps.
              Returns ((win_parse_peer b)\<lparr>p_allowed_ips := ns\<rparr> # ps))))"

definition win_parse :: "string \<Rightarrow> byte list \<Rightarrow> device run" where
  "win_parse name mem =
     bind_run (mem_read mem 0 76) (\<lambda>b.
       let d = zero_device\<lparr>d_type := WindowsKernel, d_name := name\<rparr>;
           d = (if has_flag b 1 then d\<lparr>d_private_key := field_at b 6 32, d_has_private_key := True\<rparr> else d);
           d = (if has_flag b 0 then d\<lparr>d_public_key := field_at b 38 32, d_has_public_key := True\<rparr> else d);
           d = (if has_flag b 2 then d\<lparr>d_listen_port := int (le_nat (field_at b 4 2)), d_has_listen_port := True\<rparr> else d)
       in bind_run (win_peers mem (le_nat (field_at b 72 4)) sizeof_win_interface) (\<lambda>ps. Returns (d\<lparr>d_peers := ps\<rparr>)))"

section \<open>The client\<close>

datatype win_error = FileNotFound | MoreData | OtherWin go_error

definition win_err :: "win_error \<Rightarrow> go_error" where
  "win_err e = (case e of FileNotFound \<Rightarrow> ErrText ''ERROR_FILE_NOT_FOUND'' | MoreData \<Rightarrow> ErrText ''ERROR_MORE_DATA'' | OtherWin e \<Rightarrow> e)"

text \<open>
  A device of the class, as the API shows it: whether its data can be read, its name (an error, or
  a property that may not be a string), its status, and its interfaces by its instance.
\<close>

record win_dev =
  wd_readable :: bool
  wd_name :: "string option res"
  wd_status :: "nat option"
  wd_interfaces :: "string list res"

text \<open>
  The API: the devices, \<open>CreateFile\<close>, and the two ioctls. The first gives an error or none, the
  buffer and the size after it.
\<close>

record ('h, 's) win_api =
  wa_devices :: "'s \<Rightarrow> win_dev list res"
  wa_open :: "string \<Rightarrow> 's \<Rightarrow> (win_error + 'h) \<times> 's"
  wa_close :: "'h \<Rightarrow> 's \<Rightarrow> 's"
  wa_get :: "'h \<Rightarrow> nat \<Rightarrow> 's \<Rightarrow> (win_error option \<times> byte list \<times> nat) \<times> 's"
  wa_set :: "'h \<Rightarrow> byte list \<Rightarrow> 's \<Rightarrow> win_error option \<times> 's"

record win_client =
  wc_cache :: "(string \<times> string) list"
  wc_len :: nat

definition win_new :: win_client where
  "win_new = \<lparr>wc_cache = [], wc_len = 0\<rparr>"

text \<open>
  The file of an adapter whose driver is loaded and started (flags 2 and 8). The first of no
  interfaces is a panic; a name with a NUL has no UTF-16 form.
\<close>

definition win_dev_file :: "win_dev \<Rightarrow> (string \<times> string) option run" where
  "win_dev_file d =
     (if \<not> wd_readable d then Returns None
      else case wd_name d of
        Inr (Some name) \<Rightarrow>
          (case wd_status d of
             None \<Rightarrow> Returns None
           | Some st \<Rightarrow>
               if \<not> (bit st 1 \<and> bit st 3) then Returns None
               else (case wd_interfaces d of
                   Inl e \<Rightarrow> Returns None
                 | Inr [] \<Rightarrow> Panics
                 | Inr (f # fs) \<Rightarrow> Returns (if CHR 0x00 \<in> set f then None else Some (name, f))))
      | _ \<Rightarrow> Returns None)"

fun win_dev_files :: "win_dev list \<Rightarrow> (string \<times> string) list \<Rightarrow> (string \<times> string) list run" where
  "win_dev_files [] m = Returns m"
| "win_dev_files (d # ds) m =
     bind_run (win_dev_file d) (\<lambda>f. win_dev_files ds (case f of None \<Rightarrow> m | Some (n, p) \<Rightarrow> AList.update n p m))"

definition win_refresh :: "('h, 's) win_api \<Rightarrow> win_client \<Rightarrow> 's \<Rightarrow> win_client res run" where
  "win_refresh api c s =
     (case wa_devices api s of
        Inl e \<Rightarrow> Returns (Inl e)
      | Inr ds \<Rightarrow> bind_run (win_dev_files ds []) (\<lambda>m. Returns (Inr (c\<lparr>wc_cache := m\<rparr>))))"

text \<open>
  \<open>interfaceHandle\<close>. After a refresh the loop ends whatever the file gives; without one it ends
  only when the file opens or is not found.
\<close>

partial_function (option) win_handle ::
  "('h, 's) win_api \<Rightarrow> string \<Rightarrow> win_client \<Rightarrow> 's \<Rightarrow> ('h res run \<times> win_client \<times> 's) option" where
  "win_handle api name c s =
     (case map_of (wc_cache c) name of
        None \<Rightarrow>
          (case win_refresh api c s of
             Returns (Inl e) \<Rightarrow> Some (Returns (Inl e), c, s)
           | Returns (Inr c1) \<Rightarrow>
               (case map_of (wc_cache c1) name of
                  None \<Rightarrow> Some (Returns (Inl ErrNotExist), c1, s)
                | Some f \<Rightarrow>
                    (case wa_open api f s of
                       (Inl e, s1) \<Rightarrow> Some (Returns (Inl (win_err e)), c1, s1)
                     | (Inr h, s1) \<Rightarrow> Some (Returns (Inr h), c1, s1)))
           | Panics \<Rightarrow> Some (Panics, c, s)
           | Wild \<Rightarrow> Some (Wild, c, s))
      | Some f \<Rightarrow>
          (case wa_open api f s of
             (Inr h, s1) \<Rightarrow> Some (Returns (Inr h), c, s1)
           | (Inl e, s1) \<Rightarrow> if e = FileNotFound then Some (Returns (Inl (win_err e)), c, s1) else win_handle api name c s1))"

text \<open>The loop of \<open>Device\<close>: the address of the first byte of no buffer is a panic.\<close>

partial_function (option) win_get ::
  "('h, 's) win_api \<Rightarrow> 'h \<Rightarrow> nat \<Rightarrow> 's \<Rightarrow> ((win_error + byte list \<times> nat) run \<times> 's) option" where
  "win_get api h n s =
     (if n = 0 then Some (Panics, s)
      else case wa_get api h n s of
        ((None, buf, n1), s1) \<Rightarrow> Some (Returns (Inr (buf, n1)), s1)
      | ((Some e, buf, n1), s1) \<Rightarrow> if e = MoreData then win_get api h n1 s1 else Some (Returns (Inl e), s1))"

definition win_device :: "('h, 's) win_api \<Rightarrow> string \<Rightarrow> win_client \<Rightarrow> 's \<Rightarrow> (device res run \<times> win_client \<times> 's) option" where
  "win_device api name c s =
     (case win_handle api name c s of
        None \<Rightarrow> None
      | Some (Returns (Inr h), c1, s1) \<Rightarrow>
          (case win_get api h (if wc_len c1 = 0 then 512 else wc_len c1) s1 of
             None \<Rightarrow> None
           | Some (Returns (Inl e), s2) \<Rightarrow> Some (Returns (Inl (win_err e)), c1, wa_close api h s2)
           | Some (Returns (Inr (buf, n)), s2) \<Rightarrow>
               Some (bind_run (win_parse name buf) (\<lambda>d. Returns (Inr d)), c1\<lparr>wc_len := n\<rparr>, wa_close api h s2)
           | Some (Panics, s2) \<Rightarrow> Some (Panics, c1, wa_close api h s2)
           | Some (Wild, s2) \<Rightarrow> Some (Wild, c1, s2))
      | Some (Returns (Inl e), c1, s1) \<Rightarrow> Some (Returns (Inl e), c1, s1)
      | Some (Panics, c1, s1) \<Rightarrow> Some (Panics, c1, s1)
      | Some (Wild, c1, s1) \<Rightarrow> Some (Wild, c1, s1))"

text \<open>The devices, in the order in which the map of the cache is visited.\<close>

fun win_each :: "('h, 's) win_api \<Rightarrow> string list \<Rightarrow> win_client \<Rightarrow> 's \<Rightarrow> (device list res run \<times> win_client \<times> 's) option" where
  "win_each api [] c s = Some (Returns (Inr []), c, s)"
| "win_each api (n # ns) c s =
     (case win_device api n c s of
        None \<Rightarrow> None
      | Some (Returns (Inr d), c1, s1) \<Rightarrow>
          (case win_each api ns c1 s1 of
             None \<Rightarrow> None
           | Some (r, c2, s2) \<Rightarrow> Some (bind_run r (\<lambda>r. Returns (bind_res r (\<lambda>ds. Inr (d # ds)))), c2, s2))
      | Some (Returns (Inl e), c1, s1) \<Rightarrow> Some (Returns (Inl e), c1, s1)
      | Some (Panics, c1, s1) \<Rightarrow> Some (Panics, c1, s1)
      | Some (Wild, c1, s1) \<Rightarrow> Some (Wild, c1, s1))"

definition win_devices :: "('h, 's) win_api \<Rightarrow> win_client \<Rightarrow> 's \<Rightarrow> (device list res run \<times> win_client \<times> 's) option" where
  "win_devices api c s =
     (case win_refresh api c s of
        Returns (Inl e) \<Rightarrow> Some (Returns (Inl e), c, s)
      | Returns (Inr c1) \<Rightarrow> win_each api (map fst (wc_cache c1)) c1 s
      | Panics \<Rightarrow> Some (Panics, c, s)
      | Wild \<Rightarrow> Some (Wild, c, s))"

definition win_configure :: "('h, 's) win_api \<Rightarrow> string \<Rightarrow> config \<Rightarrow> win_client \<Rightarrow> 's \<Rightarrow> (unit res run \<times> win_client \<times> 's) option" where
  "win_configure api name cfg c s =
     (case win_handle api name c s of
        None \<Rightarrow> None
      | Some (Returns (Inr h), c1, s1) \<Rightarrow>
          (case wa_set api h (win_build cfg) s1 of
             (e, s2) \<Rightarrow> Some (Returns (case e of None \<Rightarrow> Inr () | Some e \<Rightarrow> Inl (win_err e)), c1, wa_close api h s2))
      | Some (Returns (Inl e), c1, s1) \<Rightarrow> Some (Returns (Inl e), c1, s1)
      | Some (Panics, c1, s1) \<Rightarrow> Some (Panics, c1, s1)
      | Some (Wild, c1, s1) \<Rightarrow> Some (Wild, c1, s1))"

section \<open>Facts about the structures\<close>

lemmas win_constants = win_AF_INET_def win_AF_INET6_def sizeof_win_interface_def sizeof_win_peer_def sizeof_win_allowed_ip_def

lemma win_flags_parts: "length (win_flags fs) = 4" "win_flags fs ! 0 = word_of_nat (flag_byte fs)"
  using le_write.simps(2) [of 3 "flag_byte fs"] by (simp_all add: win_flags_def)

lemma win_set_ip_length: "length (win_set_ip i port) = 28"
  by (auto simp: win_set_ip_def to4_def to16_def v4_in_v6_prefix_def split: option.splits)

lemma le_nat_le_write2: "v < 65536 \<Longrightarrow> le_nat (le_write 2 v) = v"
  by (simp add: le_nat_write)

lemma win_set_ip_read:
  assumes "length i = 4 \<or> length i = 16" and "0 \<le> port" and "port \<le> 65535"
  shows "win_ip (win_set_ip i port) = short_ip i" "win_port (win_set_ip i port) = port"
  using assms le_nat_le_write2 [of 2] le_nat_le_write2 [of 23]
  by (auto simp: win_set_ip_def win_ip_def win_port_def to4_def to16_def short_ip_def field_at_def net_port_read win_constants)

lemma win_allowed_ip_length: "canonical_net n \<Longrightarrow> length (win_allowed_ip n f) = sizeof_win_allowed_ip"
  by (auto simp: win_allowed_ip_def canonical_net_def sizeof_win_allowed_ip_def to4_def to16_def split: option.splits)


lemma win_allowed_ip_read:
  assumes n: "canonical_net n"
  shows "win_parse_allowed_ip (a @ win_allowed_ip n f @ c) (length a) = Returns n"
proof -
  let ?b = "win_allowed_ip n f"
  have len: "length (net_ip n) = 4 \<or> length (net_ip n) = 16 \<and> to4 (net_ip n) = None" and le: "net_len n \<le> 8 * length (net_ip n)"
    and mask: "net_mask n = mask_bytes (length (net_ip n)) (net_len n)"
    using n by (auto simp: canonical_net_def)
  have b: "length ?b = 24" using win_allowed_ip_length [OF n] by (simp add: sizeof_win_allowed_ip_def)
  have rd: "mem_read (a @ ?b @ c) (length a) 19 = Returns (field_at ?b 0 19)"
    using mem_read_inner [of 0 19 ?b a c] b by simp
  have size: "fst (mask_size (net_mask n)) = int (net_len n)" by (simp add: mask_size_def net_len_def split: option.split)
  have cidr: "le_nat (le_put 1 (int (net_len n))) = net_len n"
    using le len by (subst le_put_nat) auto
  have fam: "le_nat (le_write 2 2) = 2" "le_nat (le_write 2 23) = 23" by (simp_all add: le_nat_write)
  have eta: "\<lparr>net_ip = net_ip n, net_mask = net_mask n\<rparr> = n" by (cases n) simp
  show ?thesis
  proof (cases "length (net_ip n) = 4")
    case True
    then have "cidr_mask (int (net_len n)) 32 = net_mask n" using le mask by (simp add: cidr_mask_nat)
    then show ?thesis using True
      by (simp add: win_parse_allowed_ip_def rd) (simp add: win_allowed_ip_def field_at_def to4_def Let_def fam cidr [unfolded One_nat_def] size eta win_constants)
  next
    case False
    then have l: "length (net_ip n) = 16" "to4 (net_ip n) = None" using len by simp_all
    then have "cidr_mask (int (net_len n)) 128 = net_mask n" using le mask by (simp add: cidr_mask_nat)
    then show ?thesis using l
      by (simp add: win_parse_allowed_ip_def rd)
        (simp add: win_allowed_ip_def field_at_def to16_def Let_def fam cidr [unfolded One_nat_def] size eta win_constants)
  qed
qed

text \<open>The networks of a peer in memory, with the flags of their structures.\<close>

definition win_nets :: "peer_config \<Rightarrow> (ip_net \<times> nat) list" where
  "win_nets p = map (\<lambda>n. (n, 0)) (pc_allowed_ips p)
     @ map (\<lambda>a. (aip_net a, if aip_op a = AllowedIPRemove then 1 else 0)) (pc_allowed_ip_ops p)"

definition win_net_block :: "ip_net \<times> nat \<Rightarrow> byte list" where
  "win_net_block x = win_allowed_ip (fst x) (snd x)"

lemma win_peer_nets: "win_peer p = win_peer_head p @ concat (map win_net_block (win_nets p))"
  by (simp add: win_peer_def win_nets_def win_net_block_def comp_def)

lemma win_allowed_ips_read:
  assumes "list_all (\<lambda>x. canonical_net (fst x)) xs"
  shows "win_parse_allowed_ips (a @ concat (map win_net_block xs) @ c) (length a) (length xs) = Returns (map fst xs)"
  using assms
proof (induction xs arbitrary: c rule: rev_induct)
  case (snoc x xs)
  let ?m = "a @ concat (map win_net_block (xs @ [x])) @ c"
  have "win_parse_allowed_ips ?m (length a) (length xs) = Returns (map fst xs)"
    using snoc.IH [of "win_net_block x @ c"] snoc.prems by simp
  moreover have len: "length (concat (map win_net_block xs)) = length xs * sizeof_win_allowed_ip"
    using snoc.prems by (intro concat_lengths) (simp add: list_all_iff win_net_block_def win_allowed_ip_length)
  have "win_parse_allowed_ip ?m (length a + length xs * sizeof_win_allowed_ip) = Returns (fst x)"
    using win_allowed_ip_read [of "fst x" "a @ concat (map win_net_block xs)" "snd x" c] snoc.prems len by (simp add: win_net_block_def)
  ultimately show ?case by (simp add: win_parse_allowed_ips_def map_run_append)
qed (simp add: win_parse_allowed_ips_def)

definition win_peer_ok :: "peer_config \<Rightarrow> bool" where
  "win_peer_ok p \<longleftrightarrow> wf_key (pc_public_key p) \<and> opt_all wf_key (pc_preshared_key p)
     \<and> opt_all (\<lambda>d. 0 \<le> d \<and> d < 65536 * second) (pc_keepalive p)
     \<and> opt_all (\<lambda>a. (length (ua_ip a) = 4 \<or> length (ua_ip a) = 16) \<and> 0 \<le> ua_port a \<and> ua_port a \<le> 65535) (pc_endpoint p)
     \<and> list_all canonical_net (pc_allowed_ips p) \<and> list_all (canonical_net \<circ> aip_net) (pc_allowed_ip_ops p)
     \<and> length (pc_allowed_ips p) + length (pc_allowed_ip_ops p) < 2 ^ 32"

text \<open>What the structures keep of a peer: a keepalive in whole seconds, the short form of addresses, no zone, no name.\<close>

definition win_kept_peer :: "peer_config \<Rightarrow> peer" where
  "win_kept_peer p = zero_peer\<lparr>p_public_key := pc_public_key p,
     p_preshared_key := (case pc_preshared_key p of None \<Rightarrow> zero_key | Some k \<Rightarrow> k), p_has_preshared_key := pc_preshared_key p \<noteq> None,
     p_endpoint := map_option (\<lambda>a. a\<lparr>ua_ip := short_ip (ua_ip a), ua_zone := []\<rparr>) (pc_endpoint p), p_has_endpoint := pc_endpoint p \<noteq> None,
     p_keepalive := (case pc_keepalive p of None \<Rightarrow> 0 | Some d \<Rightarrow> d div second * second), p_has_keepalive := pc_keepalive p \<noteq> None,
     p_allowed_ips := pc_allowed_ips p @ map aip_net (pc_allowed_ip_ops p)\<rparr>"

definition win_kept :: "string \<Rightarrow> config \<Rightarrow> device" where
  "win_kept name c = zero_device\<lparr>d_type := WindowsKernel, d_name := name,
     d_private_key := (case c_private_key c of None \<Rightarrow> zero_key | Some k \<Rightarrow> k), d_has_private_key := c_private_key c \<noteq> None,
     d_listen_port := (case c_listen_port c of None \<Rightarrow> 0 | Some p \<Rightarrow> p), d_has_listen_port := c_listen_port c \<noteq> None,
     d_peers := map win_kept_peer (c_peers c)\<rparr>"

definition win_config_ok :: "config \<Rightarrow> bool" where
  "win_config_ok c \<longleftrightarrow> opt_all wf_key (c_private_key c) \<and> opt_all (\<lambda>p. 0 \<le> p \<and> p \<le> 65535) (c_listen_port c)
     \<and> list_all win_peer_ok (c_peers c) \<and> length (c_peers c) < 2 ^ 32"

lemma zero_key_length [simp]: "length zero_key = 32"
  by (simp add: zero_key_def key_len_def)

lemma win_peer_fields:
  assumes p: "win_peer_ok p"
  defines "b \<equiv> win_peer_head p"
  shows "length b = sizeof_win_peer"
    "b ! 0 = word_of_nat (flag_byte [(0, True), (1, pc_preshared_key p \<noteq> None), (2, pc_keepalive p \<noteq> None), (3, pc_endpoint p \<noteq> None),
       (5, pc_replace_allowed_ips p), (6, pc_remove p), (7, pc_update_only p)])"
    "field_at b 8 32 = pc_public_key p"
    "field_at b 40 32 = (case pc_preshared_key p of None \<Rightarrow> zero_key | Some k \<Rightarrow> k)"
    "field_at b 72 2 = le_put 2 (case pc_keepalive p of None \<Rightarrow> 0 | Some d \<Rightarrow> tdiv d second)"
    "field_at b 76 28 = (case pc_endpoint p of None \<Rightarrow> replicate 28 0 | Some a \<Rightarrow> win_set_ip (ua_ip a) (ua_port a))"
    "field_at b 104 8 = replicate 8 0" "field_at b 112 8 = replicate 8 0" "field_at b 120 8 = replicate 8 0"
    "field_at b 128 4 = le_put 4 (int (length (pc_allowed_ips p) + length (pc_allowed_ip_ops p)))"
proof -
  have k: "length (pc_public_key p) = 32" "length (case pc_preshared_key p of None \<Rightarrow> zero_key | Some k \<Rightarrow> k) = 32"
    "length (case pc_endpoint p of None \<Rightarrow> replicate 28 0 | Some a \<Rightarrow> win_set_ip (ua_ip a) (ua_port a)) = 28"
    using p by (auto simp: win_peer_ok_def wf_key_def key_len_def win_set_ip_length split: option.splits)
  note [simp] = k b_def win_peer_head_def field_at_def win_flags_parts nth_append
  show "length b = sizeof_win_peer" by (simp add: sizeof_win_peer_def)
  show "b ! 0 = word_of_nat (flag_byte [(0, True), (1, pc_preshared_key p \<noteq> None), (2, pc_keepalive p \<noteq> None), (3, pc_endpoint p \<noteq> None),
       (5, pc_replace_allowed_ips p), (6, pc_remove p), (7, pc_update_only p)])" by simp
  show "field_at b 8 32 = pc_public_key p" by simp
  show "field_at b 40 32 = (case pc_preshared_key p of None \<Rightarrow> zero_key | Some k \<Rightarrow> k)" by simp
  show "field_at b 72 2 = le_put 2 (case pc_keepalive p of None \<Rightarrow> 0 | Some d \<Rightarrow> tdiv d second)" by simp
  show "field_at b 76 28 = (case pc_endpoint p of None \<Rightarrow> replicate 28 0 | Some a \<Rightarrow> win_set_ip (ua_ip a) (ua_port a))" by simp
  show "field_at b 104 8 = replicate 8 0" "field_at b 112 8 = replicate 8 0" "field_at b 120 8 = replicate 8 0" by simp_all
  show "field_at b 128 4 = le_put 4 (int (length (pc_allowed_ips p) + length (pc_allowed_ip_ops p)))" by simp
qed

lemma le_nat_zero [simp]: "le_nat (replicate n 0) = 0"
  by (induction n) simp_all

lemma win_peer_read:
  assumes p: "win_peer_ok p"
  shows "win_parse_peer (win_peer_head p) = (win_kept_peer p)\<lparr>p_allowed_ips := []\<rparr>"
proof -
  let ?fs = "[(0, True), (1, pc_preshared_key p \<noteq> None), (2, pc_keepalive p \<noteq> None), (3, pc_endpoint p \<noteq> None),
       (5, pc_replace_allowed_ips p), (6, pc_remove p), (7, pc_update_only p)]"
  have bits: "has_flag (win_peer_head p) k \<longleftrightarrow> (k, True) \<in> set ?fs" if "k < 8" for k
    using that unfolding has_flag_def win_peer_fields(2) [OF p] by (intro flag_bit) simp_all
  have ka: "int (le_nat (le_put 2 (tdiv d second))) = d div second" if "pc_keepalive p = Some d" for d
  proof -
    have d: "0 \<le> d" "d < 65536 * second" using p that by (simp_all add: win_peer_ok_def)
    then have "tdiv d second = d div second" by (cases "d = 0") (simp_all add: tdiv_def second_def)
    moreover have "0 \<le> d div second" "d div second < 65536" using d by (auto simp: second_def)
    ultimately show ?thesis by (simp add: le_put_nat)
  qed
  have ep: "win_ip (win_set_ip (ua_ip a) (ua_port a)) = short_ip (ua_ip a)" "win_port (win_set_ip (ua_ip a) (ua_port a)) = ua_port a"
    if "pc_endpoint p = Some a" for a
    using p that by (simp_all add: win_peer_ok_def win_set_ip_read)
  have zero: "wrap64 0 = 0" by (simp add: wrap64_def)
  show ?thesis
    by (cases "pc_preshared_key p"; cases "pc_keepalive p"; cases "pc_endpoint p")
      (simp_all add: win_parse_peer_def Let_def bits win_peer_fields [OF p] ka ep win_kept_peer_def zero_peer_def win_time_def zero)
qed

lemma win_peer_length:
  assumes "win_peer_ok p"
  shows "length (concat (map win_net_block (win_nets p))) = length (win_nets p) * sizeof_win_allowed_ip"
  using assms by (intro concat_lengths)
    (auto simp: win_nets_def win_net_block_def win_peer_ok_def list_all_iff intro!: win_allowed_ip_length)

lemma win_peers_read:
  assumes "list_all win_peer_ok ps"
  shows "win_peers (a @ concat (map win_peer ps) @ c) (length ps) (length a) = Returns (map win_kept_peer ps)"
  using assms
proof (induction ps arbitrary: a)
  case (Cons p ps)
  then have p: "win_peer_ok p" and ps: "list_all win_peer_ok ps" by simp_all
  let ?b = "win_peer_head p" let ?nets = "concat (map win_net_block (win_nets p))"
  let ?m = "a @ concat (map win_peer (p # ps)) @ c"
  have b: "length ?b = sizeof_win_peer" by (rule win_peer_fields(1) [OF p])
  have m: "?m = a @ ?b @ ?nets @ concat (map win_peer ps) @ c" by (simp add: win_peer_nets [of p])
  have rd: "mem_read ?m (length a) 132 = Returns (field_at ?b 0 132)"
    using mem_read_inner [of 0 132 ?b a "?nets @ concat (map win_peer ps) @ c"] b unfolding m by (simp add: sizeof_win_peer_def)
  have few: "length (pc_allowed_ips p) + length (pc_allowed_ip_ops p) < 2 ^ 32" using p by (simp add: win_peer_ok_def)
  have sub: "field_at (field_at ?b 0 132) o1 n1 = field_at ?b o1 n1" if "o1 + n1 \<le> 132" for o1 n1
    using that by (simp add: field_at_def drop_take)
  have count: "le_nat (field_at (field_at ?b 0 132) 128 4) = length (win_nets p)"
    using few by (simp add: sub win_peer_fields [OF p] le_put_nat win_nets_def)
  have flags: "field_at ?b 0 132 ! 0 = ?b ! 0" by (simp add: field_at_def)
  note subs = sub [of 8 32] sub [of 40 32] sub [of 76 28] sub [of 72 2] sub [of 4 4] sub [of 104 8] sub [of 112 8] sub [of 120 8]
  have "win_parse_peer (field_at ?b 0 132) = win_parse_peer ?b"
    unfolding win_parse_peer_def has_flag_def flags subs [simplified] ..
  then have head: "win_parse_peer (field_at ?b 0 132) = (win_kept_peer p)\<lparr>p_allowed_ips := []\<rparr>" by (simp add: win_peer_read [OF p])
  have "list_all (\<lambda>x. canonical_net (fst x)) (win_nets p)"
    using p by (auto simp: win_peer_ok_def win_nets_def list_all_iff)
  then have nets: "win_parse_allowed_ips ?m (length a + sizeof_win_peer) (length (win_nets p)) = Returns (map fst (win_nets p))"
    using win_allowed_ips_read [of "win_nets p" "a @ ?b" "concat (map win_peer ps) @ c"] unfolding m by (simp add: b)
  have rest: "win_peers ?m (length ps) (length a + sizeof_win_peer + length (win_nets p) * sizeof_win_allowed_ip) = Returns (map win_kept_peer ps)"
    using Cons.IH [OF ps, of "a @ ?b @ ?nets"] unfolding m by (simp add: b win_peer_length [OF p] add.assoc)
  have kept: "(win_kept_peer p)\<lparr>p_allowed_ips := map fst (win_nets p)\<rparr> = win_kept_peer p"
    by (simp add: win_kept_peer_def win_nets_def comp_def)
  show ?case
    unfolding list.size add_0_right add_Suc_right win_peers.simps(2) rd bind_run.simps Let_def count nets rest by (simp add: head kept)
qed simp

lemma win_interface_fields:
  assumes c: "win_config_ok c"
  defines "b \<equiv> win_interface c"
  shows "length b = sizeof_win_interface"
    "b ! 0 = word_of_nat (flag_byte [(1, c_private_key c \<noteq> None), (2, c_listen_port c \<noteq> None), (3, c_replace_peers c)])"
    "field_at b 4 2 = le_put 2 (case c_listen_port c of None \<Rightarrow> 0 | Some p \<Rightarrow> p)"
    "field_at b 6 32 = (case c_private_key c of None \<Rightarrow> zero_key | Some k \<Rightarrow> k)"
    "field_at b 72 4 = le_put 4 (int (length (c_peers c)))"
proof -
  have k: "length (case c_private_key c of None \<Rightarrow> zero_key | Some k \<Rightarrow> k) = 32"
    using c by (auto simp: win_config_ok_def wf_key_def key_len_def split: option.splits)
  show "length b = sizeof_win_interface"
    "b ! 0 = word_of_nat (flag_byte [(1, c_private_key c \<noteq> None), (2, c_listen_port c \<noteq> None), (3, c_replace_peers c)])"
    "field_at b 4 2 = le_put 2 (case c_listen_port c of None \<Rightarrow> 0 | Some p \<Rightarrow> p)"
    "field_at b 6 32 = (case c_private_key c of None \<Rightarrow> zero_key | Some k \<Rightarrow> k)"
    "field_at b 72 4 = le_put 4 (int (length (c_peers c)))"
    by (simp_all add: b_def win_interface_def field_at_def win_flags_parts nth_append k sizeof_win_interface_def)
qed

lemma win_parse_built:
  assumes c: "win_config_ok c"
  shows "win_parse name (win_build c @ rest) = Returns (win_kept name c)"
proof -
  let ?b = "win_interface c" let ?fs = "[(1, c_private_key c \<noteq> None), (2, c_listen_port c \<noteq> None), (3, c_replace_peers c)]"
  note fields = win_interface_fields [OF c]
  have sub: "field_at (field_at ?b 0 76) o1 n1 = field_at ?b o1 n1" if "o1 + n1 \<le> 76" for o1 n1
    using that by (simp add: field_at_def drop_take)
  have rd: "mem_read (win_build c @ rest) 0 76 = Returns (field_at ?b 0 76)"
    using mem_read_inner [of 0 76 ?b "[]"] fields(1) by (simp add: win_build_def sizeof_win_interface_def)
  have bits: "has_flag (field_at ?b 0 76) k \<longleftrightarrow> (k, True) \<in> set ?fs" if "k < 8" for k
  proof -
    have "field_at ?b 0 76 ! 0 = ?b ! 0" by (simp add: field_at_def)
    then show ?thesis using that unfolding has_flag_def fields(2) by (simp only:) (intro flag_bit, simp_all)
  qed
  have count: "le_nat (le_put 4 (int (length (c_peers c)))) = length (c_peers c)"
    using c by (simp add: le_put_nat win_config_ok_def)
  have peers: "win_peers (win_build c @ rest) (length (c_peers c)) sizeof_win_interface = Returns (map win_kept_peer (c_peers c))"
    using win_peers_read [of "c_peers c" ?b rest] c fields(1) by (simp add: win_build_def win_config_ok_def)
  have port: "int (le_nat (le_put 2 p)) = p" if "c_listen_port c = Some p" for p
    using c that by (subst le_put_nat) (auto simp: win_config_ok_def)
  show ?thesis
    by (cases "c_private_key c"; cases "c_listen_port c")
      (simp_all add: win_parse_def rd Let_def count peers bits sub fields port win_kept_def zero_device_def)
qed

section \<open>Facts about the client\<close>

lemma win_handle_cached:
  assumes "map_of (wc_cache c) name = Some f"
  shows "win_handle api name c s =
    (case wa_open api f s of
       (Inr h, s1) \<Rightarrow> Some (Returns (Inr h), c, s1)
     | (Inl e, s1) \<Rightarrow> if e = FileNotFound then Some (Returns (Inl (win_err e)), c, s1) else win_handle api name c s1)"
  by (subst win_handle.simps) (simp add: assms)

lemma win_handle_not_cached:
  assumes "map_of (wc_cache c) name = None"
  shows "win_handle api name c s \<noteq> None"
  by (subst win_handle.simps) (auto simp: assms split: run.split sum.split option.split prod.split)

lemma win_handle_Some_opens:
  assumes "win_handle api name c s = Some y" and "map_of (wc_cache c) name = Some f"
  shows "\<exists>t. fst (wa_open api f t) = Inl FileNotFound \<or> (\<exists>h. fst (wa_open api f t) = Inr h)"
proof -
  have "map_of (wc_cache c) name = Some f \<longrightarrow> (\<exists>t. fst (wa_open api f t) = Inl FileNotFound \<or> (\<exists>h. fst (wa_open api f t) = Inr h))"
  proof (rule win_handle.raw_induct [of "\<lambda>api name c s y. map_of (wc_cache c) name = Some f
        \<longrightarrow> (\<exists>t. fst (wa_open api f t) = Inl FileNotFound \<or> (\<exists>h. fst (wa_open api f t) = Inr h))", OF _ assms(1)], goal_cases)
    case (1 handle api name c s y)
    show ?case
    proof (cases "\<exists>e. fst (wa_open api f s) = Inl e \<and> e \<noteq> FileNotFound")
      case True
      then have "map_of (wc_cache c) name = Some f \<Longrightarrow> handle api name c (snd (wa_open api f s)) = Some y"
        using 1(2) by (cases "wa_open api f s") auto
      then show ?thesis using 1(1) by blast
    next
      case False
      then show ?thesis by (cases "fst (wa_open api f s)") auto
    qed
  qed
  then show ?thesis using assms(2) by simp
qed

text \<open>A driver that holds these bytes for a handle: more data until the buffer is large enough.\<close>

definition win_holds :: "('h, 's) win_api \<Rightarrow> 'h \<Rightarrow> byte list \<Rightarrow> 's \<Rightarrow> bool" where
  "win_holds api h mem s \<longleftrightarrow>
     (\<forall>n. wa_get api h n s = (if n < length mem then (Some MoreData, replicate n 0, length mem) else (None, mem @ replicate (n - length mem) 0, length mem), s))"

lemma win_get_holds:
  assumes "win_holds api h mem s" and "mem \<noteq> []" and "0 < n"
  shows "win_get api h n s = Some (Returns (Inr (mem @ replicate (n - length mem) 0, length mem)), s)"
proof (cases "n < length mem")
  case True
  have "win_get api h (length mem) s = Some (Returns (Inr (mem, length mem)), s)"
    using assms by (subst win_get.simps) (simp add: win_holds_def)
  then show ?thesis using True assms by (subst win_get.simps) (simp add: win_holds_def)
next
  case False
  then show ?thesis using assms by (subst win_get.simps) (simp add: win_holds_def)
qed

section \<open>Properties\<close>

text \<open>
  C25. On Windows a configuration survives the driver's structures: where the driver holds what
  \<open>buildConfiguration\<close> laid out, the loop around the ioctl ends with a buffer large enough
  whatever the client remembers of its size, every read of \<open>parseConfiguration\<close> is inside of
  it, and the device has the keys, the port and the peers, in order, with their networks those of
  the allowed IPs before those of the operations. Lost are fractions of a second of a keepalive,
  zones, the firewall mark and names.
\<close>

theorem windows_round_trip:
  assumes "win_handle api name c s = Some (Returns (Inr h), c1, s1)"
    and "win_holds api h (win_build cfg) s1" and "win_config_ok cfg"
  shows "win_device api name c s
    = Some (Returns (Inr (win_kept name cfg)), c1\<lparr>wc_len := length (win_build cfg)\<rparr>, wa_close api h s1)"
proof -
  have "win_build cfg \<noteq> []"
    using win_interface_fields(1) [OF assms(3)] by (auto simp: win_build_def sizeof_win_interface_def)
  then show ?thesis
    using win_get_holds [OF assms(2), of "if wc_len c1 = 0 then 512 else wc_len c1"]
    by (simp add: win_device_def assms(1) win_parse_built [OF assms(3)])
qed

definition win_sample_config :: config where
  "win_sample_config = zero_config\<lparr>c_private_key := Some (replicate 32 1), c_listen_port := Some 51820, c_replace_peers := True,
     c_peers := [zero_peer_config\<lparr>pc_public_key := replicate 32 3, pc_preshared_key := Some (replicate 32 4),
         pc_endpoint := Some \<lparr>ua_ip = [192, 0, 2, 1], ua_port = 7, ua_zone = []\<rparr>, pc_keepalive := Some (25 * second),
         pc_allowed_ips := [\<lparr>net_ip = [10, 0, 0, 0], net_mask = [255, 0, 0, 0]\<rparr>]\<rparr>,
       zero_peer_config\<lparr>pc_public_key := replicate 32 5, pc_remove := True\<rparr>]\<rparr>"

definition win_sample :: "(unit, unit) win_api" where
  "win_sample = \<lparr>wa_devices = (\<lambda>_. Inr [\<lparr>wd_readable = True, wd_name = Inr (Some ''wg0''), wd_status = Some 10, wd_interfaces = Inr [''wg0'']\<rparr>]),
     wa_open = (\<lambda>_ s. (Inr (), s)), wa_close = (\<lambda>_ s. s),
     wa_get = (\<lambda>_ n s. let mem = win_build win_sample_config
       in (if n < length mem then (Some MoreData, replicate n 0, length mem) else (None, mem @ replicate (n - length mem) 0, length mem), s)),
     wa_set = (\<lambda>_ _ s. (None, s))\<rparr>"

theorem windows_round_trip_witness:
  "win_device win_sample ''wg0'' win_new ()
     = Some (Returns (Inr (win_kept ''wg0'' win_sample_config)),
         \<lparr>wc_cache = [(''wg0'', ''wg0'')], wc_len = length (win_build win_sample_config)\<rparr>, ())"
proof -
  have bits: "bit (10 :: nat) 1" "bit (10 :: nat) 3" by code_simp+
  have "win_handle win_sample ''wg0'' win_new () = Some (Returns (Inr ()), \<lparr>wc_cache = [(''wg0'', ''wg0'')], wc_len = 0\<rparr>, ())"
    by (subst win_handle.simps) (simp add: win_new_def win_sample_def win_refresh_def win_dev_file_def bits [unfolded One_nat_def] bit_0)
  moreover have "win_holds win_sample () (win_build win_sample_config) ()" by (simp add: win_holds_def win_sample_def Let_def)
  moreover have "win_config_ok win_sample_config" by code_simp
  ultimately have "win_device win_sample ''wg0'' win_new ()
     = Some (Returns (Inr (win_kept ''wg0'' win_sample_config)),
         \<lparr>wc_cache = [(''wg0'', ''wg0'')], wc_len = 0\<rparr>\<lparr>wc_len := length (win_build win_sample_config)\<rparr>, wa_close win_sample () ())"
    by (rule windows_round_trip)
  then show ?thesis by simp
qed

text \<open>
  A device whose file is remembered but can no longer be opened, for a reason other than that it
  is gone, is never answered: the loop of \<open>interfaceHandle\<close> has no end. Where nothing is
  remembered, the same error is returned.
\<close>

theorem windows_handle_stuck:
  assumes "map_of (wc_cache c) name = Some f" and "\<And>t. \<exists>e. fst (wa_open api f t) = Inl e \<and> e \<noteq> FileNotFound"
  shows "win_handle api name c s = None"
proof (cases "win_handle api name c s")
  case (Some y)
  obtain t where "fst (wa_open api f t) = Inl FileNotFound \<or> (\<exists>h. fst (wa_open api f t) = Inr h)"
    using win_handle_Some_opens [OF Some assms(1)] by blast
  then show ?thesis using assms(2) [of t] by auto
qed

theorem windows_handle_stuck_witness:
  "win_handle (win_sample\<lparr>wa_open := \<lambda>_ s. (Inl (OtherWin ErrPermission), s)\<rparr>) ''wg0'' \<lparr>wc_cache = [(''wg0'', ''wg0'')], wc_len = 0\<rparr> () = None
     \<and> win_handle (win_sample\<lparr>wa_open := \<lambda>_ s. (Inl (OtherWin ErrPermission), s)\<rparr>) ''wg0'' win_new () \<noteq> None"
  by (intro conjI windows_handle_stuck [where f = "''wg0''"] win_handle_not_cached) (simp_all add: win_new_def)

end
